(* ===== verification/Prelude.thy ===== *)
theory Prelude
  imports Main "HOL-Library.Char_ord" "HOL-Library.List_Lexorder" "HOL-Library.Word"
begin

text \<open>
  The vocabulary the component theories share.

  \<^item> Results of code that can throw: \<open>'e + 'a\<close> with \<open>Inl\<close> for the exception, and the
    combinators \<open>bindE\<close>, \<open>foldE\<close> and \<open>seqE\<close> that sequence such code and stop at the first throw.
  \<^item> \<open>std::map\<close> as an association list kept in increasing key order (\<open>map_find\<close>,
    \<open>map_set\<close>, \<open>map_erase\<close>): the program iterates over its maps, so the order of the
    keys is part of what the code computes. The locale \<open>dictionary\<close> is the contract the
    clients rely on, interpreted on the association lists.
  \<^item> \<open>std::string\<close> searches (\<open>find_first_of\<close>, \<open>find_first_not_of\<close>, \<open>substr\<close>).
\<close>

named_theorems resE "evaluation of the exception combinators"
named_theorems std_map "laws of the association-list maps"

unbundle bit_operations_syntax

section \<open>Code that can throw\<close>

text \<open>
  What ends the normal flow of a function: the exceptions of the program that reach a caller,
  a failed \<open>assert\<close>, and the accesses C++ leaves undefined (an index outside a string or
  vector, a null or dangling pointer, a variable that was never set), which the models report instead of computing a value.
\<close>

datatype exn =
    MalformedMessage
  | AssertionFailed
  | OutOfRange
  | NullPointer
  | Dangling
  | Indeterminate

definition bindE :: "'e + 'a \<Rightarrow> ('a \<Rightarrow> 'e + 'b) \<Rightarrow> 'e + 'b" where
  "bindE r f = (case r of Inl e \<Rightarrow> Inl e | Inr x \<Rightarrow> f x)"

fun foldE :: "('a \<Rightarrow> 's \<Rightarrow> 'e + 's) \<Rightarrow> 'a list \<Rightarrow> 's \<Rightarrow> 'e + 's" where
  "foldE f [] s = Inr s"
| "foldE f (x # xs) s = bindE (f x s) (foldE f xs)"

fun seqE :: "('s \<Rightarrow> 'e + 's) list \<Rightarrow> 's \<Rightarrow> 'e + 's" where
  "seqE [] s = Inr s"
| "seqE (f # fs) s = bindE (f s) (seqE fs)"

lemma bindE_simps [simp, resE]: "bindE (Inl e) f = Inl e" "bindE (Inr x) f = f x"
  by (simp_all add: bindE_def)

lemma bindE_Inr_iff [resE]: "bindE r f = Inr y \<longleftrightarrow> (\<exists>x. r = Inr x \<and> f x = Inr y)"
  by (cases r) auto

lemma bindE_Inl_iff: "bindE r f = Inl e \<longleftrightarrow> r = Inl e \<or> (\<exists>x. r = Inr x \<and> f x = Inl e)"
  by (cases r) auto

lemma bindE_assoc: "bindE (bindE r f) g = bindE r (\<lambda>x. bindE (f x) g)"
  by (cases r) auto

lemma bindE_cong [fundef_cong]:
  "r = r' \<Longrightarrow> (\<And>x. r' = Inr x \<Longrightarrow> f x = g x) \<Longrightarrow> bindE r f = bindE r' g"
  by (cases r') auto

lemma foldE_append: "foldE f (xs @ ys) s = bindE (foldE f xs s) (foldE f ys)"
  by (induction xs arbitrary: s) (auto simp: bindE_assoc intro!: bindE_cong)

lemma foldE_cong [fundef_cong]:
  "xs = ys \<Longrightarrow> s = t \<Longrightarrow> (\<And>x u. x \<in> set ys \<Longrightarrow> f x u = g x u) \<Longrightarrow> foldE f xs s = foldE g ys t"
proof (induction ys arbitrary: xs s t)
  case Nil
  then show ?case by simp
next
  case (Cons y ys)
  then show ?case by (auto intro!: bindE_cong)
qed

text \<open>A loop that keeps an invariant and never throws from a state with the invariant.\<close>

lemma foldE_invariant:
  assumes "\<And>x s. x \<in> set xs \<Longrightarrow> I s \<Longrightarrow> \<exists>s'. f x s = Inr s' \<and> I s'" and "I s"
  shows "\<exists>s'. foldE f xs s = Inr s' \<and> I s'"
  using assms
proof (induction xs arbitrary: s)
  case Nil
  then show ?case by simp
next
  case (Cons x xs)
  then obtain s1 where "f x s = Inr s1" "I s1" by fastforce
  moreover have "\<exists>s'. foldE f xs s1 = Inr s' \<and> I s'"
    using Cons.prems \<open>I s1\<close> by (intro Cons.IH) auto
  ultimately show ?case by simp
qed

lemma foldE_keeps:
  assumes "foldE f xs s = Inr s'" and "\<And>x s s'. x \<in> set xs \<Longrightarrow> f x s = Inr s' \<Longrightarrow> I s \<Longrightarrow> I s'" and "I s"
  shows "I s'"
  using assms
proof (induction xs arbitrary: s)
  case Nil
  then show ?case by simp
next
  case (Cons x xs)
  then obtain s1 where s1: "f x s = Inr s1" "foldE f xs s1 = Inr s'" by (auto simp: bindE_Inr_iff)
  from Cons.prems(2) [OF _ s1(1) Cons.prems(3)] have "I s1" by simp
  with Cons.IH [OF s1(2)] Cons.prems(2) show ?case by (metis list.set_intros(2))
qed

section \<open>Ordered maps\<close>

type_synonym ('k, 'v) smap = "('k \<times> 'v) list"

abbreviation map_find :: "('k, 'v) smap \<Rightarrow> 'k \<Rightarrow> 'v option" where
  "map_find \<equiv> map_of"

fun map_set :: "'k::linorder \<Rightarrow> 'v \<Rightarrow> ('k, 'v) smap \<Rightarrow> ('k, 'v) smap" where
  "map_set k v [] = [(k, v)]"
| "map_set k v (e # m) =
     (if fst e < k then e # map_set k v m
      else if fst e = k then (k, v) # m
      else (k, v) # e # m)"

definition map_erase :: "'k \<Rightarrow> ('k, 'v) smap \<Rightarrow> ('k, 'v) smap" where
  "map_erase k m = filter (\<lambda>e. fst e \<noteq> k) m"

definition map_wf :: "('k::linorder, 'v) smap \<Rightarrow> bool" where
  "map_wf m \<longleftrightarrow> sorted_wrt (<) (map fst m)"

lemma map_wf_Nil [simp, std_map]: "map_wf []"
  by (simp add: map_wf_def)

lemma map_wf_Cons: "map_wf (e # m) \<longleftrightarrow> (\<forall>e'\<in>set m. fst e < fst e') \<and> map_wf m"
  by (simp add: map_wf_def)

lemma map_wf_distinct: "map_wf m \<Longrightarrow> distinct (map fst m)"
  by (simp add: map_wf_def strict_sorted_iff)

lemma set_map_set_subset: "set (map_set k v m) \<subseteq> insert (k, v) (set m)"
  by (induction m) auto

lemma keys_map_set [std_map]: "fst ` set (map_set k v m) = insert k (fst ` set m)"
  by (induction m) auto

lemma map_wf_set [std_map]: "map_wf m \<Longrightarrow> map_wf (map_set k v m)"
proof (induction m)
  case Nil
  then show ?case by (simp add: map_wf_def)
next
  case (Cons e m)
  show ?case
  proof (cases "fst e < k")
    case True
    have "\<forall>e'\<in>set (map_set k v m). fst e < fst e'"
      using Cons.prems True set_map_set_subset [of k v m] by (auto simp: map_wf_Cons)
    with True Cons show ?thesis by (simp add: map_wf_Cons)
  next
    case False
    with Cons.prems show ?thesis by (auto simp: map_wf_Cons)
  qed
qed

lemma map_find_set [std_map]: "map_wf m \<Longrightarrow> map_find (map_set k v m) = (map_find m)(k \<mapsto> v)"
proof (induction m)
  case Nil
  then show ?case by auto
next
  case (Cons e m)
  then have "map_wf m" by (simp add: map_wf_Cons)
  with Cons.IH show ?case by (cases e) (auto simp: fun_eq_iff)
qed

lemma map_wf_erase [std_map]: "map_wf m \<Longrightarrow> map_wf (map_erase k m)"
  by (induction m) (auto simp: map_wf_Cons map_erase_def)

lemma map_find_erase [std_map]: "map_find (map_erase k m) = (map_find m)(k := None)"
  by (induction m) (auto simp: map_erase_def fun_eq_iff)

lemma set_map_erase [std_map]: "set (map_erase k m) = {e \<in> set m. fst e \<noteq> k}"
  by (auto simp: map_erase_def)

lemma map_find_iff_mem [std_map]: "map_wf m \<Longrightarrow> map_find m k = Some v \<longleftrightarrow> (k, v) \<in> set m"
  by (simp add: map_wf_distinct)

lemma distinct_snd_key:
  assumes "distinct (map snd m)" and "(a, u) \<in> set m" and "(b, u) \<in> set m"
  shows "a = b"
  using assms inj_onD [of snd "set m" "(a, u)" "(b, u)"] by (simp add: distinct_map)

text \<open>
  The contract of a dictionary, stated on lookups; what the clients derive from it is proved
  once here. \<open>ins\<close> is assignment through \<open>operator[]\<close>.
\<close>

locale dictionary =
  fixes fnd :: "'m \<Rightarrow> 'k \<Rightarrow> 'v option"
    and ins :: "'k \<Rightarrow> 'v \<Rightarrow> 'm \<Rightarrow> 'm"
    and del :: "'k \<Rightarrow> 'm \<Rightarrow> 'm"
    and wf :: "'m \<Rightarrow> bool"
  assumes fnd_ins: "wf m \<Longrightarrow> fnd (ins k v m) = (fnd m)(k \<mapsto> v)"
    and fnd_del: "wf m \<Longrightarrow> fnd (del k m) = (fnd m)(k := None)"
    and wf_ins: "wf m \<Longrightarrow> wf (ins k v m)"
    and wf_del: "wf m \<Longrightarrow> wf (del k m)"
begin

lemma fnd_ins_same: "wf m \<Longrightarrow> fnd (ins k v m) k = Some v"
  by (simp add: fnd_ins)

lemma fnd_ins_other: "wf m \<Longrightarrow> k' \<noteq> k \<Longrightarrow> fnd (ins k v m) k' = fnd m k'"
  by (simp add: fnd_ins)

lemma fnd_move: "wf m \<Longrightarrow> fnd (ins k' v (del k m)) = (fnd m)(k := None, k' \<mapsto> v)"
  by (simp add: fnd_ins fnd_del wf_del)

lemma dom_move: "wf m \<Longrightarrow> dom (fnd (ins k' v (del k m))) = insert k' (dom (fnd m) - {k})"
  by (simp add: fnd_move)

lemma ran_move:
  assumes "wf m" and "k' = k \<or> fnd m k' = None"
  shows "ran (fnd (ins k' v (del k m))) = insert v (ran ((fnd m)(k := None)))"
proof -
  from assms(2) have "((fnd m)(k := None)) k' = None" by auto
  then show ?thesis by (simp only: fnd_move [OF assms(1)] ran_map_upd)
qed

end

interpretation smap: dictionary map_find map_set map_erase map_wf
  by unfold_locales (simp_all add: map_find_set map_find_erase map_wf_set map_wf_erase)

section \<open>String searches\<close>

definition find_first_of :: "string \<Rightarrow> string \<Rightarrow> nat \<Rightarrow> nat option" where
  "find_first_of s d pos = find (\<lambda>i. s ! i \<in> set d) [pos ..< length s]"

definition find_first_not_of :: "string \<Rightarrow> string \<Rightarrow> nat \<Rightarrow> nat option" where
  "find_first_not_of s d pos = find (\<lambda>i. s ! i \<notin> set d) [pos ..< length s]"

definition substr :: "string \<Rightarrow> nat \<Rightarrow> nat \<Rightarrow> string" where
  "substr s pos n = take n (drop pos s)"

lemma last_neq_notin: "c \<notin> set s \<Longrightarrow> s \<noteq> [] \<Longrightarrow> last s \<noteq> c"
  using last_in_set by blast

text \<open>Searching by index from a position is scanning what follows it.\<close>

lemma find_upt_takeWhile:
  assumes "pos \<le> length s"
  shows "find (\<lambda>i. P (s ! i)) [pos ..< length s] =
    (if \<exists>c\<in>set (drop pos s). P c
     then Some (pos + length (takeWhile (\<lambda>c. \<not> P c) (drop pos s))) else None)"
  using assms
proof (induction "length s - pos" arbitrary: pos)
  case 0
  then show ?case by simp
next
  case (Suc n)
  then have pos: "pos < length s" by simp
  then have d: "drop pos s = s ! pos # drop (Suc pos) s" by (simp add: Cons_nth_drop_Suc)
  have r: "[pos ..< length s] = pos # [Suc pos ..< length s]" using pos by (simp add: upt_conv_Cons)
  have "find (\<lambda>i. P (s ! i)) [Suc pos ..< length s] =
    (if \<exists>c\<in>set (drop (Suc pos) s). P c
     then Some (Suc pos + length (takeWhile (\<lambda>c. \<not> P c) (drop (Suc pos) s))) else None)"
    using Suc pos by (intro Suc.hyps(1)) auto
  then show ?case unfolding r d by simp
qed

lemma find_first_of_takeWhile:
  "pos \<le> length s \<Longrightarrow> find_first_of s d pos =
    (if \<exists>c\<in>set (drop pos s). c \<in> set d
     then Some (pos + length (takeWhile (\<lambda>c. c \<notin> set d) (drop pos s))) else None)"
  unfolding find_first_of_def by (rule find_upt_takeWhile)

lemma find_first_not_of_takeWhile:
  "find_first_not_of s d 0 =
    (if \<exists>c\<in>set s. c \<notin> set d then Some (length (takeWhile (\<lambda>c. c \<in> set d) s)) else None)"
  using find_upt_takeWhile [of 0 s "\<lambda>c. c \<notin> set d"] by (simp add: find_first_not_of_def)

end
