(* ===== verification/Util.thy ===== *)
theory Util
  imports Prelude
begin

text \<open>
  \<open>src/src/core/util.cpp\<close> and \<open>util.h\<close>: the tokenizer every parser of the program is built
  on, case conversion and the conversions between numbers and text. \<open>stringtok\<close> is
  modelled with the positions the code computes and shown equal to a scan of the string; the
  loop \<open>while((tok = stringtok(s, d)).empty() == false)\<close> is \<open>tokens\<close>.
\<close>

section \<open>The tokenizer\<close>

text \<open>
  \<open>stringtok(in, delimiters)\<close> returns the token and replaces \<open>in\<close>: the model returns the
  pair of the token and the new value of \<open>in\<close>. \<open>None\<close> is \<open>string::npos\<close>; a search that
  starts at \<open>npos\<close> finds nothing.
\<close>

definition stringtok :: "string \<Rightarrow> string \<Rightarrow> string \<times> string" where
  "stringtok inp delimiters =
     (let i = find_first_not_of inp delimiters 0;
          j = (case i of None \<Rightarrow> None | Some p \<Rightarrow> find_first_of inp delimiters p)
      in case j of
           None \<Rightarrow> ((case i of None \<Rightarrow> [] | Some p \<Rightarrow> drop p inp), [])
         | Some q \<Rightarrow> (case i of None \<Rightarrow> ([], [])
             | Some p \<Rightarrow> (substr inp p (q - p), drop (q + 1) inp)))"

text \<open>The same tokenizer as a scan: skip delimiters, take up to the next one, drop that one.\<close>

definition scan_token :: "string \<Rightarrow> string \<Rightarrow> string \<times> string" where
  "scan_token s d =
     (let t = dropWhile (\<lambda>c. c \<in> set d) s
      in (takeWhile (\<lambda>c. c \<notin> set d) t, drop 1 (dropWhile (\<lambda>c. c \<notin> set d) t)))"

lemma stringtok_scan: "stringtok s d = scan_token s d"
proof (cases "\<exists>c\<in>set s. c \<notin> set d")
  case False
  then have dw: "dropWhile (\<lambda>c. c \<in> set d) s = []" by simp
  from False show ?thesis
    by (simp add: stringtok_def scan_token_def find_first_not_of_takeWhile Let_def dw
        del: dropWhile_eq_Nil_conv)
next
  case True
  define p where "p = length (takeWhile (\<lambda>c. c \<in> set d) s)"
  define t where "t = dropWhile (\<lambda>c. c \<in> set d) s"
  have p: "find_first_not_of s d 0 = Some p" and le: "p \<le> length s"
    using True by (simp_all add: find_first_not_of_takeWhile p_def length_takeWhile_le)
  have t: "drop p s = t" by (simp add: p_def t_def dropWhile_eq_drop)
  show ?thesis
  proof (cases "\<exists>c\<in>set t. c \<in> set d")
    case False
    then have tw: "takeWhile (\<lambda>c. c \<notin> set d) t = t" "dropWhile (\<lambda>c. c \<notin> set d) t = []"
      by (auto simp: takeWhile_eq_all_conv dropWhile_eq_Nil_conv)
    have "find_first_of s d p = None" using False le by (simp add: find_first_of_takeWhile t)
    with p t show ?thesis
      by (simp add: stringtok_def scan_token_def t_def [symmetric] Let_def tw
          del: dropWhile_eq_Nil_conv)
  next
    case True
    define n where "n = length (takeWhile (\<lambda>c. c \<notin> set d) t)"
    have q: "find_first_of s d p = Some (p + n)"
      using True le by (simp add: find_first_of_takeWhile t n_def)
    have tk: "take n t = takeWhile (\<lambda>c. c \<notin> set d) t" by (simp add: n_def takeWhile_eq_take [symmetric])
    have dr: "drop n t = dropWhile (\<lambda>c. c \<notin> set d) t" by (simp add: n_def dropWhile_eq_drop)
    have "drop (p + n + 1) s = drop 1 (drop n (drop p s))" by (simp add: add_ac)
    then show ?thesis
      using p q by (simp add: stringtok_def scan_token_def t_def [symmetric] substr_def t tk dr Let_def)
  qed
qed

lemma stringtok_no_delim: "c \<in> set (fst (stringtok s d)) \<Longrightarrow> c \<notin> set d"
  by (auto simp: stringtok_scan scan_token_def Let_def dest: set_takeWhileD)

lemma stringtok_empty_iff: "fst (stringtok s d) = [] \<longleftrightarrow> set s \<subseteq> set d"
proof -
  have "dropWhile (\<lambda>c. c \<in> set d) s = [] \<longleftrightarrow> set s \<subseteq> set d"
    by (auto simp: dropWhile_eq_Nil_conv)
  moreover have "takeWhile (\<lambda>c. c \<notin> set d) (dropWhile (\<lambda>c. c \<in> set d) s) = []
      \<longleftrightarrow> dropWhile (\<lambda>c. c \<in> set d) s = []"
    by (metis (mono_tags, lifting) hd_dropWhile takeWhile_eq_Nil_iff)
  ultimately show ?thesis by (simp add: stringtok_scan scan_token_def Let_def)
qed

lemma stringtok_length:
  assumes "fst (stringtok s d) \<noteq> []"
  shows "length (snd (stringtok s d)) < length s"
proof -
  let ?t = "dropWhile (\<lambda>c. c \<in> set d) s"
  let ?u = "dropWhile (\<lambda>c. c \<notin> set d) ?t"
  from assms have "takeWhile (\<lambda>c. c \<notin> set d) ?t \<noteq> []" by (simp add: stringtok_scan scan_token_def Let_def)
  moreover have "length ?t = length (takeWhile (\<lambda>c. c \<notin> set d) ?t) + length ?u"
    by (metis length_append takeWhile_dropWhile_id)
  ultimately have "length ?u < length ?t" by simp
  also have "\<dots> \<le> length s" by (rule length_dropWhile_le)
  finally show ?thesis by (simp add: stringtok_scan scan_token_def Let_def less_imp_diff_less)
qed

text \<open>Reading a token up to the first delimiter.\<close>

lemma stringtok_Cons_delim: "c \<in> set d \<Longrightarrow> stringtok (c # s) d = stringtok s d"
  by (simp add: stringtok_scan scan_token_def Let_def)

lemma stringtok_token:
  assumes "tok \<noteq> []" and "set tok \<inter> set d = {}" and "c \<in> set d"
  shows "stringtok (tok @ c # s) d = (tok, s)" and "stringtok tok d = (tok, [])"
proof -
  have dw: "dropWhile (\<lambda>c. c \<in> set d) (tok @ r) = tok @ r" for r
    using assms(1,2) by (cases tok) auto
  have out: "\<And>x. x \<in> set tok \<Longrightarrow> x \<notin> set d" using assms(2) by auto
  have tw: "takeWhile (\<lambda>c. c \<notin> set d) tok = tok" "dropWhile (\<lambda>c. c \<notin> set d) tok = []"
    using out by (auto simp: takeWhile_eq_all_conv)
  show "stringtok (tok @ c # s) d = (tok, s)" "stringtok tok d = (tok, [])"
    using dw [of "c # s"] dw [of "[]"] assms(3) out
    by (simp_all add: stringtok_scan scan_token_def Let_def tw del: dropWhile_eq_Nil_conv)
qed

text \<open>The loop that consumes a string token by token until an empty token.\<close>

function tokens :: "string \<Rightarrow> string \<Rightarrow> string list" where
  "tokens s d =
     (let (tok, rest) = stringtok s d
      in if tok = [] then [] else tok # tokens rest d)"
  by pat_completeness auto
termination
proof (relation "measure (\<lambda>(s, d). length s)")
  fix s d :: string and x tok rest
  assume "x = stringtok s d" "(tok, rest) = x" "tok \<noteq> []"
  then show "((rest, d), s, d) \<in> measure (\<lambda>(s, d). length s)"
    using stringtok_length [of s d] by (metis case_prod_conv fst_conv in_measure snd_conv)
qed simp

declare tokens.simps [simp del]

lemma tokens_empty: "set s \<subseteq> set d \<Longrightarrow> tokens s d = []"
  using stringtok_empty_iff [of s d] by (simp add: tokens.simps [of s d] case_prod_beta)

lemma tokens_Nil [simp]: "tokens [] d = []"
  by (simp add: tokens_empty)

lemma tokens_Cons_delim: "c \<in> set d \<Longrightarrow> tokens (c # s) d = tokens s d"
  by (simp add: tokens.simps [of "c # s"] tokens.simps [of s] stringtok_Cons_delim)

lemma tokens_token:
  assumes "tok \<noteq> []" and "set tok \<inter> set d = {}" and "c \<in> set d"
  shows "tokens (tok @ c # s) d = tok # tokens s d" and "tokens tok d = [tok]"
  using stringtok_token [OF assms] assms(1)
  by (simp_all add: tokens.simps [of "tok @ c # s"] tokens.simps [of tok])

text \<open>What the loop sees: the maximal runs of non-delimiter characters, in order.\<close>

lemma tokens_scan_cases:
  obtains (none) "set s \<subseteq> set d" "tokens s d = []"
  | (tok) pre tok rest where "set pre \<subseteq> set d" "tok \<noteq> []" "set tok \<inter> set d = {}"
      "s = pre @ tok @ rest" "rest = [] \<or> hd rest \<in> set d"
      "tokens s d = tok # tokens (drop 1 rest) d" "length rest < length s"
      "stringtok s d = (tok, drop 1 rest)"
proof (cases "set s \<subseteq> set d")
  case True
  then show ?thesis using none tokens_empty by blast
next
  case False
  define pre where "pre = takeWhile (\<lambda>c. c \<in> set d) s"
  define t where "t = dropWhile (\<lambda>c. c \<in> set d) s"
  define tk where "tk = takeWhile (\<lambda>c. c \<notin> set d) t"
  define rest where "rest = dropWhile (\<lambda>c. c \<notin> set d) t"
  have st: "stringtok s d = (tk, drop 1 rest)"
    by (simp add: stringtok_scan scan_token_def tk_def rest_def t_def Let_def)
  have ne: "tk \<noteq> []" using False stringtok_empty_iff [of s d] st by simp
  have "s = pre @ tk @ rest" by (simp add: pre_def t_def tk_def rest_def)
  moreover have "rest = [] \<or> hd rest \<in> set d"
    using hd_dropWhile [of "\<lambda>c. c \<notin> set d" t] by (auto simp: rest_def)
  moreover have "tokens s d = tk # tokens (drop 1 rest) d"
    using ne by (subst tokens.simps) (simp add: st)
  moreover have "set pre \<subseteq> set d" "set tk \<inter> set d = {}"
    by (auto simp: pre_def tk_def dest: set_takeWhileD)
  ultimately show ?thesis using ne st by (intro tok [of pre tk rest]) auto
qed

lemma tokens_sound:
  "t \<in> set (tokens s d) \<Longrightarrow> t \<noteq> [] \<and> set t \<inter> set d = {}"
proof (induction s d rule: tokens.induct)
  case (1 s d)
  show ?case
  proof (cases rule: tokens_scan_cases [of s d])
    case none
    with 1 show ?thesis by simp
  next
    case (tok pre tok rest)
    have "t = tok \<or> t \<in> set (tokens (drop 1 rest) d)" using 1(2) tok(6) by simp
    then show ?thesis using 1(1) [OF tok(8) [symmetric] refl tok(2)] tok(2,3) by auto
  qed
qed

text \<open>The loop loses nothing but delimiters.\<close>

lemma concat_tokens: "concat (tokens s d) = filter (\<lambda>c. c \<notin> set d) s"
proof (induction "length s" arbitrary: s rule: less_induct)
  case less
  show ?case
  proof (cases rule: tokens_scan_cases [of s d])
    case none
    then show ?thesis by (auto intro!: filter_False [symmetric])
  next
    case (tok pre tok rest)
    have IH: "concat (tokens (drop 1 rest) d) = filter (\<lambda>c. c \<notin> set d) (drop 1 rest)"
      using tok(7) by (intro less.hyps) simp
    have "filter (\<lambda>c. c \<notin> set d) pre = []" "filter (\<lambda>c. c \<notin> set d) tok = tok"
      using tok(1,3) by (auto simp: filter_empty_conv filter_id_conv)
    moreover have "filter (\<lambda>c. c \<notin> set d) rest = filter (\<lambda>c. c \<notin> set d) (drop 1 rest)"
      using tok(5) by (cases rest) auto
    ultimately show ?thesis using tok(6) IH unfolding tok(4) by simp
  qed
qed

text \<open>Text split at a delimiter is split into the tokens of both sides.\<close>

lemma tokens_append_delim:
  assumes "c \<in> set d"
  shows "tokens (s @ c # r) d = tokens s d @ tokens r d"
proof (induction "length s" arbitrary: s rule: less_induct)
  case less
  show ?case
  proof (cases s)
    case Nil
    then show ?thesis using assms by (simp add: tokens_Cons_delim)
  next
    case (Cons a s')
    show ?thesis
    proof (cases rule: tokens_scan_cases [of s d])
      case none
      have "tokens (s' @ c # r) d = tokens s' d @ tokens r d" using Cons by (intro less.hyps) simp
      with none Cons show ?thesis by (simp add: tokens_Cons_delim tokens_empty)
    next
      case (tok pre tok rest)
      have skip: "tokens (pre @ u) d = tokens u d" for u
        using tok(1) by (induction pre) (auto simp: tokens_Cons_delim)
      show ?thesis
      proof (cases rest)
        case Nil
        have "tokens (s @ c # r) d = tokens (tok @ c # r) d"
          unfolding tok(4) Nil using skip [of "tok @ c # r"] by simp
        also have "\<dots> = tok # tokens r d" using tok assms by (intro tokens_token) auto
        finally show ?thesis using tok(6) Nil by simp
      next
        case (Cons b rest')
        have "tokens (s @ c # r) d = tokens (tok @ b # rest' @ c # r) d"
          unfolding tok(4) Cons using skip [of "tok @ b # rest' @ c # r"] by simp
        also have "\<dots> = tok # tokens (rest' @ c # r) d"
          using tok Cons by (intro tokens_token) auto
        also have "tokens (rest' @ c # r) d = tokens rest' d @ tokens r d"
          using tok(7) Cons by (intro less.hyps) simp
        finally show ?thesis using tok(6) Cons by simp
      qed
    qed
  qed
qed

section \<open>Case conversion\<close>

text \<open>\<open>toupper\<close> and \<open>tolower\<close> of the C locale: only the ASCII letters change.\<close>

definition toupper :: "char \<Rightarrow> char" where
  "toupper c = (let n = (of_char c :: nat) in if 97 \<le> n \<and> n \<le> 122 then char_of (n - 32) else c)"

definition tolower :: "char \<Rightarrow> char" where
  "tolower c = (let n = (of_char c :: nat) in if 65 \<le> n \<and> n \<le> 90 then char_of (n + 32) else c)"

definition strupper :: "string \<Rightarrow> string" where
  "strupper s = map toupper s"

definition strlower :: "string \<Rightarrow> string" where
  "strlower s = map tolower s"

definition isdigit :: "char \<Rightarrow> bool" where
  "isdigit c \<longleftrightarrow> 48 \<le> (of_char c :: nat) \<and> (of_char c :: nat) \<le> 57"

lemma tolower_idem [simp]: "tolower (tolower c) = tolower c"
proof (cases "65 \<le> (of_char c :: nat) \<and> (of_char c :: nat) \<le> 90")
  case True
  then have "(of_char (char_of (of_char c + 32 :: nat)) :: nat) = of_char c + 32" by simp
  then show ?thesis using True by (simp add: tolower_def Let_def)
next
  case False
  then have "tolower c = c" by (auto simp: tolower_def)
  then show ?thesis by simp
qed

lemma strlower_idem [simp]: "strlower (strlower s) = strlower s"
  by (simp add: strlower_def)

lemma toupper_space: "toupper c = CHR '' '' \<longleftrightarrow> c = CHR '' ''"
proof -
  have inj: "x = CHR '' '' \<longleftrightarrow> (of_char x :: nat) = 32" for x
    using of_char_eq_iff [of x "CHR '' ''", where 'a = nat] by simp
  have "(of_char (toupper c) :: nat) = 32 \<longleftrightarrow> (of_char c :: nat) = 32"
    by (auto simp: toupper_def Let_def)
  then show ?thesis by (simp only: inj)
qed

lemma toupper_idem [simp]: "toupper (toupper c) = toupper c"
proof (cases "97 \<le> (of_char c :: nat) \<and> (of_char c :: nat) \<le> 122")
  case True
  then have "(of_char c :: nat) - 32 < 256" by linarith
  then have "(of_char (char_of (of_char c - 32 :: nat)) :: nat) = of_char c - 32" by simp
  then show ?thesis using True by (auto simp: toupper_def Let_def)
next
  case False
  then have "toupper c = c" by (auto simp: toupper_def)
  then show ?thesis by simp
qed

lemma strupper_idem [simp]: "strupper (strupper s) = strupper s"
  by (simp add: strupper_def)

lemma strupper_empty [simp]: "strupper s = [] \<longleftrightarrow> s = []"
  by (simp add: strupper_def)

section \<open>Numbers and text\<close>

text \<open>
  \<open>t2s\<close> of an unsigned number, and \<open>s2t\<close>: \<open>istringstream >> Dest\<close> skips white space, takes
  a sign and the digits that follow, stores 0 when there is none and the nearest bound when
  the number does not fit; a minus sign before an unsigned number negates it modulo the
  width. On a string with nothing but white space the extraction stores nothing and \<open>Dest\<close>
  keeps the indeterminate value it was declared with.
\<close>

fun t2s :: "nat \<Rightarrow> string" where
  "t2s n = (if n < 10 then [char_of (48 + n)] else t2s (n div 10) @ [char_of (48 + n mod 10)])"

declare t2s.simps [simp del]

definition t2s_int :: "int \<Rightarrow> string" where
  "t2s_int i = (if i < 0 then CHR ''-'' # t2s (nat (- i)) else t2s (nat i))"

definition digit_value :: "char \<Rightarrow> nat" where
  "digit_value c = of_char c - 48"

definition read_digits :: "string \<Rightarrow> nat" where
  "read_digits s = foldl (\<lambda>n c. 10 * n + digit_value c) 0 s"

definition isspace :: "char \<Rightarrow> bool" where
  "isspace c \<longleftrightarrow> c = CHR '' '' \<or> 9 \<le> (of_char c :: nat) \<and> (of_char c :: nat) \<le> 13"

definition split_sign :: "string \<Rightarrow> bool \<times> string" where
  "split_sign s =
     (case s of [] \<Rightarrow> (False, [])
      | c # cs \<Rightarrow> if c = CHR ''-'' then (True, cs) else if c = CHR ''+'' then (False, cs) else (False, s))"

definition s2t_unsigned :: "nat \<Rightarrow> string \<Rightarrow> exn + nat" where
  "s2t_unsigned w str =
     (let t = dropWhile isspace str
      in if t = [] then Inl Indeterminate
         else let (neg, u) = split_sign t;
                  v = read_digits (takeWhile isdigit u)
              in Inr (if v \<ge> 2 ^ w then 2 ^ w - 1
                      else if neg \<and> v \<noteq> 0 then 2 ^ w - v else v))"

definition s2t_signed :: "nat \<Rightarrow> string \<Rightarrow> exn + int" where
  "s2t_signed w str =
     (let t = dropWhile isspace str
      in if t = [] then Inl Indeterminate
         else let (neg, u) = split_sign t;
                  v = int (read_digits (takeWhile isdigit u))
              in Inr (if neg then max (- v) (- (2 ^ (w - 1))) else min v (2 ^ (w - 1) - 1)))"

lemma isdigit_char_of: "d < 10 \<Longrightarrow> isdigit (char_of (48 + d :: nat))"
  by (simp add: isdigit_def)

lemma digit_value_char_of: "d < 10 \<Longrightarrow> digit_value (char_of (48 + d :: nat)) = d"
  by (simp add: digit_value_def)

lemma t2s_digits: "list_all isdigit (t2s n)"
proof (induction n rule: t2s.induct)
  case (1 n)
  then show ?case
    by (cases "n < 10") (simp_all add: t2s.simps [of n] isdigit_char_of)
qed

lemma t2s_nonempty [simp]: "t2s n \<noteq> []"
  by (simp add: t2s.simps [of n])

lemma read_digits_t2s: "read_digits (t2s n) = n"
proof (induction n rule: t2s.induct)
  case (1 n)
  then show ?case
    by (cases "n < 10") (simp_all add: t2s.simps [of n] read_digits_def digit_value_char_of)
qed

lemma isdigit_not:
  assumes "isdigit c"
  shows "\<not> isspace c" "c \<noteq> CHR '' ''" "c \<noteq> CHR ''-''" "c \<noteq> CHR ''+''" "c \<noteq> CHR 0x22" "c \<noteq> CHR 0x01"
  using assms by (auto simp: isdigit_def isspace_def)

lemma t2s_chars: "c \<in> set (t2s n) \<Longrightarrow> isdigit c"
  using t2s_digits by (auto simp: list_all_iff)

lemma t2s_prefix:
  "dropWhile isspace (t2s n) = t2s n" "split_sign (t2s n) = (False, t2s n)"
  "takeWhile isdigit (t2s n) = t2s n"
proof -
  obtain c cs where s: "t2s n = c # cs" by (cases "t2s n") simp_all
  then have "isdigit c" using t2s_chars [of c n] by simp
  then show "dropWhile isspace (t2s n) = t2s n" "split_sign (t2s n) = (False, t2s n)"
    using isdigit_not [of c] by (simp_all add: s split_sign_def)
  show "takeWhile isdigit (t2s n) = t2s n" using t2s_chars by (auto simp: takeWhile_eq_all_conv)
qed

text \<open>A number that fits is read back from its decimal form.\<close>

lemma s2t_unsigned_t2s: "n < 2 ^ w \<Longrightarrow> s2t_unsigned w (t2s n) = Inr n"
  by (simp add: s2t_unsigned_def t2s_prefix read_digits_t2s)

lemma s2t_signed_t2s: "int n < 2 ^ (w - 1) \<Longrightarrow> s2t_signed w (t2s n) = Inr (int n)"
  by (simp add: s2t_signed_def t2s_prefix read_digits_t2s)

lemma s2t_unsigned_bound: "s2t_unsigned w s = Inr n \<Longrightarrow> n < 2 ^ w"
  by (auto simp: s2t_unsigned_def Let_def split: if_splits prod.splits)

lemma s2t_signed_bound: "s2t_signed w s = Inr i \<Longrightarrow> - (2 ^ (w - 1)) \<le> i \<and> i < 2 ^ (w - 1)"
proof -
  assume "s2t_signed w s = Inr i"
  moreover define v where "v = int (read_digits (takeWhile isdigit (snd (split_sign (dropWhile isspace s)))))"
  ultimately have "i = max (- v) (- (2 ^ (w - 1))) \<or> i = min v (2 ^ (w - 1) - 1)"
    by (auto simp: s2t_signed_def Let_def split: if_splits prod.splits)
  moreover have "0 \<le> v" by (simp add: v_def)
  moreover have "(0 :: int) < 2 ^ (w - 1)" by simp
  ultimately show ?thesis by linarith
qed

section \<open>Properties\<close>

text \<open>
  \<open>stringtok\<close>, with its \<open>find_first_of\<close> positions and \<open>npos\<close> cases, is the scan that
  skips delimiters, takes the run of other characters and drops one delimiter after it.
\<close>

lemma stringtok_is_scan: "stringtok s d = scan_token s d"
  by (rule stringtok_scan)

text \<open>
  The tokenizing loop ends on every string, returns non-empty tokens without delimiters
  and loses nothing but delimiters; a text put together with a delimiter tokenizes into the
  tokens of its two parts.
\<close>

lemma tokens_lossless:
  assumes "c \<in> set d"
  shows "concat (tokens s d) = filter (\<lambda>x. x \<notin> set d) s
    \<and> (\<forall>t\<in>set (tokens s d). t \<noteq> [] \<and> set t \<inter> set d = {})
    \<and> tokens (s @ c # r) d = tokens s d @ tokens r d"
  using concat_tokens tokens_sound tokens_append_delim [OF assms] by blast

theorem tokens_lossless_witness:
  "tokens (''  #a,,#b'' @ CHR '','' # ''#c'') '','' = tokens ''  #a,,#b'' '','' @ tokens ''#c'' '',''"
  using tokens_lossless [of "CHR '',''" "'',''" "''  #a,,#b''" "''#c''"] by simp

end
