(* ===== verification/Message.thy ===== *)
theory Message
  imports Util
begin

text \<open>
  \<open>src/src/irc/message.h\<close> and \<open>message.cpp\<close>: the IRC message class, used for the
  traffic with the IRC client and for the commands between the processes of the daemon.
  A message refers to its sender and receiver by pointer or by name; the model is
  parametric in the type of entity pointers, and \<open>format\<close> takes the two virtual methods
  \<open>getName\<close> and \<open>getLongName\<close> as arguments.
\<close>

section \<open>Messages and their operations\<close>

record 'e stored_entity =
  se_entity :: "'e option"
  se_name :: string

record 'e message =
  msg_cmd :: string
  msg_sender :: "'e stored_entity"
  msg_receiver :: "'e stored_entity"
  msg_args :: "string list"

definition no_entity :: "'e stored_entity" where
  "no_entity = \<lparr>se_entity = None, se_name = []\<rparr>"

definition setEntity :: "'e option \<Rightarrow> 'e stored_entity" where
  "setEntity e = \<lparr>se_entity = e, se_name = []\<rparr>"

definition setName :: "string \<Rightarrow> 'e stored_entity" where
  "setName n = \<lparr>se_entity = None, se_name = n\<rparr>"

definition isSet :: "'e stored_entity \<Rightarrow> bool" where
  "isSet se \<longleftrightarrow> se_entity se \<noteq> None \<or> se_name se \<noteq> []"

text \<open>\<open>StoredEntity::getName\<close> and \<open>getLongName\<close>: the entity's virtual method, or the stored text.\<close>

definition stored_name :: "('e \<Rightarrow> string) \<Rightarrow> 'e stored_entity \<Rightarrow> string" where
  "stored_name nm se = (case se_entity se of Some e \<Rightarrow> nm e | None \<Rightarrow> se_name se)"

definition Message :: "string \<Rightarrow> 'e message" where
  "Message command = \<lparr>msg_cmd = command, msg_sender = no_entity, msg_receiver = no_entity, msg_args = []\<rparr>"

definition setSender :: "'e \<Rightarrow> 'e message \<Rightarrow> 'e message" where
  "setSender e m = m\<lparr>msg_sender := setEntity (Some e)\<rparr>"

definition setReceiver :: "'e \<Rightarrow> 'e message \<Rightarrow> 'e message" where
  "setReceiver e m = m\<lparr>msg_receiver := setEntity (Some e)\<rparr>"

definition setSenderName :: "string \<Rightarrow> 'e message \<Rightarrow> 'e message" where
  "setSenderName n m = m\<lparr>msg_sender := setName n\<rparr>"

definition setReceiverName :: "string \<Rightarrow> 'e message \<Rightarrow> 'e message" where
  "setReceiverName n m = m\<lparr>msg_receiver := setName n\<rparr>"

definition setCommand :: "string \<Rightarrow> 'e message \<Rightarrow> exn + 'e message" where
  "setCommand r m = (if r = [] then Inl AssertionFailed else Inr (m\<lparr>msg_cmd := r\<rparr>))"

definition has_space :: "string \<Rightarrow> bool" where
  "has_space s \<longleftrightarrow> CHR '' '' \<in> set s"

definition addArg :: "string \<Rightarrow> 'e message \<Rightarrow> exn + 'e message" where
  "addArg s m =
     (if msg_args m \<noteq> [] \<and> has_space (last (msg_args m)) then Inl MalformedMessage
      else Inr (m\<lparr>msg_args := msg_args m @ [s]\<rparr>))"

text \<open>A chain \<open>.addArg(a).addArg(b)\<close> of calls.\<close>

definition addArgs :: "string list \<Rightarrow> 'e message \<Rightarrow> exn + 'e message" where
  "addArgs xs m = foldE addArg xs m"

definition setArg :: "nat \<Rightarrow> string \<Rightarrow> 'e message \<Rightarrow> exn + 'e message" where
  "setArg i s m =
     (let args = msg_args m
      in if i = length args then addArg s m
         else if \<not> i < length args then Inl AssertionFailed
         else if i + 1 < length args \<and> has_space (last args) then Inl MalformedMessage
         else Inr (m\<lparr>msg_args := args[i := s]\<rparr>))"

definition getArg :: "'e message \<Rightarrow> nat \<Rightarrow> exn + string" where
  "getArg m n = (if n < length (msg_args m) then Inr (msg_args m ! n) else Inl AssertionFailed)"

abbreviation countArgs :: "'e message \<Rightarrow> nat" where
  "countArgs m \<equiv> length (msg_args m)"

section \<open>Printing and parsing\<close>

definition format_arg :: "string \<Rightarrow> string" where
  "format_arg a = '' '' @ (if has_space a \<or> (a \<noteq> [] \<and> hd a = CHR '':'') then '':'' @ a else a)"

definition CRLF :: string where
  "CRLF = [CHR 0x0D, CHR 0x0A]"

definition format :: "('e \<Rightarrow> string) \<Rightarrow> ('e \<Rightarrow> string) \<Rightarrow> 'e message \<Rightarrow> string" where
  "format name longname m =
     (if isSet (msg_sender m) then '':'' @ stored_name longname (msg_sender m) @ '' '' else [])
     @ msg_cmd m
     @ (if isSet (msg_receiver m) then '' '' @ stored_name name (msg_receiver m) else [])
     @ concat (map format_arg (msg_args m))
     @ CRLF"

function parse_loop :: "'e message \<Rightarrow> string \<Rightarrow> exn + 'e message" where
  "parse_loop m line =
     (let (s, rest) = stringtok line '' ''
      in if s = [] then Inr m
         else if msg_cmd m = [] then bindE (setCommand (strupper s) m) (\<lambda>m'. parse_loop m' rest)
         else if hd s = CHR '':'' then addArg (tl s @ (if rest = [] then [] else '' '' @ rest)) m
         else bindE (addArg s m) (\<lambda>m'. parse_loop m' rest))"
  by pat_completeness auto
termination
proof (relation "measure (\<lambda>(m, line). length line)", goal_cases)
  case 1
  then show ?case by simp
next
  case (2 m line x s rest m')
  then show ?case using stringtok_length [of line "'' ''"] by (metis case_prod_conv fst_conv in_measure snd_conv)
next
  case (3 m line x s rest m')
  then show ?case using stringtok_length [of line "'' ''"] by (metis case_prod_conv fst_conv in_measure snd_conv)
qed

declare parse_loop.simps [simp del]

definition parse :: "string \<Rightarrow> exn + 'e message" where
  "parse line = parse_loop (Message []) line"

section \<open>Arguments in double quotes\<close>

text \<open>
  \<open>rebuildWithQuotes\<close> merges the arguments from one that opens a quote to the one that
  closes it. \<open>absorb acc next rest\<close> is its inner loop: \<open>acc\<close> is the argument being built,
  \<open>next\<close> the argument the iterator points at, \<open>rest\<close> what follows; the result says whether
  the iterator reached the end. Reading the last character of an empty argument is an access
  outside the string.
\<close>

fun absorb :: "string \<Rightarrow> string \<Rightarrow> string list \<Rightarrow> exn + (string \<times> string list \<times> bool)" where
  "absorb acc nxt rest =
     (if nxt = [] then Inl OutOfRange
      else if last nxt = CHR 0x22 then Inr (acc, rest, False)
      else case rest of
             [] \<Rightarrow> Inr (acc, [], True)
           | r # rs \<Rightarrow> absorb (acc @ '' '' @ r) r rs)"

declare absorb.simps [simp del]

lemma absorb_length: "absorb acc nxt rest = Inr (acc', rest', e) \<Longrightarrow> length rest' \<le> length rest"
proof (induction rest arbitrary: acc nxt)
  case Nil
  then show ?case by (simp add: absorb.simps [of acc nxt "[]"] split: if_splits)
next
  case (Cons r rs)
  then show ?case by (fastforce simp: absorb.simps [of acc nxt "r # rs"] split: if_splits)
qed

function rebuildWithQuotes :: "string list \<Rightarrow> exn + string list" where
  "rebuildWithQuotes [] = Inr []"
| "rebuildWithQuotes (x # xs) =
     (if x \<noteq> [] \<and> hd x = CHR 0x22 \<and> \<not> has_space x
      then bindE (absorb (tl x) (tl x) xs) (\<lambda>(acc, rest, at_end).
             let acc' = (if last acc = CHR 0x22 then butlast acc else acc)
             in if at_end then Inr [acc']
                else bindE (rebuildWithQuotes rest) (\<lambda>r. Inr (acc' # r)))
      else bindE (rebuildWithQuotes xs) (\<lambda>r. Inr (x # r)))"
  by pat_completeness auto
termination
  by (relation "measure length") (auto dest!: absorb_length)

section \<open>Message construction\<close>

text \<open>The class invariant: only the last argument may contain a space.\<close>

definition args_wf :: "'e message \<Rightarrow> bool" where
  "args_wf m \<longleftrightarrow> (\<forall>a\<in>set (butlast (msg_args m)). \<not> has_space a)"

lemma args_wf_Message [simp]: "args_wf (Message c)"
  by (simp add: args_wf_def Message_def)

lemma args_wf_addArg: "args_wf m \<Longrightarrow> addArg s m = Inr m' \<Longrightarrow> args_wf m'"
proof (cases "msg_args m" rule: rev_cases)
  case Nil
  assume "addArg s m = Inr m'"
  with Nil show "args_wf m'" by (auto simp: addArg_def args_wf_def)
next
  case (snoc ys y)
  assume "args_wf m" "addArg s m = Inr m'"
  with snoc show "args_wf m'" by (auto simp: addArg_def args_wf_def butlast_append split: if_splits)
qed

text \<open>
  A chain of \<open>addArg\<close> calls in closed form: it throws exactly when an argument that is not
  the last one contains a space.
\<close>

lemma addArgs_eq:
  assumes "args_wf m"
  shows "addArgs xs m =
    (if xs \<noteq> [] \<and> (\<exists>a\<in>set (butlast (msg_args m @ xs)). has_space a) then Inl MalformedMessage
     else Inr (m\<lparr>msg_args := msg_args m @ xs\<rparr>))"
  using assms
proof (induction xs arbitrary: m)
  case Nil
  then show ?case by (simp add: addArgs_def)
next
  case (Cons x xs)
  let ?m = "m\<lparr>msg_args := msg_args m @ [x]\<rparr>"
  show ?case
  proof (cases "msg_args m \<noteq> [] \<and> has_space (last (msg_args m))")
    case True
    then have "last (msg_args m) \<in> set (butlast (msg_args m @ x # xs))"
      by (simp add: butlast_append)
    moreover have "addArg x m = Inl MalformedMessage" using True by (simp add: addArg_def)
    ultimately show ?thesis using True by (auto simp: addArgs_def)
  next
    case False
    then have add: "addArg x m = Inr ?m" by (auto simp: addArg_def)
    then have step: "addArgs (x # xs) m = addArgs xs ?m" by (simp add: addArgs_def)
    have wf: "args_wf ?m" using args_wf_addArg [OF Cons.prems add] .
    show ?thesis
    proof (cases xs)
      case Nil
      with step wf show ?thesis by (simp add: addArgs_def args_wf_def)
    next
      case (Cons y ys)
      with step Cons.IH [OF wf] show ?thesis by simp
    qed
  qed
qed

lemma addArgs_Message:
  "addArgs xs (Message c) =
    (if \<exists>a\<in>set (butlast xs). has_space a then Inl MalformedMessage
     else Inr ((Message c)\<lparr>msg_args := xs\<rparr>))"
  by (subst addArgs_eq [OF args_wf_Message]) (auto simp: Message_def)

section \<open>Parsing\<close>

text \<open>
  The messages the wire format can carry: a command in upper case without spaces, plain
  arguments that are non-empty, without spaces and without a leading colon, and a last
  argument that is plain or a trailing text. A trailing text whose only space is its last
  character is not carried: the tokenizer eats that space.
\<close>

definition plain_arg :: "string \<Rightarrow> bool" where
  "plain_arg a \<longleftrightarrow> a \<noteq> [] \<and> \<not> has_space a \<and> hd a \<noteq> CHR '':''"

definition trailing_ok :: "string \<Rightarrow> bool" where
  "trailing_ok a \<longleftrightarrow> a \<noteq> [] \<and> (last a = CHR '' '' \<longrightarrow> has_space (butlast a))"

definition printable :: "'e message \<Rightarrow> bool" where
  "printable m \<longleftrightarrow>
     msg_cmd m \<noteq> [] \<and> \<not> has_space (msg_cmd m) \<and> strupper (msg_cmd m) = msg_cmd m
     \<and> (\<forall>a\<in>set (butlast (msg_args m)). plain_arg a)
     \<and> (msg_args m \<noteq> [] \<longrightarrow> trailing_ok (last (msg_args m)))"

lemma plain_arg_trailing: "plain_arg a \<Longrightarrow> trailing_ok a"
  by (auto simp: plain_arg_def trailing_ok_def has_space_def last_neq_notin)

abbreviation anonymous :: "'e message \<Rightarrow> bool" where
  "anonymous m \<equiv> msg_sender m = no_entity \<and> msg_receiver m = no_entity"

lemma has_space_iff: "\<not> has_space a \<longleftrightarrow> set a \<inter> set '' '' = {}"
  by (simp add: has_space_def)

lemma parse_loop_skip_space: "parse_loop m (CHR '' '' # l) = parse_loop m l"
  by (simp add: parse_loop.simps [of m "CHR '' '' # l"] parse_loop.simps [of m l] stringtok_Cons_delim)

lemma parse_loop_Nil [simp]: "parse_loop m [] = Inr m"
  using stringtok_empty_iff [of "[]" "'' ''"]
  by (simp add: parse_loop.simps case_prod_beta)

lemma parse_loop_plain:
  assumes "plain_arg a" and "msg_cmd m \<noteq> []" and "\<forall>x\<in>set (msg_args m). \<not> has_space x"
  shows "parse_loop m (a @ CHR '' '' # l) = parse_loop (m\<lparr>msg_args := msg_args m @ [a]\<rparr>) l"
    and "parse_loop m a = Inr (m\<lparr>msg_args := msg_args m @ [a]\<rparr>)"
proof -
  have a: "a \<noteq> []" "set a \<inter> set '' '' = {}" "hd a \<noteq> CHR '':''"
    using assms(1) by (auto simp: plain_arg_def has_space_def)
  have add: "addArg a m = Inr (m\<lparr>msg_args := msg_args m @ [a]\<rparr>)"
    using assms(3) by (auto simp: addArg_def)
  have "CHR '' '' \<in> set '' ''" by simp
  note st = stringtok_token [OF a(1,2) this]
  show "parse_loop m (a @ CHR '' '' # l) = parse_loop (m\<lparr>msg_args := msg_args m @ [a]\<rparr>) l"
    using a assms(2) by (subst parse_loop.simps) (simp add: st add)
  show "parse_loop m a = Inr (m\<lparr>msg_args := msg_args m @ [a]\<rparr>)"
    using a assms(2) by (subst parse_loop.simps) (simp add: st add)
qed

lemma parse_loop_trailing:
  assumes "trailing_ok a" and "msg_cmd m \<noteq> []" and "\<forall>x\<in>set (msg_args m). \<not> has_space x"
  shows "parse_loop m (CHR '':'' # a) = Inr (m\<lparr>msg_args := msg_args m @ [a]\<rparr>)"
proof -
  have add: "addArg b m = Inr (m\<lparr>msg_args := msg_args m @ [b]\<rparr>)" for b
    using assms(3) by (auto simp: addArg_def)
  show ?thesis
  proof (cases "has_space a")
    case False
    have st: "stringtok (CHR '':'' # a) '' '' = (CHR '':'' # a, [])"
      using False by (intro stringtok_token(2) [where c = "CHR '' ''"]) (auto simp: has_space_def)
    then show ?thesis using assms(2) by (subst parse_loop.simps) (simp add: add)
  next
    case True
    then obtain w r where a: "a = w @ CHR '' '' # r" and w: "\<not> has_space w"
      by (metis has_space_def split_list_first)
    have st: "stringtok (CHR '':'' # w @ CHR '' '' # r) '' '' = (CHR '':'' # w, r)"
      using w stringtok_token(1) [of "CHR '':'' # w" "'' ''" "CHR '' ''" r] by (simp add: has_space_def)
    have "r \<noteq> []" using assms(1) w by (auto simp: trailing_ok_def a)
    then show ?thesis using assms(2) by (subst parse_loop.simps) (simp add: st add a)
  qed
qed

lemma parse_loop_format_last:
  assumes "trailing_ok a" and "msg_cmd m \<noteq> []" and "\<forall>x\<in>set (msg_args m). \<not> has_space x"
  shows "parse_loop m (tl (format_arg a)) = Inr (m\<lparr>msg_args := msg_args m @ [a]\<rparr>)"
proof (cases "plain_arg a")
  case True
  then have "tl (format_arg a) = a" by (auto simp: format_arg_def plain_arg_def)
  with parse_loop_plain(2) [OF True assms(2,3)] show ?thesis by simp
next
  case False
  with assms(1) have "tl (format_arg a) = CHR '':'' # a"
    by (auto simp: format_arg_def plain_arg_def trailing_ok_def)
  with parse_loop_trailing [OF assms] show ?thesis by simp
qed

lemma format_arg_Cons: "format_arg a = CHR '' '' # tl (format_arg a)"
  by (simp add: format_arg_def)

lemma parse_loop_format_args:
  assumes "msg_cmd m \<noteq> []" and "\<forall>x\<in>set (msg_args m). \<not> has_space x"
    and "\<forall>a\<in>set (butlast xs). plain_arg a" and "xs \<noteq> []" and "trailing_ok (last xs)"
  shows "parse_loop m (tl (concat (map format_arg xs))) = Inr (m\<lparr>msg_args := msg_args m @ xs\<rparr>)"
  using assms
proof (induction xs arbitrary: m)
  case Nil
  then show ?case by simp
next
  case (Cons a xs)
  show ?case
  proof (cases xs)
    case Nil
    with Cons.prems parse_loop_format_last [of a m] show ?thesis by simp
  next
    case (Cons b ys)
    let ?m = "m\<lparr>msg_args := msg_args m @ [a]\<rparr>"
    let ?r = "concat (map format_arg xs)"
    have a: "plain_arg a" using Cons.prems Cons by simp
    then have fa: "tl (format_arg a) = a" by (auto simp: format_arg_def plain_arg_def)
    have r: "?r = CHR '' '' # tl ?r" using Cons by (simp add: format_arg_def)
    have "tl (concat (map format_arg (a # xs))) = a @ CHR '' '' # tl ?r"
      using fa r format_arg_Cons [of a] by (metis append_Cons concat.simps(2) list.sel(3) list.simps(9))
    then have "parse_loop m (tl (concat (map format_arg (a # xs)))) = parse_loop ?m (tl ?r)"
      using parse_loop_plain(1) [OF a] Cons.prems(1,2) by simp
    also have "\<dots> = Inr (?m\<lparr>msg_args := msg_args ?m @ xs\<rparr>)"
      using Cons.prems Cons a by (intro Cons.IH) (auto simp: plain_arg_def)
    finally show ?thesis by simp
  qed
qed

lemma format_anonymous:
  "anonymous m \<Longrightarrow> format nm lnm m = msg_cmd m @ concat (map format_arg (msg_args m)) @ CRLF"
  by (simp add: format_def isSet_def no_entity_def)

text \<open>What is printed is read back as the same message.\<close>

lemma parse_format:
  fixes m :: "'e message"
  assumes "printable m" and "anonymous m"
  shows "\<exists>line. format nm lnm m = line @ CRLF \<and> parse line = Inr m"
proof (intro exI conjI)
  let ?c = "msg_cmd m" and ?args = "msg_args m"
  let ?line = "?c @ concat (map format_arg ?args)"
  show "format nm lnm m = ?line @ CRLF" using assms(2) by (simp add: format_anonymous)
  have c: "?c \<noteq> []" "set ?c \<inter> set '' '' = {}" "strupper ?c = ?c"
    using assms(1) by (auto simp: printable_def has_space_def)
  let ?m0 = "(Message [] :: 'e message)\<lparr>msg_cmd := ?c\<rparr>"
  have m: "m = ?m0\<lparr>msg_args := ?args\<rparr>" using assms(2) by (simp add: Message_def)
  have st: "stringtok (?c @ CHR '' '' # l) '' '' = (?c, l)" "stringtok ?c '' '' = (?c, [])" for l
    using stringtok_token [OF c(1,2)] by simp_all
  show "parse ?line = Inr m"
  proof (cases "?args = []")
    case True
    have "parse ?c = Inr ?m0"
      using c by (subst parse_def, subst parse_loop.simps) (simp add: st setCommand_def Message_def)
    moreover have "?m0 = m" using True assms(2) by (simp add: Message_def)
    ultimately show ?thesis using True by simp
  next
    case False
    let ?r = "concat (map format_arg ?args)"
    have r: "?r = CHR '' '' # tl ?r" using False by (cases ?args) (simp_all add: format_arg_def)
    have "parse (?c @ CHR '' '' # tl ?r) = parse_loop ?m0 (tl ?r)"
      using c by (subst parse_def, subst parse_loop.simps) (simp add: st setCommand_def Message_def)
    also have "\<dots> = Inr (?m0\<lparr>msg_args := msg_args ?m0 @ ?args\<rparr>)"
      using assms(1) False c by (intro parse_loop_format_args) (auto simp: printable_def Message_def)
    also have "\<dots> = Inr m" using m by (simp add: Message_def)
    finally show ?thesis using r by simp
  qed
qed

text \<open>
  Parsing never throws, whatever the line, and what it returns is in the printable form but
  for a line without a command or with an empty trailing text.
\<close>

lemma has_space_strupper: "has_space (strupper s) \<longleftrightarrow> has_space s"
proof -
  have "CHR '' '' \<in> toupper ` set s \<longleftrightarrow> CHR '' '' \<in> set s"
  proof
    assume "CHR '' '' \<in> toupper ` set s"
    then obtain c where "c \<in> set s" "toupper c = CHR '' ''" by force
    then show "CHR '' '' \<in> set s" using toupper_space [of c] by simp
  next
    assume "CHR '' '' \<in> set s"
    then have "toupper (CHR '' '') \<in> toupper ` set s" by (rule imageI)
    then show "CHR '' '' \<in> toupper ` set s" using toupper_space [of "CHR '' ''"] by simp
  qed
  then show ?thesis by (simp add: has_space_def strupper_def)
qed

lemma parse_loop_shape:
  assumes "anonymous m" and "\<forall>a\<in>set (msg_args m). plain_arg a"
    and "msg_cmd m = [] \<longrightarrow> msg_args m = []"
    and "\<not> has_space (msg_cmd m)" and "strupper (msg_cmd m) = msg_cmd m"
  shows "\<exists>m'. parse_loop m line = Inr m' \<and> anonymous m' \<and> args_wf m' \<and>
    (msg_cmd m' \<noteq> [] \<and> (msg_args m' = [] \<or> last (msg_args m') \<noteq> []) \<longrightarrow> printable m')"
  using assms
proof (induction "length line" arbitrary: m line rule: less_induct)
  case less
  note inv = less.prems
  obtain s rest where st: "stringtok line '' '' = (s, rest)" by (cases "stringtok line '' ''")
  have sp: "\<not> has_space s" using stringtok_no_delim [of _ line "'' ''"] st by (auto simp: has_space_def)
  have len: "s \<noteq> [] \<Longrightarrow> length rest < length line" using stringtok_length [of line "'' ''"] st by simp
  have nosp: "\<forall>a\<in>set (msg_args m). \<not> has_space a" using inv(2) by (auto simp: plain_arg_def)
  have add: "addArg b m = Inr (m\<lparr>msg_args := msg_args m @ [b]\<rparr>)" for b
    using nosp by (auto simp: addArg_def)
  consider (stop) "s = []" | (cmd) "s \<noteq> []" "msg_cmd m = []"
    | (trail) "s \<noteq> []" "msg_cmd m \<noteq> []" "hd s = CHR '':''"
    | (arg) "s \<noteq> []" "msg_cmd m \<noteq> []" "hd s \<noteq> CHR '':''" by blast
  then show ?case
  proof cases
    case stop
    have "args_wf m" using nosp by (auto simp: args_wf_def dest: in_set_butlastD)
    moreover have "msg_cmd m \<noteq> [] \<longrightarrow> printable m"
      using inv by (auto simp: printable_def plain_arg_trailing dest: in_set_butlastD)
    ultimately show ?thesis using stop inv by (simp add: parse_loop.simps [of m line] st)
  next
    case cmd
    let ?m = "m\<lparr>msg_cmd := strupper s\<rparr>"
    have "parse_loop m line = parse_loop ?m rest"
      using cmd by (simp add: parse_loop.simps [of m line] st setCommand_def)
    moreover have "\<exists>m'. parse_loop ?m rest = Inr m' \<and> anonymous m' \<and> args_wf m' \<and>
        (msg_cmd m' \<noteq> [] \<and> (msg_args m' = [] \<or> last (msg_args m') \<noteq> []) \<longrightarrow> printable m')"
      using cmd inv sp by (intro less.hyps) (auto simp: len has_space_strupper)
    ultimately show ?thesis by simp
  next
    case trail
    let ?a = "tl s @ (if rest = [] then [] else '' '' @ rest)"
    let ?m = "m\<lparr>msg_args := msg_args m @ [?a]\<rparr>"
    have "parse_loop m line = Inr ?m" using trail by (simp add: parse_loop.simps [of m line] st add)
    moreover have "args_wf ?m" using nosp by (simp add: args_wf_def)
    moreover have "?a \<noteq> [] \<longrightarrow> trailing_ok ?a"
      using sp trail(1) by (cases s; cases rest rule: rev_cases)
        (auto simp: trailing_ok_def has_space_def butlast_append last_neq_notin)
    then have "?a \<noteq> [] \<longrightarrow> printable ?m" using inv trail(2) by (simp add: printable_def)
    ultimately show ?thesis using inv(1) by auto
  next
    case arg
    let ?m = "m\<lparr>msg_args := msg_args m @ [s]\<rparr>"
    have "parse_loop m line = parse_loop ?m rest"
      using arg by (simp add: parse_loop.simps [of m line] st add)
    moreover have "\<exists>m'. parse_loop ?m rest = Inr m' \<and> anonymous m' \<and> args_wf m' \<and>
        (msg_cmd m' \<noteq> [] \<and> (msg_args m' = [] \<or> last (msg_args m') \<noteq> []) \<longrightarrow> printable m')"
      using arg inv sp by (intro less.hyps) (auto simp: len plain_arg_def)
    ultimately show ?thesis by simp
  qed
qed

lemma parse_shape:
  "\<exists>m. parse line = Inr m \<and> anonymous m \<and> args_wf m \<and>
    (msg_cmd m \<noteq> [] \<and> (msg_args m = [] \<or> last (msg_args m) \<noteq> []) \<longrightarrow> printable m)"
  unfolding parse_def
  by (rule parse_loop_shape) (auto simp: Message_def has_space_def strupper_def)

section \<open>Quoted arguments\<close>

text \<open>An argument list without a leading double quote anywhere is left alone.\<close>

lemma rebuildWithQuotes_id:
  "\<forall>a\<in>set xs. a = [] \<or> hd a \<noteq> CHR 0x22 \<Longrightarrow> rebuildWithQuotes xs = Inr xs"
  by (induction xs) auto

text \<open>
  The words of a quoted text, \<open>absorb\<close>ed one after the other: the loop stops at the word that
  carries the closing quote and leaves what follows.
\<close>

definition quote_free :: "string \<Rightarrow> bool" where
  "quote_free w \<longleftrightarrow> w \<noteq> [] \<and> CHR 0x22 \<notin> set w"

lemma absorb_words:
  assumes "quote_free nxt" and "\<forall>w\<in>set ws. quote_free w" and "CHR 0x22 \<notin> set z"
  shows "absorb acc nxt (ws @ (z @ [CHR 0x22]) # rest) =
    Inr (acc @ concat (map (\<lambda>w. '' '' @ w) ws) @ '' '' @ z @ [CHR 0x22], rest, False)"
  using assms
proof (induction ws arbitrary: acc nxt)
  case Nil
  then have "last nxt \<noteq> CHR 0x22" "nxt \<noteq> []"
    by (auto simp: quote_free_def last_neq_notin)
  then show ?case
    by (simp add: absorb.simps [of acc nxt] absorb.simps [of "acc @ '' '' @ z @ [CHR 0x22]"]
        absorb.simps [of _ "z @ [CHR 0x22]" rest])
next
  case (Cons w ws)
  then have "last nxt \<noteq> CHR 0x22" "nxt \<noteq> []"
    by (auto simp: quote_free_def last_neq_notin)
  then have "absorb acc nxt ((w # ws) @ (z @ [CHR 0x22]) # rest) =
      absorb (acc @ '' '' @ w) w (ws @ (z @ [CHR 0x22]) # rest)"
    by (simp add: absorb.simps [of acc nxt])
  also have "\<dots> = Inr ((acc @ '' '' @ w) @ concat (map (\<lambda>w. '' '' @ w) ws) @ '' '' @ z @ [CHR 0x22], rest, False)"
    using Cons.prems by (intro Cons.IH) auto
  finally show ?case by simp
qed

section \<open>Properties\<close>

text \<open>
  C5: a printable message without sender and receiver is read back from its own wire form:
  \<open>format\<close> ends the line with CR LF, and \<open>parse\<close> of the line gives the message.
\<close>

theorem message_roundtrip:
  assumes "printable m" and "anonymous m"
  shows "\<exists>line. format nm lnm m = line @ CRLF \<and> parse line = Inr m"
  using parse_format [OF assms] .

theorem message_roundtrip_witness:
  "\<exists>line. format (\<lambda>_. []) (\<lambda>_. []) ((Message ''PRIVMSG'' :: nat message)\<lparr>msg_args := [''#minbif'', ''hello  world'']\<rparr>) = line @ CRLF
    \<and> parse line = Inr ((Message ''PRIVMSG'' :: nat message)\<lparr>msg_args := [''#minbif'', ''hello  world'']\<rparr>)"
  by (rule message_roundtrip)
    (simp_all add: Message_def printable_def plain_arg_def trailing_ok_def has_space_def strupper_def toupper_def no_entity_def)



text \<open>
  A chain of \<open>addArg\<close> calls on a new message throws \<open>MalformedMessage\<close> exactly when an
  argument before the last one contains a space, and otherwise stores the arguments in order.
\<close>

lemma addArg_chain:
  "addArgs xs (Message c) =
    (if \<exists>a\<in>set (butlast xs). has_space a then Inl MalformedMessage
     else Inr ((Message c)\<lparr>msg_args := xs\<rparr>))"
  by (rule addArgs_Message)

end
