(* ===== verification/Dcc.thy ===== *)
theory Dcc
  imports Message
begin

text \<open>
  \<open>src/src/irc/dcc.h\<close> and \<open>dcc.cpp\<close>: file transfers with the IRC client. The objects are
  records, the peers are nick pointers (numbers), the system calls are arguments of the
  operations: what \<open>accept\<close>, \<open>read\<close> or \<open>fread\<close> return, the watcher that
  \<open>purple_input_add\<close> registers, the clock. Bytes handed to \<open>send\<close> and \<open>fwrite\<close> are
  collected in the record.
\<close>

section \<open>Objects\<close>

type_synonym peer = nat

datatype server_class = DccSend | DccChat

record dcc_server =
  srv_class :: server_class
  srv_type :: string
  srv_filename :: string
  total_size :: nat
  start_time :: int
  dcc_sender :: "peer option"
  dcc_receiver :: "peer option"
  listen_data :: bool
  srv_watcher :: nat
  srv_fd :: int
  srv_port :: nat
  srv_finished :: bool
  send_ft :: "nat option"
  send_fp :: bool
  bytes_sent :: nat
  rxqueue :: string
  wire :: string

record dcc_get =
  get_from :: "peer option"
  get_filename :: string
  get_callback :: bool
  get_finished :: bool
  get_sock :: int
  get_watcher :: nat
  get_fp :: bool
  bytes_received :: int
  get_total_size :: int
  get_file :: string
  get_acks :: "int list"
  get_runs :: nat

datatype dcc = Server dcc_server | Get dcc_get

datatype read_result = ReadAgain | ReadClosed | ReadData string

definition TIMEOUT :: int where
  "TIMEOUT = 5 * 60"

section \<open>The listening side: \<open>DCCServer\<close>, \<open>DCCSend\<close> and \<open>DCCChat\<close>\<close>

text \<open>\<open>listens\<close> is whether \<open>purple_network_listen_range\<close> could listen; if not, \<open>DCCListenError\<close>.\<close>

definition DCCServer :: "server_class \<Rightarrow> string \<Rightarrow> string \<Rightarrow> nat \<Rightarrow> peer option \<Rightarrow> peer option \<Rightarrow> nat option
    \<Rightarrow> int \<Rightarrow> bool \<Rightarrow> dcc_server option" where
  "DCCServer cls type filename sz sender receiver ft now listens =
     (if listens then Some \<lparr>srv_class = cls, srv_type = type, srv_filename = filename, total_size = sz,
        start_time = now, dcc_sender = sender, dcc_receiver = receiver, listen_data = True,
        srv_watcher = 0, srv_fd = -1, srv_port = 0, srv_finished = False, send_ft = ft,
        send_fp = False, bytes_sent = 0, rxqueue = [], wire = []\<rparr>
      else None)"

definition DCCSend :: "string \<Rightarrow> nat \<Rightarrow> nat \<Rightarrow> peer option \<Rightarrow> peer option \<Rightarrow> int \<Rightarrow> bool \<Rightarrow> dcc_server option" where
  "DCCSend filename sz ft sender receiver now listens =
     DCCServer DccSend ''SEND'' filename sz sender receiver (Some ft) now listens"

definition DCCChat :: "peer option \<Rightarrow> peer option \<Rightarrow> int \<Rightarrow> bool \<Rightarrow> dcc_server option" where
  "DCCChat sender receiver now listens =
     DCCServer DccChat ''CHAT'' ''CHAT'' 0 sender receiver None now listens"

definition server_deinit :: "dcc_server \<Rightarrow> dcc_server" where
  "server_deinit d = d\<lparr>srv_finished := True, srv_fd := -1, srv_watcher := 0, listen_data := False\<rparr>"

text \<open>The virtual \<open>deinit\<close>: \<open>DCCSend\<close> also closes the file and frees the queue.\<close>

definition deinit :: "dcc_server \<Rightarrow> dcc_server" where
  "deinit d = (case srv_class d of
       DccSend \<Rightarrow> (server_deinit d)\<lparr>send_fp := False, rxqueue := []\<rparr>
     | DccChat \<Rightarrow> server_deinit d)"

text \<open>The offer written to the IRC client.\<close>

definition dcc_request :: "string \<Rightarrow> string \<Rightarrow> nat \<Rightarrow> nat \<Rightarrow> nat \<Rightarrow> string" where
  "dcc_request type filename ip port sz =
     [CHR 0x01] @ ''DCC '' @ type @ '' '' @ [CHR 0x22] @ filename @ [CHR 0x22] @ '' ''
     @ t2s ip @ '' '' @ t2s port @ (if sz \<noteq> 0 then '' '' @ t2s sz else []) @ [CHR 0x01]"

text \<open>
  \<open>listen_cb\<close>: the socket is ready. \<open>aton\<close> is \<open>ntohl\<close> of what \<open>inet_aton\<close> reads, \<open>own_ip\<close>
  the configured address, \<open>my_ip\<close> the one libpurple reports. The result is the new object and
  the text of the offer, if one is sent.
\<close>

definition listen_cb :: "(string \<Rightarrow> nat option) \<Rightarrow> string \<Rightarrow> string \<Rightarrow> int \<Rightarrow> nat \<Rightarrow> nat \<Rightarrow> dcc_server
    \<Rightarrow> dcc_server \<times> string option" where
  "listen_cb aton own_ip my_ip sock port watch d =
     (let bind_addr = (if own_ip = '' '' then my_ip else own_ip);
          d1 = d\<lparr>srv_fd := sock, listen_data := False, srv_port := port\<rparr>
      in case aton bind_addr of
           None \<Rightarrow> (deinit d1, None)
         | Some addr \<Rightarrow>
             (d1\<lparr>srv_watcher := watch\<rparr>,
              Some (dcc_request (srv_type d) (srv_filename d) addr port (total_size d))))"

text \<open>
  \<open>dcc_send\<close>: hand the next 512 bytes of the file to the connection. \<open>content\<close> is what
  \<open>fopen\<close> and \<open>fread\<close> see of the file libpurple is writing, \<open>None\<close> while it cannot be opened.
\<close>

definition dcc_send :: "string option \<Rightarrow> dcc_server \<Rightarrow> dcc_server" where
  "dcc_send content d =
     (if srv_finished d \<or> listen_data d \<or> srv_fd d < 0 then d
      else case content of
             None \<Rightarrow> d
           | Some file \<Rightarrow>
               (let buf = take 512 (drop (bytes_sent d) file)
                in d\<lparr>send_fp := True, wire := wire d @ buf, bytes_sent := bytes_sent d + length buf\<rparr>))"

definition updated :: "bool \<Rightarrow> int \<Rightarrow> string option \<Rightarrow> dcc_server \<Rightarrow> dcc_server" where
  "updated destroy now content d =
     (case srv_class d of
        DccSend \<Rightarrow>
          (let d1 = (if destroy then d\<lparr>send_ft := None\<rparr> else d)
           in if (srv_fd d1 < 0 \<or> listen_data d1) \<and> start_time d1 + TIMEOUT < now
              then deinit d1 else dcc_send content d1)
      | DccChat \<Rightarrow>
          (if (srv_fd d < 0 \<or> listen_data d) \<and> start_time d + TIMEOUT < now
           then deinit d else d))"

text \<open>\<open>connected\<close>: \<open>conn\<close> is what \<open>accept\<close> returned, \<open>watch\<close> the new watcher.\<close>

definition connected :: "int \<Rightarrow> nat \<Rightarrow> int \<Rightarrow> string option \<Rightarrow> dcc_server \<Rightarrow> dcc_server" where
  "connected conn watch now content d =
     (if conn = 0 then deinit d
      else updated False now content (d\<lparr>srv_fd := conn, srv_watcher := watch\<rparr>))"

text \<open>\<open>ntohl\<close> of the first four bytes of the queue.\<close>

definition ack_value :: "string \<Rightarrow> nat" where
  "ack_value q = foldl (\<lambda>n c. 256 * n + of_char c) 0 (take 4 q)"

text \<open>The loop over the acknowledgements; the flag says that the transfer was terminated.\<close>

function ack_loop :: "nat \<Rightarrow> string \<Rightarrow> string \<times> bool" where
  "ack_loop tot q =
     (if length q < 4 then (q, False)
      else if ack_value q \<ge> tot then (drop 4 q, True)
      else ack_loop tot (drop 4 q))"
  by pat_completeness auto
termination
  by (relation "measure (\<lambda>(tot, q). length q)") auto

declare ack_loop.simps [simp del]

definition dcc_read :: "read_result \<Rightarrow> string option \<Rightarrow> dcc_server \<Rightarrow> dcc_server" where
  "dcc_read r content d =
     (case srv_class d of
        DccChat \<Rightarrow> d
      | DccSend \<Rightarrow>
         (case r of
            ReadAgain \<Rightarrow> d
          | ReadClosed \<Rightarrow> deinit (d\<lparr>srv_fd := -1\<rparr>)
          | ReadData bytes \<Rightarrow>
              (let (q, terminated) = ack_loop (total_size d) (rxqueue d @ bytes);
                   d1 = d\<lparr>rxqueue := q\<rparr>
               in if terminated then deinit d1 else dcc_send content d1)))"

section \<open>Receiving a file: \<open>DCCGet\<close>\<close>

text \<open>\<open>opens\<close>: the local file could be created; \<open>sock\<close>: the connected socket, or \<open>None\<close>.\<close>

definition DCCGet :: "peer \<Rightarrow> string \<Rightarrow> int \<Rightarrow> bool \<Rightarrow> int option \<Rightarrow> nat \<Rightarrow> dcc_get option" where
  "DCCGet from filename sz opens sock watch =
     (if \<not> opens then None
      else case sock of
             None \<Rightarrow> None
           | Some fd \<Rightarrow> Some \<lparr>get_from = Some from, get_filename = filename, get_callback = True,
               get_finished = False, get_sock = fd, get_watcher = watch, get_fp = True,
               bytes_received = 0, get_total_size = sz, get_file = [], get_acks = [], get_runs = 0\<rparr>)"

definition get_deinit :: "dcc_get \<Rightarrow> dcc_get" where
  "get_deinit d = d\<lparr>get_finished := True, get_sock := -1, get_watcher := 0, get_fp := False,
     get_callback := False\<rparr>"

text \<open>\<open>written\<close> is the number of bytes \<open>fwrite\<close> could write.\<close>

definition get_read :: "read_result \<Rightarrow> nat \<Rightarrow> dcc_get \<Rightarrow> dcc_get" where
  "get_read r written d =
     (case r of
        ReadAgain \<Rightarrow> d
      | ReadClosed \<Rightarrow> get_deinit (d\<lparr>get_sock := -1\<rparr>)
      | ReadData bytes \<Rightarrow>
          (if written < length bytes then get_deinit (d\<lparr>get_file := get_file d @ take written bytes\<rparr>)
           else let d1 = d\<lparr>get_file := get_file d @ bytes, bytes_received := bytes_received d + int (length bytes)\<rparr>
                in if bytes_received d1 \<ge> get_total_size d1
                   then get_deinit (d1\<lparr>get_acks := get_acks d1 @ [bytes_received d1],
                          get_runs := get_runs d1 + (if get_callback d1 then 1 else 0)\<rparr>)
                   else d1))"

definition get_setPeer :: "peer option \<Rightarrow> dcc_get \<Rightarrow> dcc_get" where
  "get_setPeer n d =
     (let d1 = d\<lparr>get_from := n\<rparr> in case n of Some _ \<Rightarrow> d1 | None \<Rightarrow> get_deinit d1)"

section \<open>The virtual interface of \<open>DCC\<close>\<close>

definition isFinished :: "dcc \<Rightarrow> bool" where
  "isFinished x = (case x of Server d \<Rightarrow> srv_finished d | Get d \<Rightarrow> get_finished d)"

definition getPeer :: "dcc \<Rightarrow> peer option" where
  "getPeer x = (case x of Server d \<Rightarrow> dcc_sender d | Get d \<Rightarrow> get_from d)"

definition setPeer :: "peer option \<Rightarrow> dcc \<Rightarrow> dcc" where
  "setPeer n x = (case x of Server d \<Rightarrow> Server (d\<lparr>dcc_sender := n\<rparr>) | Get d \<Rightarrow> Get (get_setPeer n d))"

definition getFileTransfert :: "dcc \<Rightarrow> nat option" where
  "getFileTransfert x = (case x of Server d \<Rightarrow> (case srv_class d of DccSend \<Rightarrow> send_ft d | DccChat \<Rightarrow> None)
     | Get d \<Rightarrow> None)"

section \<open>Reading an offer\<close>

text \<open>
  \<open>parseDCCSEND\<close>: the words of the text between the two \<open>\001\<close> characters, the quoted ones
  joined, must be \<open>DCC SEND\<close> and four more.
\<close>

definition parseDCCSEND :: "string \<Rightarrow> exn + (string \<times> nat \<times> nat \<times> int) option" where
  "parseDCCSEND line =
     (if line = [] \<or> hd line \<noteq> CHR 0x01 \<or> last line \<noteq> CHR 0x01 then Inr None
      else bindE (addArgs (tokens (butlast (tl line)) '' '') (Message [] :: nat message)) (\<lambda>m.
           bindE (rebuildWithQuotes (msg_args m)) (\<lambda>args.
             if length args = 6 \<and> args ! 0 = ''DCC'' \<and> args ! 1 = ''SEND''
             then bindE (s2t_unsigned 32 (args ! 3)) (\<lambda>addr.
                  bindE (s2t_unsigned 16 (args ! 4)) (\<lambda>port.
                  bindE (s2t_signed 64 (args ! 5)) (\<lambda>sz.
                    Inr (Some (args ! 2, addr, port, sz)))))
             else Inr None)))"

section \<open>Correctness\<close>

lemmas dcc_defs = deinit_def server_deinit_def dcc_send_def updated_def get_deinit_def

text \<open>The acknowledgements of a byte stream: its complete groups of four bytes.\<close>

fun acks :: "string \<Rightarrow> nat list" where
  "acks (a # b # c # e # q) = ack_value [a, b, c, e] # acks q"
| "acks q = []"

lemma ack_value_take: "ack_value q = ack_value (take 4 q)"
  by (simp add: ack_value_def)

lemma acks_unfold: "acks q = (if length q < 4 then [] else ack_value q # acks (drop 4 q))"
  by (induction q rule: acks.induct) (auto simp: ack_value_def)

lemma ack_loop_terminated_iff: "snd (ack_loop tot q) \<longleftrightarrow> (\<exists>a\<in>set (acks q). a \<ge> tot)"
proof (induction tot q rule: ack_loop.induct)
  case (1 tot q)
  then show ?case
    by (cases "length q < 4") (auto simp: ack_loop.simps [of tot q] acks_unfold [of q])
qed

text \<open>Reading the stream in two pieces is reading it at once: the left-over bytes are kept.\<close>

lemma ack_loop_append:
  assumes "ack_loop tot p = (q, False)"
  shows "ack_loop tot (p @ r) = ack_loop tot (q @ r)"
  using assms
proof (induction tot p rule: ack_loop.induct)
  case (1 tot p)
  show ?case
  proof (cases "length p < 4")
    case True
    with 1(2) show ?thesis by (simp add: ack_loop.simps [of tot p])
  next
    case False
    then have low: "\<not> tot \<le> ack_value p" and rec: "ack_loop tot (drop 4 p) = (q, False)"
      using 1(2) by (auto simp: ack_loop.simps [of tot p] split: if_splits)
    have "ack_value (p @ r) = ack_value p" using False by (simp add: ack_value_def)
    then have "ack_loop tot (p @ r) = ack_loop tot (drop 4 p @ r)"
      using False low by (simp add: ack_loop.simps [of tot "p @ r"])
    also have "\<dots> = ack_loop tot (q @ r)" using 1(1) [OF False low rec] .
    finally show ?thesis .
  qed
qed

definition send_open :: "dcc_server \<Rightarrow> bool" where
  "send_open d \<longleftrightarrow> srv_class d = DccSend \<and> \<not> srv_finished d \<and> length (rxqueue d) < 4"

lemma ack_loop_rest: "ack_loop tot q = (q', False) \<Longrightarrow> length q' < 4"
proof (induction tot q rule: ack_loop.induct)
  case (1 tot q)
  then show ?case by (cases "length q < 4") (auto simp: ack_loop.simps [of tot q] split: if_splits)
qed

lemma dcc_send_frame [simp]:
  "srv_class (dcc_send c d) = srv_class d" "srv_finished (dcc_send c d) = srv_finished d"
  "rxqueue (dcc_send c d) = rxqueue d" "total_size (dcc_send c d) = total_size d"
  by (simp_all add: dcc_send_def Let_def split: option.split)

lemma dcc_read_data:
  assumes "send_open d" and "ack_loop (total_size d) (rxqueue d @ bytes) = (q, t)"
  shows "srv_finished (dcc_read (ReadData bytes) c d) = t"
    and "\<not> t \<Longrightarrow> send_open (dcc_read (ReadData bytes) c d)"
    and "\<not> t \<Longrightarrow> rxqueue (dcc_read (ReadData bytes) c d) = q"
    and "total_size (dcc_read (ReadData bytes) c d) = total_size d"
  using assms ack_loop_rest [of "total_size d" "rxqueue d @ bytes" q]
  by (auto simp: dcc_read_def send_open_def deinit_def server_deinit_def Let_def)

lemma finished_reads_stay:
  assumes "srv_finished d"
  shows "srv_finished (foldl (\<lambda>d (b, c). dcc_read (ReadData b) c d) d reads)"
  using assms
proof (induction reads arbitrary: d)
  case Nil
  then show ?case by simp
next
  case (Cons x reads)
  obtain b c where x: "x = (b, c)" by (cases x)
  have "srv_finished (dcc_read (ReadData b) c d)"
    using Cons.prems by (auto simp: dcc_read_def deinit_def server_deinit_def Let_def split: server_class.split prod.split)
  then show ?case using Cons.IH x by simp
qed

lemma reads_framing:
  assumes "send_open d"
  shows "srv_finished (foldl (\<lambda>d (b, c). dcc_read (ReadData b) c d) d reads)
    \<longleftrightarrow> snd (ack_loop (total_size d) (rxqueue d @ concat (map fst reads)))"
  using assms
proof (induction reads arbitrary: d)
  case Nil
  then have "ack_loop (total_size d) (rxqueue d) = (rxqueue d, False)"
    by (simp add: send_open_def ack_loop.simps)
  with Nil show ?case by (simp add: send_open_def)
next
  case (Cons x reads)
  obtain b c where x: "x = (b, c)" by (cases x)
  obtain q t where a: "ack_loop (total_size d) (rxqueue d @ b) = (q, t)" by fastforce
  note step = dcc_read_data [OF Cons.prems a, of c]
  show ?case
  proof (cases t)
    case True
    have "\<exists>a\<in>set (acks (rxqueue d @ b)). a \<ge> total_size d"
      using a True ack_loop_terminated_iff [of "total_size d" "rxqueue d @ b"] by simp
    moreover have "set (acks p) \<subseteq> set (acks (p @ r))" for p r
      by (induction p rule: acks.induct) auto
    ultimately have "snd (ack_loop (total_size d) ((rxqueue d @ b) @ concat (map fst reads)))"
      using ack_loop_terminated_iff by blast
    moreover have "srv_finished (foldl (\<lambda>d (b, c). dcc_read (ReadData b) c d) (dcc_read (ReadData b) c d) reads)"
      using True step(1) by (intro finished_reads_stay) simp
    ultimately show ?thesis by (simp add: x)
  next
    case False
    then have "ack_loop (total_size d) ((rxqueue d @ b) @ concat (map fst reads)) =
        ack_loop (total_size d) (q @ concat (map fst reads))"
      using a by (intro ack_loop_append) simp
    with Cons.IH [OF step(2) [OF False]] step False show ?thesis by (simp add: x)
  qed
qed

text \<open>The words of a file name, as the offer writes them and the parser reads them.\<close>

definition join_words :: "string list \<Rightarrow> string" where
  "join_words ws = concat (map (\<lambda>w. '' '' @ w) ws)"

definition file_word :: "string \<Rightarrow> bool" where
  "file_word w \<longleftrightarrow> quote_free w \<and> \<not> has_space w"

lemma tokens_words:
  assumes "\<forall>w\<in>set (a # ws). w \<noteq> [] \<and> \<not> has_space w"
  shows "tokens (a @ join_words ws) '' '' = a # ws"
  using assms
proof (induction ws arbitrary: a)
  case Nil
  then have "set a \<inter> set '' '' = {}" "a \<noteq> []" by (auto simp: has_space_def)
  then show ?case using tokens_token(2) [of a "'' ''" "CHR '' ''"] by (simp add: join_words_def)
next
  case (Cons b ws)
  then have "set a \<inter> set '' '' = {}" "a \<noteq> []" by (auto simp: has_space_def)
  then have "tokens (a @ CHR '' '' # (b @ join_words ws)) '' '' = a # tokens (b @ join_words ws) '' ''"
    by (intro tokens_token) auto
  with Cons show ?case by (simp add: join_words_def)
qed

lemma join_words_simps: "join_words (w # ws) = '' '' @ w @ join_words ws" "join_words [] = []"
  "join_words (us @ ws) = join_words us @ join_words ws"
  by (simp_all add: join_words_def)

text \<open>The words of a file name between double quotes.\<close>

fun close_quote :: "string \<Rightarrow> string list \<Rightarrow> string list" where
  "close_quote w [] = [w @ [CHR 0x22]]"
| "close_quote w (v # vs) = w # close_quote v vs"

lemma close_quote_snoc: "close_quote w (vs @ [v]) = w # vs @ [v @ [CHR 0x22]]"
  by (induction vs arbitrary: w) auto

lemma join_close_quote: "join_words (close_quote w ws) = '' '' @ w @ join_words ws @ [CHR 0x22]"
  by (induction ws arbitrary: w) (simp_all add: join_words_simps)

lemma close_quote_words:
  assumes "w \<noteq> [] \<and> \<not> has_space w" and "\<forall>v\<in>set ws. file_word v"
  shows "\<forall>v\<in>set (close_quote w ws). v \<noteq> [] \<and> \<not> has_space v"
  using assms
proof (induction ws arbitrary: w)
  case Nil
  then show ?case by (simp add: has_space_def)
next
  case (Cons v vs)
  have "\<forall>u\<in>set (close_quote v vs). u \<noteq> [] \<and> \<not> has_space u"
    using Cons.prems by (intro Cons.IH) (auto simp: file_word_def quote_free_def)
  with Cons.prems show ?case by simp
qed

lemma rebuild_close_quote:
  assumes "file_word w" and "\<forall>v\<in>set ws. file_word v" and "\<forall>a\<in>set rest. hd a \<noteq> CHR 0x22"
  shows "rebuildWithQuotes (close_quote (CHR 0x22 # w) ws @ rest) = Inr ((w @ join_words ws) # rest)"
proof -
  have rest: "rebuildWithQuotes rest = Inr rest" using assms(3) by (intro rebuildWithQuotes_id) auto
  have w: "w \<noteq> []" "CHR 0x22 \<notin> set w" "\<not> has_space w"
    using assms(1) by (auto simp: file_word_def quote_free_def)
  show ?thesis
  proof (cases ws rule: rev_cases)
    case Nil
    have "absorb (w @ [CHR 0x22]) (w @ [CHR 0x22]) rest = Inr (w @ [CHR 0x22], rest, False)"
      by (simp add: absorb.simps [of _ "w @ [CHR 0x22]"])
    with Nil w rest show ?thesis by (simp add: has_space_def join_words_simps Let_def)
  next
    case (snoc us z)
    have "absorb w w (us @ (z @ [CHR 0x22]) # rest) =
        Inr (w @ concat (map (\<lambda>w. '' '' @ w) us) @ '' '' @ z @ [CHR 0x22], rest, False)"
      using assms snoc by (intro absorb_words) (auto simp: file_word_def quote_free_def)
    with snoc w rest show ?thesis
      by (simp add: close_quote_snoc has_space_def join_words_def Let_def butlast_append)
  qed
qed

lemma t2s_word: "\<not> has_space (t2s n)" "hd (t2s n) \<noteq> CHR 0x22"
proof -
  show "\<not> has_space (t2s n)" using t2s_chars [of "CHR '' ''" n] by (auto simp: has_space_def isdigit_def)
  have "isdigit (hd (t2s n))" using t2s_chars [of "hd (t2s n)" n] by simp
  then show "hd (t2s n) \<noteq> CHR 0x22" by (auto simp: isdigit_def)
qed

lemma dcc_request_words:
  assumes "sz \<noteq> 0"
  shows "dcc_request ''SEND'' (w @ join_words ws) ip port sz =
    [CHR 0x01] @ (''DCC'' @ join_words (''SEND'' # close_quote (CHR 0x22 # w) ws @ [t2s ip, t2s port, t2s sz])) @ [CHR 0x01]"
  using assms by (simp add: dcc_request_def join_words_simps join_close_quote)



section \<open>Completion\<close>

text \<open>
  The sender of a file finishes at the reads that complete an acknowledgement of at least
  the file's size, however the kernel cuts the byte stream of 4-byte acknowledgements into reads.
\<close>

lemma dcc_reads_framing:
  assumes "send_open d" and "rxqueue d = []"
  shows "srv_finished (foldl (\<lambda>d (b, c). dcc_read (ReadData b) c d) d reads)
    \<longleftrightarrow> (\<exists>a\<in>set (acks (concat (map fst reads))). a \<ge> total_size d)"
  using reads_framing [OF assms(1), of reads] assms(2) by (simp add: ack_loop_terminated_iff)

theorem dcc_reads_framing_witness:
  "\<exists>d. DCCSend ''f'' 258 7 (Some 1) None 0 True = Some d \<and>
     srv_finished (foldl (\<lambda>d (b, c). dcc_read (ReadData b) c d) d
       [([CHR 0x00, CHR 0x00], None), ([CHR 0x00, CHR 0x05, CHR 0x00, CHR 0x00, CHR 0x01], None), ([CHR 0x02], None)])"
proof -
  obtain d where d: "DCCSend ''f'' 258 7 (Some 1) None 0 True = Some d" by (simp add: DCCSend_def DCCServer_def)
  then have "send_open d" "rxqueue d = []" "total_size d = 258"
    by (auto simp: DCCSend_def DCCServer_def send_open_def)
  with d dcc_reads_framing [of d "[([CHR 0x00, CHR 0x00], None),
      ([CHR 0x00, CHR 0x05, CHR 0x00, CHR 0x00, CHR 0x01], None), ([CHR 0x02], None)]"]
  show ?thesis by (simp add: ack_value_def)
qed

text \<open>Reading chunks that the disk takes whole.\<close>

definition get_feed :: "dcc_get \<Rightarrow> string list \<Rightarrow> dcc_get" where
  "get_feed = foldl (\<lambda>d b. get_read (ReadData b) (length b) d)"

lemma get_feed_partial:
  assumes "bytes_received d + int (length (concat bs)) < get_total_size d"
  shows "get_feed d bs = d\<lparr>get_file := get_file d @ concat bs,
    bytes_received := bytes_received d + int (length (concat bs))\<rparr>"
  using assms
proof (induction bs arbitrary: d)
  case Nil
  then show ?case by (simp add: get_feed_def)
next
  case (Cons b bs)
  let ?d = "d\<lparr>get_file := get_file d @ b, bytes_received := bytes_received d + int (length b)\<rparr>"
  have "get_read (ReadData b) (length b) d = ?d" using Cons.prems by (simp add: get_read_def Let_def)
  then have "get_feed d (b # bs) = get_feed ?d bs" by (simp add: get_feed_def)
  with Cons.IH [of ?d] Cons.prems show ?case by (simp add: algebra_simps)
qed

text \<open>
  A file received in chunks is stored whole and in order; the callback that hands it to
  libpurple runs once, at the chunk that completes the announced size and not before, one
  acknowledgement is sent then, and the transfer is over.
\<close>

lemma dcc_get_completes:
  assumes "DCCGet from filename sz True (Some fd) w = Some d"
    and "int (length (concat bs)) < sz" and "sz \<le> int (length (concat bs @ b))"
  shows "get_runs (get_feed d bs) = 0 \<and> \<not> get_finished (get_feed d bs)
    \<and> (let d' = get_feed d (bs @ [b]) in
        get_file d' = concat bs @ b \<and> get_runs d' = 1 \<and> get_finished d' \<and> \<not> get_callback d'
        \<and> get_acks d' = [int (length (concat bs @ b))])"
proof -
  let ?d = "d\<lparr>get_file := concat bs, bytes_received := int (length (concat bs))\<rparr>"
  have d: "get_file d = []" "bytes_received d = 0" "get_total_size d = sz" "get_runs d = 0"
      "get_acks d = []" "get_callback d" "\<not> get_finished d"
    using assms(1) by (auto simp: DCCGet_def)
  have feed: "get_feed d bs = ?d" using get_feed_partial [of d bs] d assms(2) by simp
  moreover have "get_feed d (bs @ [b]) = get_read (ReadData b) (length b) (get_feed d bs)"
    by (simp add: get_feed_def)
  ultimately show ?thesis using d assms(3) by (simp add: get_read_def get_deinit_def Let_def)
qed

theorem dcc_get_completes_witness:
  "\<exists>d. DCCGet 4 ''f'' 5 True (Some 9) 1 = Some d \<and> get_file (get_feed d [''abc'', ''de'']) = ''abcde''
     \<and> get_runs (get_feed d [''abc'', ''de'']) = 1"
proof -
  obtain d where d: "DCCGet 4 ''f'' 5 True (Some 9) 1 = Some d" by (simp add: DCCGet_def)
  from dcc_get_completes [OF this, of "[''abc'']" "''de''"] d show ?thesis by (simp add: Let_def)
qed

end
