(* ===== verification/Nickname.thy ===== *)
theory Nickname
  imports Util
begin

text \<open>
  The static parts of \<open>src/src/irc/nick.cpp\<close> and \<open>nick.h\<close>: which nicknames are valid,
  how the name of a contact becomes a nickname (\<open>nickize\<close>), and the normalisation of ident
  and host names. The transliteration to ASCII that \<open>nickize\<close> asks of iconv is a parameter:
  it may fail (\<open>None\<close>), and then the name is used as it is.
\<close>

section \<open>Nicknames\<close>

definition nick_lc_chars :: string where
  "nick_lc_chars = ''0123456789abcdefghijklmnopqrstuvwxyz{}^`-_|''"

definition nick_uc_chars :: string where
  "nick_uc_chars = ''0123456789ABCDEFGHIJKLMNOPQRSTUVWXYZ[]~`-_'' @ [CHR 0x5C]"

definition MAX_LENGTH :: nat where
  "MAX_LENGTH = 29"

text \<open>\<open>strchr(s, c)\<close> also finds the terminating NUL of \<open>s\<close>.\<close>

definition strchr :: "string \<Rightarrow> char \<Rightarrow> bool" where
  "strchr s c \<longleftrightarrow> c \<in> set s \<or> c = CHR 0x00"

definition nick_char :: "char \<Rightarrow> bool" where
  "nick_char c \<longleftrightarrow> strchr nick_lc_chars c \<or> strchr nick_uc_chars c"

definition isValidNickname :: "string \<Rightarrow> bool" where
  "isValidNickname nick \<longleftrightarrow>
     \<not> (nick = [] \<or> isdigit (hd nick) \<or> length nick > MAX_LENGTH) \<and> list_all nick_char nick"

text \<open>The loop of \<open>nickize\<close> over a C string, which ends at the first NUL.\<close>

fun nickize_loop :: "string \<Rightarrow> string" where
  "nickize_loop [] = []"
| "nickize_loop (c # cs) =
     (if c = CHR 0x00 then []
      else if c = CHR '' '' then CHR ''_'' # nickize_loop cs
      else if nick_char c then c # nickize_loop cs
      else nickize_loop cs)"

definition nickize :: "(string \<Rightarrow> string option) \<Rightarrow> string \<Rightarrow> string" where
  "nickize translit n =
     (let nick0 = nickize_loop (case translit n of Some conv \<Rightarrow> conv | None \<Rightarrow> n);
          nick1 = (if nick0 \<noteq> [] \<and> isdigit (hd nick0) then CHR ''_'' # nick0 else nick0);
          nick2 = (if length nick1 > MAX_LENGTH then take MAX_LENGTH nick1 else nick1)
      in if nick2 = [] then ''Invalid'' else nick2)"

text \<open>\<open>setIdentname\<close> and \<open>setHostname\<close> replace the spaces.\<close>

definition ident_chars :: "string \<Rightarrow> string" where
  "ident_chars n = map (\<lambda>c. if c = CHR '' '' then CHR ''_'' else c) n"

definition host_chars :: "string \<Rightarrow> string" where
  "host_chars n = map (\<lambda>c. if c = CHR '' '' then CHR ''.'' else c) n"

section \<open>What \<open>nickize\<close> returns\<close>

lemma nick_char_underscore [simp]: "nick_char (CHR ''_'')" and
  isdigit_underscore [simp]: "\<not> isdigit (CHR ''_'')"
  by (simp_all add: nick_char_def strchr_def nick_lc_chars_def isdigit_def)

lemma not_nick_char:
  "\<not> nick_char (CHR '' '')" "\<not> nick_char (CHR '':'')" "\<not> nick_char (CHR '','')" "\<not> nick_char (CHR ''!'')"
  "\<not> nick_char (CHR ''@'')" "\<not> nick_char (CHR ''#'')" "\<not> nick_char (CHR ''&'')" "\<not> nick_char (CHR ''*'')"
  by (simp_all add: nick_char_def strchr_def nick_lc_chars_def nick_uc_chars_def)

lemma nickize_loop_chars: "list_all nick_char (nickize_loop s)"
  by (induction s) auto

lemma nickize_chars: "list_all nick_char (nickize tr n)"
proof -
  have "list_all nick_char ''Invalid''"
    by (simp add: nick_char_def strchr_def nick_lc_chars_def nick_uc_chars_def)
  moreover have "list_all nick_char (take k s)" if "list_all nick_char s" for k s
    using that by (auto simp: list_all_iff dest: in_set_takeD)
  ultimately show ?thesis
    using nickize_loop_chars by (auto simp: nickize_def Let_def)
qed

text \<open>Whatever the contact is called, and whatever iconv does with it, the nickname is valid.\<close>

lemma nickize_valid: "isValidNickname (nickize tr n)"
proof -
  define nick0 where "nick0 = nickize_loop (case tr n of Some conv \<Rightarrow> conv | None \<Rightarrow> n)"
  define nick1 where "nick1 = (if nick0 \<noteq> [] \<and> isdigit (hd nick0) then CHR ''_'' # nick0 else nick0)"
  define nick2 where "nick2 = (if length nick1 > MAX_LENGTH then take MAX_LENGTH nick1 else nick1)"
  have eq: "nickize tr n = (if nick2 = [] then ''Invalid'' else nick2)"
    by (simp add: nickize_def nick0_def nick1_def nick2_def Let_def)
  have "nick1 \<noteq> [] \<Longrightarrow> \<not> isdigit (hd nick1)" by (auto simp: nick1_def)
  moreover have "nick2 = take MAX_LENGTH nick1" by (simp add: nick2_def)
  ultimately have "nick2 \<noteq> [] \<Longrightarrow> \<not> isdigit (hd nick2) \<and> length nick2 \<le> MAX_LENGTH"
    by (cases nick1) (auto simp: MAX_LENGTH_def)
  then show ?thesis
    using nickize_chars [of tr n] by (auto simp: isValidNickname_def eq isdigit_def MAX_LENGTH_def)
qed

text \<open>A valid nickname comes back unchanged from \<open>nickize\<close> when the transliteration keeps it.\<close>

lemma nickize_loop_id: "list_all nick_char s \<Longrightarrow> CHR 0x00 \<notin> set s \<Longrightarrow> nickize_loop s = s"
  by (induction s) (auto simp: not_nick_char)

lemma nickize_id:
  assumes "isValidNickname n" and "CHR 0x00 \<notin> set n" and "tr n = None \<or> tr n = Some n"
  shows "nickize tr n = n"
proof -
  from assms have "nickize_loop (case tr n of Some conv \<Rightarrow> conv | None \<Rightarrow> n) = n"
    by (auto simp: isValidNickname_def nickize_loop_id)
  with assms(1) show ?thesis by (auto simp: nickize_def Let_def isValidNickname_def)
qed

lemma isValidNickname_chars: "isValidNickname n \<Longrightarrow> \<not> nick_char c \<Longrightarrow> c \<notin> set n"
  by (auto simp: isValidNickname_def list_all_iff)

text \<open>
  C10: whatever a contact is called and whatever the transliteration makes of it, \<open>nickize\<close>
  returns a valid nickname: non-empty, at most \<open>MAX_LENGTH\<close> characters, no leading digit, and
  so without any character the IRC protocol gives a meaning to.
\<close>

theorem nickize_is_valid:
  "isValidNickname (nickize tr n) \<and> length (nickize tr n) \<le> MAX_LENGTH
    \<and> set (nickize tr n) \<inter> set '' :,!@#&*'' = {}"
proof -
  note v = nickize_valid [of tr n]
  have "c \<notin> set (nickize tr n)" if "c \<in> set '' :,!@#&*''" for c
    using that not_nick_char isValidNickname_chars [OF v] by auto
  then have "set (nickize tr n) \<inter> set '' :,!@#&*'' = {}" by blast
  with v show ?thesis by (simp add: isValidNickname_def)
qed

end
