(* ===== verification/Net_State.thy ===== *)
theory Net_State
  imports Dcc Nickname
begin

text \<open>
  The objects of a session and how they refer to each other: \<open>src/src/irc/nick.h\<close>,
  \<open>channel.h\<close>, \<open>server.h\<close>, \<open>conv_entity.h\<close> and the members of \<open>irc.h\<close>. Pointers are
  numbers into the heaps of the record \<open>net\<close>; reading a number that is not allocated is the
  result \<open>Inl Dangling\<close>, so use after delete is visible. Deleting an object removes it from
  its heap.

  libpurple is the record \<open>world\<close> of functions, an argument of the operations that ask it
  something; the calls the program makes into it are appended to \<open>im_calls\<close>, and what it calls
  back is an operation of its own. \<open>out\<close> is what was written to the client's socket.

  This theory also holds the one virtual method everything else depends on, \<open>send\<close>, in its
  part that does not depend on the message being a \<open>PRIVMSG\<close> (\<open>deliver\<close>).
\<close>

section \<open>Objects\<close>

type_synonym nid = nat
type_synonym cid = nat
type_synonym uid = nat
type_synonym sid = nat

text \<open>Pointers of libpurple: conversations, buddies, chat buddies and accounts.\<close>

type_synonym im_conv = nat
type_synonym im_buddy = nat
type_synonym im_cbuddy = nat
type_synonym im_account = nat

datatype entity = ENick nid | EChan cid | ECUser uid | EServer sid

type_synonym irc_msg = "entity message"

datatype nick_class =
    CNick
  | CUser
  | CBuddy im_buddy
  | CChatBuddy im_cbuddy
  | CUnknownBuddy
  | CBuddyIcon

record nick =
  nk_name :: string
  nk_ident :: string
  nk_host :: string
  nk_real :: string
  nk_away :: string
  nk_server :: sid
  nk_flags :: "32 word"
  nk_channels :: "uid list"
  nk_class :: nick_class
  nk_conv :: "im_conv option"
  nk_queue :: "string list"
  nk_public :: bool
  nk_public_last :: int

text \<open>\<open>cu_name\<close> is the name stored in the base class \<open>Entity\<close>, the nickname at construction.\<close>

record chanuser =
  cu_name :: string
  cu_nick :: nid
  cu_chan :: cid
  cu_status :: "32 word"

datatype chan_class = StatusChan | ConvChan

record channel =
  ch_name :: string
  ch_users :: "uid list"
  ch_topic :: string
  ch_class :: chan_class
  ch_accounts :: "im_account list"
  ch_conv :: im_conv
  ch_queue :: "string list"
  ch_cbuddies :: "(im_cbuddy, uid) smap"
  ch_upserver :: "sid option"

text \<open>\<open>sv_account\<close> is the account of a \<open>RemoteServer\<close>, \<open>None\<close> for the \<open>IRC\<close> object.\<close>

record server =
  sv_name :: string
  sv_info :: string
  sv_users :: "nid list"
  sv_account :: "im_account option"

text \<open>The states of a user.\<close>

definition REGISTERED :: "32 word" where "REGISTERED = push_bit 0 1"
definition PING :: "32 word" where "PING = push_bit 1 1"
definition OPER :: "32 word" where "OPER = push_bit 2 1"

text \<open>What the program asks of libpurple and of the instant-messaging layer.\<close>

datatype im_call =
    SendMessage im_conv string
  | Present im_conv
  | Leave im_conv
  | Invite im_conv string string
  | SetChatTopic im_conv string
  | DoCommand im_conv string
  | SetAlias im_buddy string bool
  | RemoveBuddy im_account im_buddy
  | AddBuddy im_account string string
  | RetrieveInfo im_buddy
  | SetAccountStatus im_account string
  | Deny im_account string
  | Allow im_account string
  | JoinChat im_account string "(string \<times> string) list"
  | InitiateChat im_buddy
  | DisplayRoomList im_account
  | SetStatus string
  | Connect im_account
  | Disconnect im_account
  | RestoreStatuses
  | SetStatusPrim im_account nat string
  | LoadPlugin string
  | UnloadPlugin string
  | CallCommand im_account string
  | DelAccount im_account
  | RegisterAccount im_account
  | WantRejoin im_conv
  | ServJoinChat im_account im_conv
  | RequestAddBuddy im_account string "string option"

text \<open>The result of a command that libpurple runs in a conversation.\<close>

datatype cmd_status = CmdOk | CmdFailed | CmdNotFound | CmdWrongArgs | CmdWrongPrpl | CmdWrongType

datatype timer = FlushTimer entity | JoinCheck string

record net =
  nicks :: "nid \<rightharpoonup> nick"
  chans :: "cid \<rightharpoonup> channel"
  cusers :: "uid \<rightharpoonup> chanuser"
  servs :: "sid \<rightharpoonup> server"
  next_id :: nat
  reg_users :: "(string, nid) smap"
  reg_chans :: "(string, cid) smap"
  reg_servers :: "(string, sid) smap"
  dccs :: "dcc list"
  user_id :: nid
  irc_id :: sid
  sock_open :: bool
  out :: "string list"
  conv_ui :: "im_conv \<rightharpoonup> nid"
  conv_chan :: "im_conv \<rightharpoonup> cid"
  buddy_ui :: "im_buddy \<rightharpoonup> nid"
  im_calls :: "im_call list"
  timers :: "timer list"

text \<open>
  What the program reads from its environment: the clock, the \<open>PURPLE_CBFLAGS\<close> constants,
  \<open>fnmatch\<close>, iconv, settings and the properties of libpurple's objects.
\<close>

record world =
  w_now :: int
  w_voice :: "32 word"
  w_halfop :: "32 word"
  w_op :: "32 word"
  w_founder :: "32 word"
  w_fnmatch :: "string \<Rightarrow> string \<Rightarrow> bool"
  w_translit :: "string \<Rightarrow> string option"
  w_ft_enabled :: bool
  w_send_delay :: int
  w_voiced_buddies :: bool
  w_accept_unknown :: bool
  w_user_path :: string
  w_icon_path :: string
  w_opendir :: "string \<Rightarrow> bool"
  w_mkdir :: "string \<Rightarrow> bool"
  w_stat :: "string \<Rightarrow> bool option"
  w_dirname :: "string \<Rightarrow> string"
  w_access :: "string \<Rightarrow> bool"
  w_fopen :: "string \<Rightarrow> bool"
  w_watch :: nat
  w_dcc_connect :: "nat \<Rightarrow> nat \<Rightarrow> int option"
  w_conv_new :: "im_account \<Rightarrow> string \<Rightarrow> im_conv"
  w_conv_name :: "im_conv \<Rightarrow> string"
  w_conv_account :: "im_conv \<Rightarrow> im_account"
  w_conv_topic :: "im_conv \<Rightarrow> string"
  w_conv_nick :: "im_conv \<Rightarrow> string"
  w_set_topic_ok :: "im_conv \<Rightarrow> bool"
  w_command :: "im_conv \<Rightarrow> string \<Rightarrow> cmd_status"
  w_buddy_name :: "im_buddy \<Rightarrow> string"
  w_buddy_alias :: "im_buddy \<Rightarrow> string"
  w_buddy_realname :: "im_buddy \<Rightarrow> string"
  w_buddy_group :: "im_buddy \<Rightarrow> string"
  w_buddy_account :: "im_buddy \<Rightarrow> im_account"
  w_buddy_online :: "im_buddy \<Rightarrow> bool"
  w_buddy_available :: "im_buddy \<Rightarrow> bool"
  w_buddy_status :: "im_buddy \<Rightarrow> string"
  w_cb_name :: "im_cbuddy \<Rightarrow> string"
  w_cb_realname :: "im_cbuddy \<Rightarrow> string"
  w_cb_status :: "im_cbuddy \<Rightarrow> 32 word"
  w_cb_conv :: "im_cbuddy \<Rightarrow> im_conv"
  w_acc_id :: "im_account \<Rightarrow> string"
  w_acc_servername :: "im_account \<Rightarrow> string"
  w_acc_status_channel :: "im_account \<Rightarrow> string"
  w_acc_deny_list :: "im_account \<Rightarrow> string list"
  w_acc_deny_ok :: "im_account \<Rightarrow> string \<Rightarrow> bool"
  w_acc_allow_ok :: "im_account \<Rightarrow> string \<Rightarrow> bool"

section \<open>Reading and writing the heaps\<close>

definition nick_of :: "net \<Rightarrow> nid \<Rightarrow> exn + nick" where
  "nick_of s n = (case nicks s n of Some x \<Rightarrow> Inr x | None \<Rightarrow> Inl Dangling)"

definition chan_of :: "net \<Rightarrow> cid \<Rightarrow> exn + channel" where
  "chan_of s c = (case chans s c of Some x \<Rightarrow> Inr x | None \<Rightarrow> Inl Dangling)"

definition cuser_of :: "net \<Rightarrow> uid \<Rightarrow> exn + chanuser" where
  "cuser_of s u = (case cusers s u of Some x \<Rightarrow> Inr x | None \<Rightarrow> Inl Dangling)"

definition serv_of :: "net \<Rightarrow> sid \<Rightarrow> exn + server" where
  "serv_of s i = (case servs s i of Some x \<Rightarrow> Inr x | None \<Rightarrow> Inl Dangling)"

definition upd_nick :: "nid \<Rightarrow> (nick \<Rightarrow> nick) \<Rightarrow> net \<Rightarrow> net" where
  "upd_nick n f s = s\<lparr>nicks := (nicks s)(n := map_option f (nicks s n))\<rparr>"

definition upd_chan :: "cid \<Rightarrow> (channel \<Rightarrow> channel) \<Rightarrow> net \<Rightarrow> net" where
  "upd_chan c f s = s\<lparr>chans := (chans s)(c := map_option f (chans s c))\<rparr>"

definition upd_cuser :: "uid \<Rightarrow> (chanuser \<Rightarrow> chanuser) \<Rightarrow> net \<Rightarrow> net" where
  "upd_cuser u f s = s\<lparr>cusers := (cusers s)(u := map_option f (cusers s u))\<rparr>"

definition upd_serv :: "sid \<Rightarrow> (server \<Rightarrow> server) \<Rightarrow> net \<Rightarrow> net" where
  "upd_serv i f s = s\<lparr>servs := (servs s)(i := map_option f (servs s i))\<rparr>"

definition im_do :: "im_call \<Rightarrow> net \<Rightarrow> net" where
  "im_do a s = s\<lparr>im_calls := im_calls s @ [a]\<rparr>"

text \<open>\<open>setFlag\<close>, \<open>delFlag\<close> and \<open>hasFlag\<close> of a nick.\<close>

definition setFlag :: "32 word \<Rightarrow> nick \<Rightarrow> nick" where
  "setFlag f nk = nk\<lparr>nk_flags := nk_flags nk OR f\<rparr>"

definition delFlag :: "32 word \<Rightarrow> nick \<Rightarrow> nick" where
  "delFlag f nk = nk\<lparr>nk_flags := nk_flags nk AND NOT f\<rparr>"

definition hasFlag :: "32 word \<Rightarrow> nick \<Rightarrow> bool" where
  "hasFlag f nk \<longleftrightarrow> nk_flags nk AND f \<noteq> 0"

section \<open>Names\<close>

definition nick_longname :: "nick \<Rightarrow> string" where
  "nick_longname nk = nk_name nk @ ''!'' @ nk_ident nk @ ''@'' @ nk_host nk"

definition ent_live :: "net \<Rightarrow> entity \<Rightarrow> bool" where
  "ent_live s e = (case e of
       ENick n \<Rightarrow> nicks s n \<noteq> None
     | EChan c \<Rightarrow> chans s c \<noteq> None
     | ECUser u \<Rightarrow> (case cusers s u of Some cu \<Rightarrow> nicks s (cu_nick cu) \<noteq> None | None \<Rightarrow> False)
     | EServer i \<Rightarrow> servs s i \<noteq> None)"

text \<open>\<open>Entity::getName\<close> is not virtual: a channel user answers with the name it was built with.\<close>

definition ent_name :: "net \<Rightarrow> entity \<Rightarrow> string" where
  "ent_name s e = (case e of
       ENick n \<Rightarrow> (case nicks s n of Some nk \<Rightarrow> nk_name nk | None \<Rightarrow> [])
     | EChan c \<Rightarrow> (case chans s c of Some ch \<Rightarrow> ch_name ch | None \<Rightarrow> [])
     | ECUser u \<Rightarrow> (case cusers s u of Some cu \<Rightarrow> cu_name cu | None \<Rightarrow> [])
     | EServer i \<Rightarrow> (case servs s i of Some sv \<Rightarrow> sv_name sv | None \<Rightarrow> []))"

definition ent_longname :: "net \<Rightarrow> entity \<Rightarrow> string" where
  "ent_longname s e = (case e of
       ENick n \<Rightarrow> (case nicks s n of Some nk \<Rightarrow> nick_longname nk | None \<Rightarrow> [])
     | ECUser u \<Rightarrow> (case cusers s u of
           Some cu \<Rightarrow> (case nicks s (cu_nick cu) of Some nk \<Rightarrow> nick_longname nk | None \<Rightarrow> [])
         | None \<Rightarrow> [])
     | _ \<Rightarrow> ent_name s e)"

definition stored_live :: "net \<Rightarrow> entity stored_entity \<Rightarrow> bool" where
  "stored_live s se = (case se_entity se of Some e \<Rightarrow> ent_live s e | None \<Rightarrow> True)"

definition msg_live :: "net \<Rightarrow> irc_msg \<Rightarrow> bool" where
  "msg_live s m \<longleftrightarrow> stored_live s (msg_sender m) \<and> stored_live s (msg_receiver m)"

section \<open>Building and delivering messages\<close>

text \<open>\<open>Message(cmd).setSender(a).setReceiver(b).addArg(x)...\<close>\<close>

definition mk_msg :: "string \<Rightarrow> entity option \<Rightarrow> entity option \<Rightarrow> string list \<Rightarrow> exn + irc_msg" where
  "mk_msg cmd a b xs =
     bindE (addArgs xs (Message cmd)) (\<lambda>m.
       Inr (m\<lparr>msg_sender := setEntity a, msg_receiver := setEntity b\<rparr>))"

text \<open>
  \<open>User::send\<close> writes the formatted message unless the socket was closed; the \<open>send\<close> of every
  other nick ignores what is not a \<open>PRIVMSG\<close>. Formatting reads the sender and the receiver.
\<close>

definition User_send :: "irc_msg \<Rightarrow> net \<Rightarrow> exn + net" where
  "User_send m s =
     (if \<not> sock_open s then Inr s
      else if msg_live s m then Inr (s\<lparr>out := out s @ [format (ent_name s) (ent_longname s) m]\<rparr>)
      else Inl Dangling)"

definition deliver :: "nid \<Rightarrow> irc_msg \<Rightarrow> net \<Rightarrow> exn + net" where
  "deliver n m s =
     bindE (nick_of s n) (\<lambda>nk. if nk_class nk = CUser then User_send m s else Inr s)"

text \<open>\<open>user->send(Message(code).setSender(this).setReceiver(user).addArg...)\<close>, the replies of a handler.\<close>

definition reply :: "string \<Rightarrow> string list \<Rightarrow> net \<Rightarrow> exn + net" where
  "reply code xs s =
     bindE (mk_msg code (Some (EServer (irc_id s))) (Some (ENick (user_id s))) xs) (\<lambda>m. deliver (user_id s) m s)"

text \<open>
  The \<open>IRC\<close> object at the start of its constructor: server number 0 with the hostname, the
  socket open, nothing registered. \<open>version\<close> is \<open>MINBIF_VERSION\<close>.
\<close>

definition IRC_members :: "string \<Rightarrow> string \<Rightarrow> net" where
  "IRC_members version hostname =
     \<lparr>nicks = Map.empty, chans = Map.empty, cusers = Map.empty,
      servs = [0 \<mapsto> \<lparr>sv_name = hostname, sv_info = version, sv_users = [], sv_account = None\<rparr>], next_id = 1,
      reg_users = [], reg_chans = [], reg_servers = [], dccs = [], user_id = 1, irc_id = 0, sock_open = True, out = [],
      conv_ui = Map.empty, conv_chan = Map.empty, buddy_ui = Map.empty, im_calls = [], timers = []\<rparr>"

text \<open>A concrete environment and a concrete contact, for examples.\<close>

definition sample_world :: world where
  "sample_world =
     \<lparr>w_now = 1000, w_voice = 1, w_halfop = 2, w_op = 4, w_founder = 8, w_fnmatch = (=), w_translit = Some,
      w_ft_enabled = False, w_send_delay = 0, w_voiced_buddies = True, w_accept_unknown = True, w_user_path = ''/u'',
      w_icon_path = ''/i'', w_opendir = (\<lambda>_. True), w_mkdir = (\<lambda>_. True), w_stat = (\<lambda>_. None), w_dirname = id, w_access = (\<lambda>_. True),
      w_fopen = (\<lambda>_. True), w_watch = 1, w_dcc_connect = (\<lambda>_ _. Some 5), w_conv_new = (\<lambda>_ _. 7), w_conv_name = (\<lambda>_. ''room''),
      w_conv_account = (\<lambda>_. 1), w_conv_topic = (\<lambda>_. []), w_conv_nick = (\<lambda>_. ''me''), w_set_topic_ok = (\<lambda>_. True),
      w_command = (\<lambda>_ _. CmdOk), w_buddy_name = (\<lambda>_. ''bob@example.org''), w_buddy_alias = (\<lambda>_. ''bob''),
      w_buddy_realname = (\<lambda>_. ''Bob''), w_buddy_group = (\<lambda>_. ''Friends''), w_buddy_account = (\<lambda>_. 1), w_buddy_online = (\<lambda>_. True),
      w_buddy_available = (\<lambda>_. True), w_buddy_status = (\<lambda>_. []), w_cb_name = (\<lambda>k. if k = 1 then ''me'' else ''ann''),
      w_cb_realname = (\<lambda>_. ''ann''), w_cb_status = (\<lambda>_. 4), w_cb_conv = (\<lambda>_. 7), w_acc_id = (\<lambda>_. ''jabber0''),
      w_acc_servername = (\<lambda>_. ''jabber0''), w_acc_status_channel = (\<lambda>_. ''&minbif''), w_acc_deny_list = (\<lambda>_. []),
      w_acc_deny_ok = (\<lambda>_ _. True), w_acc_allow_ok = (\<lambda>_ _. True)\<rparr>"

definition sample_buddy :: nick where
  "sample_buddy = \<lparr>nk_name = ''bob'', nk_ident = ''bob'', nk_host = ''h'', nk_real = [], nk_away = [], nk_server = 0, nk_flags = 0,
     nk_channels = [], nk_class = CBuddy 9, nk_conv = Some 7, nk_queue = [], nk_public = False, nk_public_last = 0\<rparr>"

section \<open>Frame of the deliveries\<close>

text \<open>Delivering a message changes nothing but \<open>out\<close>.\<close>

lemma live_out [simp]:
  "ent_live (s\<lparr>out := x\<rparr>) e = ent_live s e" "msg_live (s\<lparr>out := x\<rparr>) m = msg_live s m"
  "ent_name (s\<lparr>out := x\<rparr>) = ent_name s" "ent_longname (s\<lparr>out := x\<rparr>) = ent_longname s"
  by (simp_all add: ent_live_def msg_live_def stored_live_def ent_name_def ent_longname_def fun_eq_iff
      split: entity.split option.split)

lemma of_simps [simp]:
  "nicks s n = Some nk \<Longrightarrow> nick_of s n = Inr nk" "chans s c = Some ch \<Longrightarrow> chan_of s c = Inr ch"
  "cusers s u = Some cu \<Longrightarrow> cuser_of s u = Inr cu" "servs s i = Some sv \<Longrightarrow> serv_of s i = Inr sv"
  by (simp_all add: nick_of_def chan_of_def cuser_of_def serv_of_def)

lemma of_Inr_iff:
  "nick_of s n = Inr nk \<longleftrightarrow> nicks s n = Some nk" "chan_of s c = Inr ch \<longleftrightarrow> chans s c = Some ch"
  "cuser_of s u = Inr cu \<longleftrightarrow> cusers s u = Some cu" "serv_of s i = Inr sv \<longleftrightarrow> servs s i = Some sv"
  by (simp_all add: nick_of_def chan_of_def cuser_of_def serv_of_def split: option.split)

lemma of_out [simp]:
  "nick_of (s\<lparr>out := x\<rparr>) = nick_of s" "chan_of (s\<lparr>out := x\<rparr>) = chan_of s"
  "cuser_of (s\<lparr>out := x\<rparr>) = cuser_of s" "serv_of (s\<lparr>out := x\<rparr>) = serv_of s"
  by (simp_all add: nick_of_def chan_of_def cuser_of_def serv_of_def fun_eq_iff)

definition writes :: "net \<Rightarrow> nid \<Rightarrow> bool" where
  "writes s n \<longleftrightarrow> sock_open s \<and> (case nicks s n of Some nk \<Rightarrow> nk_class nk = CUser | None \<Rightarrow> False)"

definition line_of :: "net \<Rightarrow> irc_msg \<Rightarrow> string" where
  "line_of s m = format (ent_name s) (ent_longname s) m"

lemma writes_out [simp]: "writes (s\<lparr>out := x\<rparr>) n = writes s n" "line_of (s\<lparr>out := x\<rparr>) m = line_of s m"
  by (simp_all add: writes_def line_of_def)

lemma deliver_eq:
  assumes "nicks s n \<noteq> None" and "msg_live s m"
  shows "deliver n m s = Inr (s\<lparr>out := out s @ (if writes s n then [line_of s m] else [])\<rparr>)"
  using assms by (auto simp: deliver_def nick_of_def User_send_def writes_def line_of_def)

lemma foldE_out:
  assumes "\<And>u x. u \<in> set us \<Longrightarrow> \<exists>y. f u (s\<lparr>out := x\<rparr>) = Inr (s\<lparr>out := y\<rparr>)"
  shows "\<exists>y. foldE f us (s\<lparr>out := x\<rparr>) = Inr (s\<lparr>out := y\<rparr>)"
  using assms
proof (induction us arbitrary: x)
  case Nil
  then show ?case by auto
next
  case (Cons u us)
  obtain y where "f u (s\<lparr>out := x\<rparr>) = Inr (s\<lparr>out := y\<rparr>)" using Cons.prems [of u x] by auto
  moreover obtain z where "foldE f us (s\<lparr>out := y\<rparr>) = Inr (s\<lparr>out := z\<rparr>)"
    using Cons.IH [of y] Cons.prems by auto
  ultimately show ?case by auto
qed

lemma mk_msg_eq:
  "mk_msg cmd a b xs =
    (if \<exists>x\<in>set (butlast xs). has_space x then Inl MalformedMessage
     else Inr \<lparr>msg_cmd = cmd, msg_sender = setEntity a, msg_receiver = setEntity b, msg_args = xs\<rparr>)"
  unfolding mk_msg_def addArgs_Message by (auto simp: Message_def)

lemma msg_live_setEntity:
  "msg_sender m = setEntity a \<Longrightarrow> msg_receiver m = setEntity b \<Longrightarrow>
    msg_live s m \<longleftrightarrow> (case a of Some e \<Rightarrow> ent_live s e | None \<Rightarrow> True) \<and> (case b of Some e \<Rightarrow> ent_live s e | None \<Rightarrow> True)"
  by (simp add: msg_live_def stored_live_def setEntity_def)

end
