(* ===== verification/Membership.thy ===== *)
theory Membership
  imports Net_State
begin

text \<open>
  Who is on which channel: \<open>ChanUser\<close> and the base class \<open>Channel\<close> of
  \<open>src/src/irc/channel.cpp\<close>, the membership operations of \<open>Nick\<close> in \<open>nick.cpp\<close>, and the
  deletion of a nick (the destructors, \<open>IRC::removeNick\<close>), which leaves its channels.

  A nick keeps a vector of its channel users, a channel keeps a vector of its own, and a
  channel user points at both: three structures that every operation must keep in step. The
  invariant is \<open>net_ok\<close>, stated on the skeleton of the heaps; under it no operation here meets
  a dangling pointer, and each keeps it.
\<close>

section \<open>\<open>ChanUser\<close>\<close>

text \<open>The table of modes: flag, letter, prefix.\<close>

definition m2c :: "world \<Rightarrow> (32 word \<times> char \<times> char) list" where
  "m2c w = [(w_founder w, CHR ''q'', CHR ''~''), (w_op w, CHR ''o'', CHR ''@''),
            (w_halfop w, CHR ''h'', CHR ''%''), (w_voice w, CHR ''v'', CHR ''+'')]"

definition getPrefix :: "world \<Rightarrow> 32 word \<Rightarrow> string" where
  "getPrefix w status = map (\<lambda>(m, c, p). p) (filter (\<lambda>(m, c, p). status AND m \<noteq> 0) (m2c w))"

definition c2mode :: "world \<Rightarrow> char \<Rightarrow> 32 word" where
  "c2mode w c = (case find (\<lambda>(m, l, p). l = c) (m2c w) of Some (m, l, p) \<Rightarrow> m | None \<Rightarrow> 0)"

definition mode2c :: "world \<Rightarrow> 32 word \<Rightarrow> char" where
  "mode2c w mode = (case find (\<lambda>(m, l, p). m = mode) (m2c w) of Some (m, l, p) \<Rightarrow> l | None \<Rightarrow> CHR 0x00)"

definition ChanUser :: "cid \<Rightarrow> nid \<Rightarrow> nick \<Rightarrow> 32 word \<Rightarrow> chanuser" where
  "ChanUser c n nk status = \<lparr>cu_name = nk_name nk, cu_nick = n, cu_chan = c, cu_status = status\<rparr>"

definition setStatus :: "32 word \<Rightarrow> chanuser \<Rightarrow> chanuser" where
  "setStatus f cu = cu\<lparr>cu_status := cu_status cu OR f\<rparr>"

definition delStatus :: "32 word \<Rightarrow> chanuser \<Rightarrow> chanuser" where
  "delStatus f cu = cu\<lparr>cu_status := cu_status cu AND NOT f\<rparr>"

definition hasStatus :: "32 word \<Rightarrow> chanuser \<Rightarrow> bool" where
  "hasStatus f cu \<longleftrightarrow> cu_status cu AND f \<noteq> 0"

definition getModeMessage :: "world \<Rightarrow> net \<Rightarrow> uid \<Rightarrow> bool \<Rightarrow> 32 word \<Rightarrow> exn + irc_msg" where
  "getModeMessage w s u add modes =
     bindE (cuser_of s u) (\<lambda>cu.
     bindE (nick_of s (cu_nick cu)) (\<lambda>nk.
       let ms = (if modes = 0 then cu_status cu else modes);
           sel = filter (\<lambda>(m, c, p). m AND ms \<noteq> 0) (m2c w);
           sign = (if add then ''+'' else ''-'')
       in bindE (addArgs (sign # map (\<lambda>_. nk_name nk) sel) (Message ''MODE''))
            (setArg 0 (sign @ map (\<lambda>(m, c, p). c) sel))))"

section \<open>\<open>Channel\<close>\<close>

definition sendNames :: "world \<Rightarrow> cid \<Rightarrow> nid \<Rightarrow> net \<Rightarrow> exn + net" where
  "sendNames w c n s =
     bindE (chan_of s c) (\<lambda>ch.
     bindE (foldE (\<lambda>u names. bindE (cuser_of s u) (\<lambda>cu. bindE (nick_of s (cu_nick cu)) (\<lambda>nk.
              Inr (names @ getPrefix w (cu_status cu) @ nk_name nk @ '' '')))) (ch_users ch) []) (\<lambda>names.
     bindE (mk_msg ''353'' (Some (EServer (irc_id s))) (Some (ENick n)) [''='', ch_name ch, names]) (\<lambda>m1.
     bindE (mk_msg ''366'' (Some (EServer (irc_id s))) (Some (ENick n)) [ch_name ch, ''End of /NAMES list'']) (\<lambda>m2.
       seqE [deliver n m1, deliver n m2] s))))"

text \<open>The virtual \<open>getTopic\<close>.\<close>

definition getTopic :: "world \<Rightarrow> channel \<Rightarrow> string" where
  "getTopic w ch = (case ch_class ch of StatusChan \<Rightarrow> ch_topic ch | ConvChan \<Rightarrow> w_conv_topic w (ch_conv ch))"

definition addUser_notify :: "world \<Rightarrow> cid \<Rightarrow> nid \<Rightarrow> uid \<Rightarrow> 32 word \<Rightarrow> uid \<Rightarrow> net \<Rightarrow> exn + net" where
  "addUser_notify w c n u0 status u s =
     bindE (cuser_of s u) (\<lambda>cu.
     bindE (mk_msg ''JOIN'' (Some (ENick n)) (Some (EChan c)) []) (\<lambda>join.
     bindE (deliver (cu_nick cu) join s) (\<lambda>s1.
       if status \<noteq> 0 \<and> cu_nick cu \<noteq> n
       then bindE (getModeMessage w s1 u0 True 0) (\<lambda>m.
              deliver (cu_nick cu) (setReceiver (EChan c) (setSender (EServer (irc_id s)) m)) s1)
       else Inr s1)))"

definition addUser :: "world \<Rightarrow> cid \<Rightarrow> nid \<Rightarrow> 32 word \<Rightarrow> net \<Rightarrow> exn + uid \<times> net" where
  "addUser w c n status s =
     bindE (nick_of s n) (\<lambda>nk.
     bindE (chan_of s c) (\<lambda>ch0.
       let u0 = next_id s;
           s1 = upd_chan c (\<lambda>ch. ch\<lparr>ch_users := ch_users ch @ [u0]\<rparr>)
                  (s\<lparr>next_id := u0 + 1, cusers := (cusers s)(u0 \<mapsto> ChanUser c n nk status)\<rparr>)
       in bindE (foldE (addUser_notify w c n u0 status) (ch_users ch0 @ [u0]) s1) (\<lambda>s2.
          let topic = getTopic w ch0
          in bindE (if topic = [] then Inr s2
                    else bindE (mk_msg ''332'' (Some (EServer (irc_id s))) (Some (ENick n)) [ch_name ch0, topic])
                           (\<lambda>m. deliver n m s2)) (\<lambda>s3.
             bindE (sendNames w c n s3) (\<lambda>s4. Inr (u0, s4))))))"

text \<open>\<open>Channel::delUser\<close>; a message with an empty command is not sent.\<close>

definition delUser_step :: "cid \<Rightarrow> nid \<Rightarrow> irc_msg \<Rightarrow> uid \<Rightarrow> net \<Rightarrow> exn + net" where
  "delUser_step c n m u s =
     bindE (cuser_of s u) (\<lambda>cu.
       if cu_nick cu = n
       then Inr (upd_chan c (\<lambda>ch. ch\<lparr>ch_users := remove1 u (ch_users ch)\<rparr>) (s\<lparr>cusers := (cusers s)(u := None)\<rparr>))
       else if msg_cmd m \<noteq> [] then deliver (cu_nick cu) m s
       else Inr s)"

definition Channel_delUser :: "cid \<Rightarrow> nid \<Rightarrow> irc_msg \<Rightarrow> net \<Rightarrow> exn + net" where
  "Channel_delUser c n m s = bindE (chan_of s c) (\<lambda>ch. foldE (delUser_step c n m) (ch_users ch) s)"

text \<open>
  \<open>Channel::broadcast\<close> over the virtual method \<open>sendf\<close>. The modes and topics sent here are not
  \<open>PRIVMSG\<close>s, for which \<open>deliver\<close> is the method.
\<close>

definition broadcast_with :: "(nid \<Rightarrow> irc_msg \<Rightarrow> net \<Rightarrow> exn + net) \<Rightarrow> cid \<Rightarrow> irc_msg \<Rightarrow> nid option \<Rightarrow> net \<Rightarrow> exn + net" where
  "broadcast_with sendf c m butone s =
     bindE (chan_of s c) (\<lambda>ch.
       foldE (\<lambda>u s. bindE (cuser_of s u) (\<lambda>cu.
                if butone = Some (cu_nick cu) then Inr s else sendf (cu_nick cu) m s)) (ch_users ch) s)"

definition setMode :: "world \<Rightarrow> entity option \<Rightarrow> cid \<Rightarrow> 32 word \<Rightarrow> uid \<Rightarrow> net \<Rightarrow> exn + net" where
  "setMode w sender c modes u s =
     (if modes = 0 then Inr s
      else bindE (cuser_of s u) (\<lambda>_.
        let s1 = upd_cuser u (setStatus modes) s
        in bindE (getModeMessage w s1 u True modes) (\<lambda>m.
             broadcast_with deliver c
               (setReceiver (EChan c) (setSender (case sender of Some e \<Rightarrow> e | None \<Rightarrow> EServer (irc_id s)) m)) None s1)))"

definition delMode :: "world \<Rightarrow> entity option \<Rightarrow> cid \<Rightarrow> 32 word \<Rightarrow> uid \<Rightarrow> net \<Rightarrow> exn + net" where
  "delMode w sender c modes u s =
     (if modes = 0 then Inr s
      else bindE (cuser_of s u) (\<lambda>_.
        let s1 = upd_cuser u (delStatus modes) s
        in bindE (getModeMessage w s1 u False modes) (\<lambda>m.
             broadcast_with deliver c
               (setReceiver (EChan c) (setSender (case sender of Some e \<Rightarrow> e | None \<Rightarrow> EServer (irc_id s)) m)) None s1)))"

definition Channel_setTopic :: "cid \<Rightarrow> entity option \<Rightarrow> string \<Rightarrow> net \<Rightarrow> exn + net" where
  "Channel_setTopic c who topic s =
     bindE (chan_of s c) (\<lambda>ch.
       let new_topic = takeWhile (\<lambda>x. x \<noteq> CHR 0x0A) topic
       in if ch_topic ch = new_topic then Inr s
          else bindE (mk_msg ''TOPIC'' (Some (case who of Some e \<Rightarrow> e | None \<Rightarrow> EServer (irc_id s)))
                        (Some (EChan c)) [new_topic]) (\<lambda>m.
                 broadcast_with deliver c m None (upd_chan c (\<lambda>ch. ch\<lparr>ch_topic := new_topic\<rparr>) s)))"

text \<open>\<open>Channel::getChanUser\<close> by nickname, in lower case.\<close>

fun find_nickname :: "net \<Rightarrow> string \<Rightarrow> uid list \<Rightarrow> exn + uid option" where
  "find_nickname s nm [] = Inr None"
| "find_nickname s nm (u # us) =
     bindE (cuser_of s u) (\<lambda>cu. bindE (nick_of s (cu_nick cu)) (\<lambda>nk.
       if strlower (nk_name nk) = nm then Inr (Some u) else find_nickname s nm us))"

definition Channel_getChanUser :: "net \<Rightarrow> cid \<Rightarrow> string \<Rightarrow> exn + uid option" where
  "Channel_getChanUser s c nm = bindE (chan_of s c) (\<lambda>ch. find_nickname s (strlower nm) (ch_users ch))"

definition isChanName :: "string \<Rightarrow> bool" where
  "isChanName nm \<longleftrightarrow> nm \<noteq> [] \<and> \<not> has_space nm \<and> (hd nm = CHR ''&'' \<or> hd nm = CHR ''#'')"

section \<open>\<open>Nick\<close>\<close>

fun find_chanuser :: "net \<Rightarrow> cid \<Rightarrow> uid list \<Rightarrow> exn + uid option" where
  "find_chanuser s c [] = Inr None"
| "find_chanuser s c (u # us) =
     bindE (cuser_of s u) (\<lambda>cu. if cu_chan cu = c then Inr (Some u) else find_chanuser s c us)"

definition getChanUser :: "net \<Rightarrow> nid \<Rightarrow> cid \<Rightarrow> exn + uid option" where
  "getChanUser s n c = bindE (nick_of s n) (\<lambda>nk. find_chanuser s c (nk_channels nk))"

definition isOn :: "net \<Rightarrow> nid \<Rightarrow> cid \<Rightarrow> exn + bool" where
  "isOn s n c = bindE (getChanUser s n c) (\<lambda>r. Inr (r \<noteq> None))"

definition join :: "world \<Rightarrow> nid \<Rightarrow> cid \<Rightarrow> 32 word \<Rightarrow> net \<Rightarrow> exn + uid \<times> net" where
  "join w n c status s =
     bindE (getChanUser s n c) (\<lambda>r. case r of
         Some u \<Rightarrow>
           bindE (cuser_of s u) (\<lambda>cu.
             let last_status = cu_status cu
             in if last_status \<noteq> status
                then bindE (seqE [delMode w None c (last_status AND NOT status) u,
                                  setMode w None c (status AND NOT last_status) u] s) (\<lambda>s'. Inr (u, s'))
                else Inr (u, s))
       | None \<Rightarrow>
           bindE (addUser w c n status s) (\<lambda>(u, s').
             Inr (u, upd_nick n (\<lambda>nk. nk\<lparr>nk_channels := nk_channels nk @ [u]\<rparr>) s')))"

definition removeChanUser :: "nid \<Rightarrow> uid \<Rightarrow> net \<Rightarrow> exn + net" where
  "removeChanUser n u s =
     bindE (nick_of s n) (\<lambda>_. Inr (upd_nick n (\<lambda>nk. nk\<lparr>nk_channels := filter (\<lambda>x. x \<noteq> u) (nk_channels nk)\<rparr>) s))"

text \<open>
  \<open>Nick::quit\<close>. \<open>del\<close> is the virtual \<open>delUser\<close> of the channel; \<open>sended\<close> remembers who has
  the message already, so a nick met on two channels gets it once.
\<close>

definition quit_notify :: "irc_msg \<Rightarrow> uid \<Rightarrow> nid list \<times> net \<Rightarrow> exn + nid list \<times> net" where
  "quit_notify m u = (\<lambda>(sended, s).
     bindE (cuser_of s u) (\<lambda>cu.
       if cu_nick cu \<in> set sended then Inr (sended, s)
       else bindE (deliver (cu_nick cu) m s) (\<lambda>s'. Inr (sended @ [cu_nick cu], s'))))"

definition quit_step :: "(cid \<Rightarrow> nid \<Rightarrow> net \<Rightarrow> exn + net) \<Rightarrow> nid \<Rightarrow> irc_msg \<Rightarrow> uid
    \<Rightarrow> nid list \<times> net \<Rightarrow> exn + nid list \<times> net" where
  "quit_step del n m u = (\<lambda>(sended, s).
     bindE (cuser_of s u) (\<lambda>cu.
     bindE (chan_of s (cu_chan cu)) (\<lambda>ch.
     bindE (foldE (quit_notify m) (ch_users ch) (sended, s)) (\<lambda>(sended', s1).
     bindE (del (cu_chan cu) n s1) (\<lambda>s2.
     bindE (nick_of s2 n) (\<lambda>_.
       Inr (sended', upd_nick n (\<lambda>nk. nk\<lparr>nk_channels := remove1 u (nk_channels nk)\<rparr>) s2)))))))"

definition quit_with :: "(cid \<Rightarrow> nid \<Rightarrow> net \<Rightarrow> exn + net) \<Rightarrow> nid \<Rightarrow> string \<Rightarrow> net \<Rightarrow> exn + net" where
  "quit_with del n text s =
     bindE (nick_of s n) (\<lambda>nk.
     bindE (mk_msg ''QUIT'' (Some (ENick n)) None [text]) (\<lambda>m.
     bindE (foldE (quit_step del n m) (nk_channels nk) ([], s)) (\<lambda>(_, s'). Inr s')))"

section \<open>Deleting a nick\<close>

text \<open>
  \<open>ConversationChannel::delUser\<close> up to what it does with the nick: the entry of \<open>cbuddies\<close> for
  the nick goes, then \<open>Channel::delUser\<close>.
\<close>

fun cb_find_nick :: "net \<Rightarrow> nid \<Rightarrow> (im_cbuddy, uid) smap \<Rightarrow> exn + im_cbuddy option" where
  "cb_find_nick s n [] = Inr None"
| "cb_find_nick s n ((k, u) # m) =
     bindE (cuser_of s u) (\<lambda>cu. if cu_nick cu = n then Inr (Some k) else cb_find_nick s n m)"

definition conv_delUser :: "cid \<Rightarrow> nid \<Rightarrow> irc_msg \<Rightarrow> net \<Rightarrow> exn + net" where
  "conv_delUser c n m s =
     bindE (chan_of s c) (\<lambda>ch.
     bindE (cb_find_nick s n (ch_cbuddies ch)) (\<lambda>r.
       Channel_delUser c n m
         (case r of None \<Rightarrow> s | Some k \<Rightarrow> upd_chan c (\<lambda>ch. ch\<lparr>ch_cbuddies := map_erase k (ch_cbuddies ch)\<rparr>) s)))"

text \<open>
  The virtual \<open>delUser\<close> for a nick in its destructor, where it is a plain \<open>Nick\<close>: the cast to
  \<open>ChatBuddy\<close> fails, only the user's own departure is passed on.
\<close>

definition delUser_dying :: "cid \<Rightarrow> nid \<Rightarrow> net \<Rightarrow> exn + net" where
  "delUser_dying c n s =
     bindE (chan_of s c) (\<lambda>ch. case ch_class ch of
         StatusChan \<Rightarrow> Channel_delUser c n (Message []) s
       | ConvChan \<Rightarrow>
           bindE (conv_delUser c n (Message []) s) (\<lambda>s1.
             Inr (if n = user_id s1 then im_do (Leave (ch_conv ch)) s1 else s1)))"

text \<open>
  \<open>setConversation\<close>: a \<open>Buddy\<close> first withdraws from the conversation it had, whose
  \<open>setNick(NULL)\<close> resets the buddy's own reference before the new one is stored.
\<close>

definition setConversation :: "nid \<Rightarrow> im_conv option \<Rightarrow> net \<Rightarrow> exn + net" where
  "setConversation n c s =
     bindE (nick_of s n) (\<lambda>nk.
       let s1 = (case (nk_class nk, nk_conv nk) of
                   (CBuddy b, Some v) \<Rightarrow> if conv_ui s v = Some n then s\<lparr>conv_ui := (conv_ui s)(v := None)\<rparr> else s
                 | _ \<Rightarrow> s)
       in Inr (upd_nick n (\<lambda>nk. nk\<lparr>nk_conv := c\<rparr>) s1))"

text \<open>The destructors of the derived classes, then \<open>~Nick\<close>.\<close>

definition nick_dtor :: "nid \<Rightarrow> net \<Rightarrow> exn + net" where
  "nick_dtor n s =
     bindE (nick_of s n) (\<lambda>nk. case nk_class nk of
         CBuddy b \<Rightarrow>
           bindE (setConversation n None s) (\<lambda>s1. Inr (s1\<lparr>buddy_ui := (buddy_ui s1)(b := None)\<rparr>))
       | CChatBuddy k \<Rightarrow>
           (case nk_conv nk of
              Some v \<Rightarrow> if conv_ui s v = Some n then setConversation n None (s\<lparr>conv_ui := (conv_ui s)(v := None)\<rparr>) else Inr s
            | None \<Rightarrow> Inr s)
       | CUnknownBuddy \<Rightarrow>
           (case nk_conv nk of
              Some v \<Rightarrow> if conv_ui s v = Some n then setConversation n None (s\<lparr>conv_ui := (conv_ui s)(v := None)\<rparr>) else Inr s
            | None \<Rightarrow> Inr s)
       | _ \<Rightarrow> Inr s)"

definition delete_nick :: "nid \<Rightarrow> net \<Rightarrow> exn + net" where
  "delete_nick n s =
     bindE (nick_dtor n s) (\<lambda>s1.
     bindE (quit_with delUser_dying n ''*.net *.split'' (upd_nick n (\<lambda>nk. nk\<lparr>nk_class := CNick\<rparr>) s1)) (\<lambda>s2.
       Inr (s2\<lparr>nicks := (nicks s2)(n := None)\<rparr>)))"

definition Server_removeNick :: "nid \<Rightarrow> server \<Rightarrow> server" where
  "Server_removeNick n sv = sv\<lparr>sv_users := remove1 n (sv_users sv)\<rparr>"

text \<open>\<open>IRC::removeNick\<close>: finished transfers are purged, the others lose their peer.\<close>

definition detach_dccs :: "nid \<Rightarrow> dcc list \<Rightarrow> dcc list" where
  "detach_dccs n ds =
     map (\<lambda>d. if getPeer d = Some n then setPeer None d else d) (filter (\<lambda>d. \<not> isFinished d) ds)"

definition removeNick :: "string \<Rightarrow> net \<Rightarrow> exn + net" where
  "removeNick nickname s =
     (case map_find (reg_users s) nickname of
        None \<Rightarrow> Inr s
      | Some n \<Rightarrow>
          bindE (nick_of s n) (\<lambda>nk.
          bindE (serv_of s (nk_server nk)) (\<lambda>_.
          bindE (delete_nick n (upd_serv (nk_server nk) (Server_removeNick n) (s\<lparr>dccs := detach_dccs n (dccs s)\<rparr>))) (\<lambda>s1.
            Inr (s1\<lparr>reg_users := map_erase nickname (reg_users s1)\<rparr>)))))"

section \<open>The invariant\<close>

text \<open>
  Every channel user a nick or a channel lists exists and points back, every channel user is
  listed by its nick and by its channel, once each, and there is one per nick and channel.
\<close>

definition net_ok :: "net \<Rightarrow> bool" where
  "net_ok s \<longleftrightarrow>
     (\<forall>n nk. nicks s n = Some nk \<longrightarrow> distinct (nk_channels nk) \<and>
        (\<forall>u\<in>set (nk_channels nk). \<exists>cu. cusers s u = Some cu \<and> cu_nick cu = n)) \<and>
     (\<forall>c ch. chans s c = Some ch \<longrightarrow> distinct (ch_users ch) \<and>
        (\<forall>u\<in>set (ch_users ch). \<exists>cu. cusers s u = Some cu \<and> cu_chan cu = c)) \<and>
     (\<forall>u cu. cusers s u = Some cu \<longrightarrow> u < next_id s \<and>
        (\<exists>nk. nicks s (cu_nick cu) = Some nk \<and> u \<in> set (nk_channels nk)) \<and>
        (\<exists>ch. chans s (cu_chan cu) = Some ch \<and> u \<in> set (ch_users ch))) \<and>
     (\<forall>u v cu cv. cusers s u = Some cu \<and> cusers s v = Some cv \<and>
        cu_nick cu = cu_nick cv \<and> cu_chan cu = cu_chan cv \<longrightarrow> u = v)"

lemma net_okI:
  assumes "\<And>n nk. nicks s n = Some nk \<Longrightarrow> distinct (nk_channels nk)"
    and "\<And>n nk u. nicks s n = Some nk \<Longrightarrow> u \<in> set (nk_channels nk) \<Longrightarrow> \<exists>cu. cusers s u = Some cu \<and> cu_nick cu = n"
    and "\<And>c ch. chans s c = Some ch \<Longrightarrow> distinct (ch_users ch)"
    and "\<And>c ch u. chans s c = Some ch \<Longrightarrow> u \<in> set (ch_users ch) \<Longrightarrow> \<exists>cu. cusers s u = Some cu \<and> cu_chan cu = c"
    and "\<And>u cu. cusers s u = Some cu \<Longrightarrow> u < next_id s"
    and "\<And>u cu. cusers s u = Some cu \<Longrightarrow> \<exists>nk. nicks s (cu_nick cu) = Some nk \<and> u \<in> set (nk_channels nk)"
    and "\<And>u cu. cusers s u = Some cu \<Longrightarrow> \<exists>ch. chans s (cu_chan cu) = Some ch \<and> u \<in> set (ch_users ch)"
    and "\<And>u v cu cv. cusers s u = Some cu \<Longrightarrow> cusers s v = Some cv \<Longrightarrow>
      cu_nick cu = cu_nick cv \<Longrightarrow> cu_chan cu = cu_chan cv \<Longrightarrow> u = v"
  shows "net_ok s"
  unfolding net_ok_def using assms by blast

lemma net_okD:
  assumes "net_ok s"
  shows "nicks s n = Some nk \<Longrightarrow> distinct (nk_channels nk)"
    and "nicks s n = Some nk \<Longrightarrow> u \<in> set (nk_channels nk) \<Longrightarrow> \<exists>cu. cusers s u = Some cu \<and> cu_nick cu = n"
    and "chans s c = Some ch \<Longrightarrow> distinct (ch_users ch)"
    and "chans s c = Some ch \<Longrightarrow> u \<in> set (ch_users ch) \<Longrightarrow> \<exists>cu. cusers s u = Some cu \<and> cu_chan cu = c"
    and "cusers s u = Some cu \<Longrightarrow> u < next_id s"
    and "cusers s u = Some cu \<Longrightarrow> \<exists>nk. nicks s (cu_nick cu) = Some nk \<and> u \<in> set (nk_channels nk)"
    and "cusers s u = Some cu \<Longrightarrow> \<exists>ch. chans s (cu_chan cu) = Some ch \<and> u \<in> set (ch_users ch)"
    and "cusers s u = Some cu \<Longrightarrow> cusers s v = Some cv \<Longrightarrow>
      cu_nick cu = cu_nick cv \<Longrightarrow> cu_chan cu = cu_chan cv \<Longrightarrow> u = v"
  using assms unfolding net_ok_def by blast+

text \<open>The invariant depends on the lists and links only.\<close>

definition skel :: "net \<Rightarrow> (nid \<rightharpoonup> uid list) \<times> (cid \<rightharpoonup> uid list) \<times> (uid \<rightharpoonup> nid \<times> cid) \<times> nat" where
  "skel s = (\<lambda>n. map_option nk_channels (nicks s n), \<lambda>c. map_option ch_users (chans s c),
     \<lambda>u. map_option (\<lambda>cu. (cu_nick cu, cu_chan cu)) (cusers s u), next_id s)"

lemma skelD:
  assumes "skel s' = skel s"
  shows "nicks s n = Some nk \<Longrightarrow> \<exists>nk'. nicks s' n = Some nk' \<and> nk_channels nk' = nk_channels nk"
    and "chans s c = Some ch \<Longrightarrow> \<exists>ch'. chans s' c = Some ch' \<and> ch_users ch' = ch_users ch"
    and "cusers s u = Some cu \<Longrightarrow> \<exists>cu'. cusers s' u = Some cu' \<and> cu_nick cu' = cu_nick cu \<and> cu_chan cu' = cu_chan cu"
    and "next_id s' = next_id s"
proof -
  note eqs = assms [unfolded skel_def prod.inject fun_eq_iff]
  show "nicks s n = Some nk \<Longrightarrow> \<exists>nk'. nicks s' n = Some nk' \<and> nk_channels nk' = nk_channels nk"
    using eqs [THEN conjunct1, rule_format, of n] by (auto simp: map_option_eq_Some)
  show "chans s c = Some ch \<Longrightarrow> \<exists>ch'. chans s' c = Some ch' \<and> ch_users ch' = ch_users ch"
    using eqs [THEN conjunct2, THEN conjunct1, rule_format, of c] by (auto simp: map_option_eq_Some)
  show "cusers s u = Some cu \<Longrightarrow> \<exists>cu'. cusers s' u = Some cu' \<and> cu_nick cu' = cu_nick cu \<and> cu_chan cu' = cu_chan cu"
    using eqs [THEN conjunct2, THEN conjunct2, THEN conjunct1, rule_format, of u] by (auto simp: map_option_eq_Some)
  show "next_id s' = next_id s" using eqs by simp
qed

lemma net_ok_skel:
  assumes "skel s' = skel s" and "net_ok s"
  shows "net_ok s'"
proof -
  note to = skelD [OF assms(1)] and rev = skelD [OF assms(1) [symmetric]] and ok = net_okD [OF assms(2)]
  show ?thesis
  proof (rule net_okI)
    show "distinct (nk_channels nk)" if "nicks s' n = Some nk" for n nk
      using rev(1) [OF that] ok(1) by metis
    show "\<exists>cu. cusers s' u = Some cu \<and> cu_nick cu = n" if "nicks s' n = Some nk" "u \<in> set (nk_channels nk)" for n nk u
      using rev(1) [OF that(1)] ok(2) that(2) to(3) by metis
    show "distinct (ch_users ch)" if "chans s' c = Some ch" for c ch
      using rev(2) [OF that] ok(3) by metis
    show "\<exists>cu. cusers s' u = Some cu \<and> cu_chan cu = c" if "chans s' c = Some ch" "u \<in> set (ch_users ch)" for c ch u
      using rev(2) [OF that(1)] ok(4) that(2) to(3) by metis
    show "u < next_id s'" if "cusers s' u = Some cu" for u cu
      using rev(3) [OF that] ok(5) to(4) by metis
    show "\<exists>nk. nicks s' (cu_nick cu) = Some nk \<and> u \<in> set (nk_channels nk)" if "cusers s' u = Some cu" for u cu
      using rev(3) [OF that] ok(6) to(1) by metis
    show "\<exists>ch. chans s' (cu_chan cu) = Some ch \<and> u \<in> set (ch_users ch)" if "cusers s' u = Some cu" for u cu
      using rev(3) [OF that] ok(7) to(2) by metis
    show "u = v" if "cusers s' u = Some cu" "cusers s' v = Some cv" "cu_nick cu = cu_nick cv" "cu_chan cu = cu_chan cv"
      for u v cu cv
      using rev(3) [OF that(1)] rev(3) [OF that(2)] ok(8) that(3,4) by metis
  qed
qed

section \<open>Leaving a channel\<close>

text \<open>Taking channel user \<open>u\<close> out of channel \<open>c\<close>, and out of the nick that held it.\<close>

definition take_out :: "cid \<Rightarrow> uid \<Rightarrow> net \<Rightarrow> net" where
  "take_out c u s = upd_chan c (\<lambda>ch. ch\<lparr>ch_users := remove1 u (ch_users ch)\<rparr>) (s\<lparr>cusers := (cusers s)(u := None)\<rparr>)"

definition unlist :: "nid \<Rightarrow> uid \<Rightarrow> net \<Rightarrow> net" where
  "unlist n u s = upd_nick n (\<lambda>nk. nk\<lparr>nk_channels := remove1 u (nk_channels nk)\<rparr>) s"

lemma take_out_simps [simp]:
  "nicks (take_out c u s) = nicks s" "cusers (take_out c u s) = (cusers s)(u := None)"
  "chans (take_out c u s) = (chans s)(c := map_option (\<lambda>ch. ch\<lparr>ch_users := remove1 u (ch_users ch)\<rparr>) (chans s c))"
  "servs (take_out c u s) = servs s" "sock_open (take_out c u s) = sock_open s" "out (take_out c u s) = out s"
  "next_id (take_out c u s) = next_id s" "reg_users (take_out c u s) = reg_users s"
  "user_id (take_out c u s) = user_id s" "irc_id (take_out c u s) = irc_id s"
  "reg_chans (take_out c u s) = reg_chans s" "reg_servers (take_out c u s) = reg_servers s"
  by (simp_all add: take_out_def upd_chan_def)

lemma unlist_simps [simp]:
  "nicks (unlist n u s) = (nicks s)(n := map_option (\<lambda>nk. nk\<lparr>nk_channels := remove1 u (nk_channels nk)\<rparr>) (nicks s n))"
  "cusers (unlist n u s) = cusers s" "chans (unlist n u s) = chans s"
  "servs (unlist n u s) = servs s" "sock_open (unlist n u s) = sock_open s" "out (unlist n u s) = out s"
  "next_id (unlist n u s) = next_id s" "reg_users (unlist n u s) = reg_users s"
  "user_id (unlist n u s) = user_id s" "irc_id (unlist n u s) = irc_id s"
  "reg_chans (unlist n u s) = reg_chans s" "reg_servers (unlist n u s) = reg_servers s"
  by (simp_all add: unlist_def upd_nick_def)

text \<open>\<open>u\<close> is the one channel user of \<open>n\<close> on \<open>c\<close>, and everybody on \<open>c\<close> is alive.\<close>

definition seat :: "net \<Rightarrow> cid \<Rightarrow> nid \<Rightarrow> uid \<Rightarrow> bool" where
  "seat s c n u \<longleftrightarrow> (\<exists>ch. chans s c = Some ch \<and> distinct (ch_users ch) \<and> u \<in> set (ch_users ch) \<and>
     (\<forall>v\<in>set (ch_users ch). \<exists>cv. cusers s v = Some cv \<and> nicks s (cu_nick cv) \<noteq> None \<and> (cu_nick cv = n \<longleftrightarrow> v = u)))"

lemma seat_out [simp]: "seat (s\<lparr>out := x\<rparr>) c n u = seat s c n u"
  by (simp add: seat_def)

lemma net_ok_seat:
  assumes "net_ok s" and "cusers s u = Some cu"
  shows "seat s (cu_chan cu) (cu_nick cu) u"
proof -
  note ok = net_okD [OF assms(1)]
  obtain ch where ch: "chans s (cu_chan cu) = Some ch" "u \<in> set (ch_users ch)" using ok(7) [OF assms(2)] by blast
  have "\<exists>cv. cusers s v = Some cv \<and> nicks s (cu_nick cv) \<noteq> None \<and> (cu_nick cv = cu_nick cu \<longleftrightarrow> v = u)"
    if v: "v \<in> set (ch_users ch)" for v
  proof -
    obtain cv where cv: "cusers s v = Some cv" "cu_chan cv = cu_chan cu" using ok(4) [OF ch(1) v] by blast
    moreover obtain nk where "nicks s (cu_nick cv) = Some nk" using ok(6) [OF cv(1)] by blast
    moreover have "cu_nick cv = cu_nick cu \<longleftrightarrow> v = u" using ok(8) [OF cv(1) assms(2)] cv assms(2) by auto
    ultimately show ?thesis by auto
  qed
  with ch ok(3) [OF ch(1)] show ?thesis unfolding seat_def by blast
qed

text \<open>The people on a channel all get the message; only \<open>out\<close> changes.\<close>

definition all_live :: "net \<Rightarrow> uid list \<Rightarrow> bool" where
  "all_live s us \<longleftrightarrow> (\<forall>v\<in>set us. \<exists>cv. cusers s v = Some cv \<and> nicks s (cu_nick cv) \<noteq> None)"

lemma net_ok_all_live: "net_ok s \<Longrightarrow> chans s c = Some ch \<Longrightarrow> all_live s (ch_users ch)"
  unfolding all_live_def using net_okD(4,6) by (metis option.distinct(1))

lemma deliver_out: "nicks s n \<noteq> None \<Longrightarrow> msg_live s m \<Longrightarrow> \<exists>y. deliver n m (s\<lparr>out := x\<rparr>) = Inr (s\<lparr>out := y\<rparr>)"
  using deliver_eq [of "s\<lparr>out := x\<rparr>" n m] by auto

lemma delUser_others:
  assumes "\<forall>v\<in>set us. \<exists>cv. cusers s v = Some cv \<and> nicks s (cu_nick cv) \<noteq> None \<and> cu_nick cv \<noteq> n"
    and "msg_cmd m \<noteq> [] \<longrightarrow> msg_live s m"
  shows "\<exists>y. foldE (delUser_step c n m) us s = Inr (s\<lparr>out := y\<rparr>) \<and> (msg_cmd m = [] \<longrightarrow> y = out s)"
proof (cases "msg_cmd m = []")
  case True
  have "foldE (delUser_step c n m) us s = Inr s"
    using assms(1) True by (induction us) (auto simp: delUser_step_def)
  then show ?thesis using True by (auto intro!: exI [of _ "out s"])
next
  case False
  have "\<exists>y. foldE (delUser_step c n m) us (s\<lparr>out := out s\<rparr>) = Inr (s\<lparr>out := y\<rparr>)"
  proof (rule foldE_out)
    fix u x assume "u \<in> set us"
    with assms(1) obtain cv where "cusers s u = Some cv" "nicks s (cu_nick cv) \<noteq> None" "cu_nick cv \<noteq> n" by blast
    then show "\<exists>y. delUser_step c n m u (s\<lparr>out := x\<rparr>) = Inr (s\<lparr>out := y\<rparr>)"
      using assms(2) False deliver_out by (simp add: delUser_step_def)
  qed
  with False show ?thesis by simp
qed

lemma Channel_delUser_eq:
  assumes "seat s c n u" and "msg_cmd m \<noteq> [] \<longrightarrow> msg_live s m \<and> msg_live (take_out c u s) m"
  shows "\<exists>y. Channel_delUser c n m s = Inr ((take_out c u s)\<lparr>out := y\<rparr>) \<and> (msg_cmd m = [] \<longrightarrow> y = out s)"
proof -
  obtain ch where ch: "chans s c = Some ch" "distinct (ch_users ch)" "u \<in> set (ch_users ch)"
    and all: "\<forall>v\<in>set (ch_users ch). \<exists>cv. cusers s v = Some cv \<and> nicks s (cu_nick cv) \<noteq> None \<and> (cu_nick cv = n \<longleftrightarrow> v = u)"
    using assms(1) unfolding seat_def by blast
  obtain xs ys where us: "ch_users ch = xs @ u # ys" using ch(3) split_list by metis
  have notin: "u \<notin> set xs" "u \<notin> set ys" using ch(2) us by auto
  have xs: "\<forall>v\<in>set xs. \<exists>cv. cusers s v = Some cv \<and> nicks s (cu_nick cv) \<noteq> None \<and> cu_nick cv \<noteq> n"
    using all notin us by (metis Un_iff set_append)
  obtain y1 where y1: "foldE (delUser_step c n m) xs s = Inr (s\<lparr>out := y1\<rparr>)" "msg_cmd m = [] \<longrightarrow> y1 = out s"
    using delUser_others [OF xs] assms(2) by blast
  obtain cu where cu: "cusers s u = Some cu" "cu_nick cu = n" using all ch(3) by metis
  let ?s = "(take_out c u s)\<lparr>out := y1\<rparr>"
  have step: "delUser_step c n m u (s\<lparr>out := y1\<rparr>) = Inr ?s"
    using cu by (simp add: delUser_step_def take_out_def upd_chan_def)
  have "\<exists>cv. cusers ?s v = Some cv \<and> nicks ?s (cu_nick cv) \<noteq> None \<and> cu_nick cv \<noteq> n" if v: "v \<in> set ys" for v
  proof -
    have "v \<in> set (ch_users ch)" "v \<noteq> u" using v us notin by auto
    with all obtain cv where "cusers s v = Some cv" "nicks s (cu_nick cv) \<noteq> None" "cu_nick cv \<noteq> n" by metis
    with \<open>v \<noteq> u\<close> show ?thesis by simp
  qed
  then have ys: "\<forall>v\<in>set ys. \<exists>cv. cusers ?s v = Some cv \<and> nicks ?s (cu_nick cv) \<noteq> None \<and> cu_nick cv \<noteq> n" by blast
  have "msg_cmd m \<noteq> [] \<longrightarrow> msg_live ?s m" using assms(2) by simp
  then obtain y2 where y2: "foldE (delUser_step c n m) ys ?s = Inr (?s\<lparr>out := y2\<rparr>)" "msg_cmd m = [] \<longrightarrow> y2 = out ?s"
    using delUser_others [OF ys] by blast
  have "Channel_delUser c n m s = Inr (?s\<lparr>out := y2\<rparr>)"
    using ch(1) us y1(1) step y2(1) by (simp add: Channel_delUser_def foldE_append)
  with y1(2) y2(2) show ?thesis by (intro exI [of _ y2]) simp
qed

text \<open>Leaving keeps the invariant.\<close>

lemma net_ok_leave:
  assumes "net_ok s" and "cusers s u = Some cu"
  shows "net_ok (unlist (cu_nick cu) u (take_out (cu_chan cu) u s))" (is "net_ok ?s")
proof -
  note ok = net_okD [OF assms(1)]
  let ?n = "cu_nick cu" and ?c = "cu_chan cu"
  have nk: "\<exists>nk0. nicks s n = Some nk0 \<and> nk_channels nk = (if n = ?n then remove1 u (nk_channels nk0) else nk_channels nk0)"
    if "nicks ?s n = Some nk" for n nk
    using that by (auto split: if_splits)
  have ch: "\<exists>ch0. chans s c = Some ch0 \<and> ch_users ch = (if c = ?c then remove1 u (ch_users ch0) else ch_users ch0)"
    if "chans ?s c = Some ch" for c ch
    using that by (auto split: if_splits)
  have cu: "v \<noteq> u \<and> cusers s v = Some cv" if "cusers ?s v = Some cv" for v cv
    using that by (auto split: if_splits)
  have keep: "\<exists>cv. cusers ?s v = Some cv \<and> P cv" if "\<exists>cv. cusers s v = Some cv \<and> P cv" "v \<noteq> u" for v P
    using that by auto
  have u_n: "n = ?n" if "nicks s n = Some nk" "u \<in> set (nk_channels nk)" for n nk
    using ok(2) [OF that] assms(2) by auto
  have u_c: "c = ?c" if "chans s c = Some ch" "u \<in> set (ch_users ch)" for c ch
    using ok(4) [OF that] assms(2) by auto
  show ?thesis
  proof (rule net_okI)
    show "distinct (nk_channels nk)" if "nicks ?s n = Some nk" for n nk
      using nk [OF that] ok(1) by (metis distinct_remove1)
    show "\<exists>cv. cusers ?s v = Some cv \<and> cu_nick cv = n" if nv: "nicks ?s n = Some nk" "v \<in> set (nk_channels nk)" for n nk v
    proof -
      obtain nk0 where nk0: "nicks s n = Some nk0" "nk_channels nk = (if n = ?n then remove1 u (nk_channels nk0) else nk_channels nk0)"
        using nk [OF nv(1)] by blast
      have "v \<in> set (nk_channels nk0)" using nk0(2) nv(2) notin_set_remove1 by (metis)
      moreover have "v \<noteq> u" using nk0 nv(2) ok(1) u_n by (auto split: if_splits)
      ultimately show ?thesis using keep [of v "\<lambda>cv. cu_nick cv = n"] ok(2) [OF nk0(1)] by blast
    qed
    show "distinct (ch_users ch)" if "chans ?s c = Some ch" for c ch
      using ch [OF that] ok(3) by (metis distinct_remove1)
    show "\<exists>cv. cusers ?s v = Some cv \<and> cu_chan cv = c" if cv: "chans ?s c = Some ch" "v \<in> set (ch_users ch)" for c ch v
    proof -
      obtain ch0 where ch0: "chans s c = Some ch0" "ch_users ch = (if c = ?c then remove1 u (ch_users ch0) else ch_users ch0)"
        using ch [OF cv(1)] by blast
      have "v \<in> set (ch_users ch0)" using ch0(2) cv(2) notin_set_remove1 by (metis)
      moreover have "v \<noteq> u" using ch0 cv(2) ok(3) u_c by (auto split: if_splits)
      ultimately show ?thesis using keep [of v "\<lambda>x. cu_chan x = c"] ok(4) [OF ch0(1)] by blast
    qed
    show "v < next_id ?s" if "cusers ?s v = Some cv" for v cv
      using cu [OF that] ok(5) by simp
    show "\<exists>nk. nicks ?s (cu_nick cv) = Some nk \<and> v \<in> set (nk_channels nk)" if v: "cusers ?s v = Some cv" for v cv
    proof -
      obtain nk where "nicks s (cu_nick cv) = Some nk" "v \<in> set (nk_channels nk)" using cu [OF v] ok(6) by blast
      then show ?thesis using cu [OF v] by auto
    qed
    show "\<exists>ch. chans ?s (cu_chan cv) = Some ch \<and> v \<in> set (ch_users ch)" if v: "cusers ?s v = Some cv" for v cv
    proof -
      obtain ch where "chans s (cu_chan cv) = Some ch" "v \<in> set (ch_users ch)" using cu [OF v] ok(7) by blast
      then show ?thesis using cu [OF v] by auto
    qed
    show "v = v'" if "cusers ?s v = Some cv" "cusers ?s v' = Some cv'" "cu_nick cv = cu_nick cv'" "cu_chan cv = cu_chan cv'"
      for v v' cv cv'
      using cu [OF that(1)] cu [OF that(2)] ok(8) that(3,4) by blast
  qed
qed

section \<open>Leaving a conversation channel\<close>

text \<open>
  A conversation channel also maps libpurple's chat buddies to channel users: each live, of
  this channel, and under one key only.
\<close>

definition cb_ok :: "net \<Rightarrow> bool" where
  "cb_ok s \<longleftrightarrow> (\<forall>c ch. chans s c = Some ch \<longrightarrow>
     map_wf (ch_cbuddies ch) \<and> distinct (map snd (ch_cbuddies ch)) \<and>
     (ch_class ch = StatusChan \<longrightarrow> ch_cbuddies ch = []) \<and>
     (\<forall>(k, u)\<in>set (ch_cbuddies ch). \<exists>cu. cusers s u = Some cu \<and> cu_chan cu = c))"

definition erase_cb :: "uid \<Rightarrow> (im_cbuddy, uid) smap \<Rightarrow> (im_cbuddy, uid) smap" where
  "erase_cb u m = filter (\<lambda>e. snd e \<noteq> u) m"

definition leave_chan :: "cid \<Rightarrow> uid \<Rightarrow> net \<Rightarrow> net" where
  "leave_chan c u s = upd_chan c (\<lambda>ch. ch\<lparr>ch_cbuddies := erase_cb u (ch_cbuddies ch)\<rparr>) (take_out c u s)"

lemma leave_chan_simps [simp]:
  "nicks (leave_chan c u s) = nicks s" "cusers (leave_chan c u s) = (cusers s)(u := None)"
  "chans (leave_chan c u s) = (chans s)(c := map_option (\<lambda>ch. ch\<lparr>ch_users := remove1 u (ch_users ch),
     ch_cbuddies := erase_cb u (ch_cbuddies ch)\<rparr>) (chans s c))"
  "servs (leave_chan c u s) = servs s" "sock_open (leave_chan c u s) = sock_open s" "out (leave_chan c u s) = out s"
  "next_id (leave_chan c u s) = next_id s" "reg_users (leave_chan c u s) = reg_users s"
  "user_id (leave_chan c u s) = user_id s" "irc_id (leave_chan c u s) = irc_id s"
  "reg_chans (leave_chan c u s) = reg_chans s" "reg_servers (leave_chan c u s) = reg_servers s"
  by (auto simp: leave_chan_def upd_chan_def fun_eq_iff option.map_comp o_def)

lemma skel_leave_chan: "skel (unlist n u ((leave_chan c u s)\<lparr>im_calls := x\<rparr>)) = skel (unlist n u (take_out c u s))"
  by (auto simp: skel_def fun_eq_iff option.map_comp o_def unlist_def upd_nick_def)

lemma net_ok_leave_chan:
  assumes "net_ok s" and "cusers s u = Some cu"
  shows "net_ok (unlist (cu_nick cu) u ((leave_chan (cu_chan cu) u s)\<lparr>im_calls := x\<rparr>))"
  using net_ok_skel [OF skel_leave_chan net_ok_leave [OF assms]] .

lemma cb_okD:
  assumes "cb_ok s" and "chans s c = Some ch"
  shows "distinct (map fst (ch_cbuddies ch))" and "distinct (map snd (ch_cbuddies ch))"
    and "(k, u) \<in> set (ch_cbuddies ch) \<Longrightarrow> \<exists>cu. cusers s u = Some cu \<and> cu_chan cu = c"
    and "ch_class ch = StatusChan \<Longrightarrow> ch_cbuddies ch = []"
    and "map_wf (ch_cbuddies ch)"
  using assms map_wf_distinct unfolding cb_ok_def by blast+

lemma map_wf_filter: "map_wf m \<Longrightarrow> map_wf (filter P m)"
  by (induction m) (auto simp: map_wf_Cons)

lemma cb_ok_leave_chan:
  assumes "cb_ok s" and "cusers s u = Some cu"
  shows "cb_ok (unlist (cu_nick cu) u ((leave_chan (cu_chan cu) u s)\<lparr>im_calls := x\<rparr>))" (is "cb_ok ?s")
  unfolding cb_ok_def
proof (intro allI impI)
  fix c ch assume c: "chans ?s c = Some ch"
  then obtain ch0 where ch0: "chans s c = Some ch0"
    and m: "ch_cbuddies ch = (if c = cu_chan cu then erase_cb u (ch_cbuddies ch0) else ch_cbuddies ch0)"
    and cls: "ch_class ch = ch_class ch0"
    by (auto simp: unlist_def upd_nick_def split: if_splits)
  note ok = cb_okD [OF assms(1) ch0]
  have "\<exists>cv. cusers ?s v = Some cv \<and> cu_chan cv = c" if kv: "(k, v) \<in> set (ch_cbuddies ch)" for k v
  proof -
    have "(k, v) \<in> set (ch_cbuddies ch0)" using kv by (auto simp: m erase_cb_def split: if_splits)
    then obtain cv where cv: "cusers s v = Some cv" "cu_chan cv = c" using ok(3) by blast
    have "v \<noteq> u" using kv cv assms(2) by (auto simp: m erase_cb_def split: if_splits)
    with cv show ?thesis by (simp add: unlist_def upd_nick_def)
  qed
  moreover have "map_wf (ch_cbuddies ch)" "distinct (map snd (ch_cbuddies ch))"
    using ok(2,5) by (auto simp: m erase_cb_def distinct_map_filter map_wf_filter)
  moreover have "ch_class ch = StatusChan \<longrightarrow> ch_cbuddies ch = []"
    using ok(4) by (auto simp: m cls erase_cb_def)
  ultimately show "map_wf (ch_cbuddies ch) \<and> distinct (map snd (ch_cbuddies ch)) \<and>
      (ch_class ch = StatusChan \<longrightarrow> ch_cbuddies ch = []) \<and>
      (\<forall>(k, u)\<in>set (ch_cbuddies ch). \<exists>cu. cusers ?s u = Some cu \<and> cu_chan cu = c)" by blast
qed

text \<open>The search for the nick's entry finds the entry of its channel user, if there is one.\<close>

lemma cb_find_nick_eq:
  assumes "distinct (map fst m)" and "distinct (map snd m)"
    and "\<forall>(k, v)\<in>set m. \<exists>cv. cusers s v = Some cv \<and> (cu_nick cv = n \<longleftrightarrow> v = u)"
  shows "\<exists>r. cb_find_nick s n m = Inr r \<and> (case r of None \<Rightarrow> m | Some k \<Rightarrow> map_erase k m) = erase_cb u m"
  using assms
proof (induction m)
  case Nil
  then show ?case by (simp add: erase_cb_def)
next
  case (Cons e m)
  obtain k v where e: "e = (k, v)" by (cases e)
  obtain cv where cv: "cusers s v = Some cv" "cu_nick cv = n \<longleftrightarrow> v = u" using Cons.prems(3) e by auto
  have keys: "k \<notin> fst ` set m" "v \<notin> snd ` set m" using Cons.prems(1,2) e by auto
  obtain r where r: "cb_find_nick s n m = Inr r" "(case r of None \<Rightarrow> m | Some k \<Rightarrow> map_erase k m) = erase_cb u m"
    using Cons by auto
  show ?case
  proof (cases "v = u")
    case True
    have "map_erase k m = m" using keys(1) by (force simp: map_erase_def filter_id_conv)
    moreover have "erase_cb u m = m" using keys(2) True by (force simp: erase_cb_def filter_id_conv)
    ultimately show ?thesis using True cv by (auto simp: e erase_cb_def map_erase_def)
  next
    case False
    have "k' \<noteq> k" if "r = Some k'" for k'
    proof
      assume "k' = k"
      have "cb_find_nick s n m = Inr (Some k') \<Longrightarrow> k' \<in> fst ` set m" for m
        by (induction m) (auto simp: bindE_Inr_iff split: if_splits)
      with r(1) that keys(1) \<open>k' = k\<close> show False by blast
    qed
    with False cv r show ?thesis
      by (cases r) (auto simp: e erase_cb_def map_erase_def)
  qed
qed

lemma conv_delUser_eq:
  assumes "cb_ok s" and "seat s c n u" and "msg_cmd m \<noteq> [] \<longrightarrow> msg_live s m \<and> msg_live (take_out c u s) m"
    and "\<forall>v cv. cusers s v = Some cv \<and> cu_chan cv = c \<longrightarrow> (cu_nick cv = n \<longleftrightarrow> v = u)"
  shows "\<exists>y. conv_delUser c n m s = Inr ((leave_chan c u s)\<lparr>out := y\<rparr>) \<and> (msg_cmd m = [] \<longrightarrow> y = out s)"
proof -
  obtain ch where ch: "chans s c = Some ch" using assms(2) unfolding seat_def by blast
  have "\<forall>(k, v)\<in>set (ch_cbuddies ch). \<exists>cv. cusers s v = Some cv \<and> (cu_nick cv = n \<longleftrightarrow> v = u)"
    using cb_okD(3) [OF assms(1) ch] assms(4) by blast
  then obtain r where r: "cb_find_nick s n (ch_cbuddies ch) = Inr r"
      "(case r of None \<Rightarrow> ch_cbuddies ch | Some k \<Rightarrow> map_erase k (ch_cbuddies ch)) = erase_cb u (ch_cbuddies ch)"
    using cb_find_nick_eq [OF cb_okD(1,2) [OF assms(1) ch]] by blast
  define s1 where "s1 = upd_chan c (\<lambda>ch. ch\<lparr>ch_cbuddies := erase_cb u (ch_cbuddies ch)\<rparr>) s"
  have s1: "(case r of None \<Rightarrow> s | Some k \<Rightarrow> upd_chan c (\<lambda>ch. ch\<lparr>ch_cbuddies := map_erase k (ch_cbuddies ch)\<rparr>) s) = s1"
    using r(2) ch by (cases r) (auto simp: s1_def upd_chan_def fun_upd_idem)
  have seat: "seat s1 c n u"
    using assms(2) unfolding seat_def by (auto simp: s1_def upd_chan_def)
  have live: "msg_live s1 m = msg_live s m" "msg_live (take_out c u s1) m = msg_live (take_out c u s) m"
    using ch by (auto simp: s1_def upd_chan_def take_out_def msg_live_def stored_live_def ent_live_def
        split: option.split entity.split)
  have "take_out c u s1 = leave_chan c u s"
    using ch by (cases ch) (simp add: s1_def take_out_def leave_chan_def upd_chan_def)
  moreover have "out s1 = out s" by (simp add: s1_def upd_chan_def)
  ultimately show ?thesis
    using Channel_delUser_eq [OF seat, of m] assms(3) live ch r(1) s1 by (auto simp: conv_delUser_def)
qed

section \<open>Quitting the network\<close>

definition nicks_on :: "net \<Rightarrow> uid list \<Rightarrow> nid set" where
  "nicks_on s us = {x. \<exists>v\<in>set us. \<exists>cv. cusers s v = Some cv \<and> cu_nick cv = x}"

text \<open>The nicks that share a channel with \<open>n\<close>, itself included.\<close>

definition peers :: "net \<Rightarrow> nid \<Rightarrow> nid set" where
  "peers s n = {x. \<exists>nk u cu ch. nicks s n = Some nk \<and> u \<in> set (nk_channels nk) \<and> cusers s u = Some cu \<and>
     chans s (cu_chan cu) = Some ch \<and> x \<in> nicks_on s (ch_users ch)}"

definition written :: "net \<Rightarrow> irc_msg \<Rightarrow> nid list \<Rightarrow> string list" where
  "written s m xs = concat (map (\<lambda>x. if writes s x then [line_of s m] else []) xs)"

lemma written_simps [simp]:
  "written s m [] = []" "written s m (x # xs) = (if writes s x then [line_of s m] else []) @ written s m xs"
  "written (s\<lparr>out := y\<rparr>) m xs = written s m xs"
  by (simp_all add: written_def cong: if_cong)

lemma quit_notify_eq:
  assumes "all_live s us" and "msg_live s m" and "distinct sd"
  shows "\<exists>new. foldE (quit_notify m) us (sd, s) = Inr (sd @ new, s\<lparr>out := out s @ written s m new\<rparr>) \<and>
    distinct (sd @ new) \<and> set (sd @ new) = set sd \<union> nicks_on s us"
  using assms
proof (induction us arbitrary: sd s)
  case Nil
  then show ?case by (intro exI [of _ "[]"]) (simp add: nicks_on_def)
next
  case (Cons v us)
  obtain cv where cv: "cusers s v = Some cv" "nicks s (cu_nick cv) \<noteq> None"
    using Cons.prems(1) by (auto simp: all_live_def)
  have live: "all_live s us" using Cons.prems(1) by (simp add: all_live_def)
  show ?case
  proof (cases "cu_nick cv \<in> set sd")
    case True
    then have "quit_notify m v (sd, s) = Inr (sd, s)" using cv by (simp add: quit_notify_def)
    moreover have "set sd \<union> nicks_on s (v # us) = set sd \<union> nicks_on s us"
      using True cv by (auto simp: nicks_on_def)
    ultimately show ?thesis using Cons.IH [OF live Cons.prems(2,3)] by simp
  next
    case False
    define s1 where "s1 = s\<lparr>out := out s @ written s m [cu_nick cv]\<rparr>"
    have "quit_notify m v (sd, s) = Inr (sd @ [cu_nick cv], s1)"
      using False cv deliver_eq [OF cv(2) Cons.prems(2)] by (simp add: quit_notify_def s1_def)
    moreover have "all_live s1 us" "msg_live s1 m" using live Cons.prems(2) by (simp_all add: s1_def all_live_def)
    then obtain new where new: "foldE (quit_notify m) us (sd @ [cu_nick cv], s1) =
          Inr ((sd @ [cu_nick cv]) @ new, s1\<lparr>out := out s1 @ written s1 m new\<rparr>)"
        "distinct ((sd @ [cu_nick cv]) @ new)" "set ((sd @ [cu_nick cv]) @ new) = set (sd @ [cu_nick cv]) \<union> nicks_on s1 us"
      using Cons.IH [of s1 "sd @ [cu_nick cv]"] False Cons.prems(3) by auto
    moreover have "s1\<lparr>out := out s1 @ written s1 m new\<rparr> = s\<lparr>out := out s @ written s m (cu_nick cv # new)\<rparr>"
      by (simp add: s1_def)
    moreover have "set (sd @ [cu_nick cv]) \<union> nicks_on s1 us = set sd \<union> nicks_on s (v # us)"
      using cv by (auto simp: nicks_on_def s1_def)
    ultimately show ?thesis by (intro exI [of _ "cu_nick cv # new"]) simp
  qed
qed

text \<open>
  What \<open>Nick::quit\<close> relies on: the channel's \<open>delUser\<close> takes the nick's channel user out and
  leaves the nick alone. \<open>applic\<close> says for which nicks the promise holds.
\<close>

locale departure =
  fixes del :: "cid \<Rightarrow> nid \<Rightarrow> net \<Rightarrow> exn + net"
    and applic :: "net \<Rightarrow> nid \<Rightarrow> bool"
  assumes del_leaves: "net_ok s \<Longrightarrow> cb_ok s \<Longrightarrow> cusers s u = Some cu \<Longrightarrow> applic s (cu_nick cu) \<Longrightarrow>
      \<exists>x. del (cu_chan cu) (cu_nick cu) s = Inr ((leave_chan (cu_chan cu) u s)\<lparr>im_calls := x\<rparr>)"
    and applic_leave: "applic s n \<Longrightarrow> applic (unlist n u ((leave_chan c u s)\<lparr>im_calls := x\<rparr>)) n"
    and applic_out: "applic s n \<Longrightarrow> applic (s\<lparr>out := y\<rparr>) n"
begin

text \<open>One round of the loop: everybody new on the channel hears of it, the channel user is gone.\<close>

lemma quit_round:
  assumes "net_ok s" and "cb_ok s" and "cusers s u = Some cu" and "chans s (cu_chan cu) = Some ch"
    and "applic s (cu_nick cu)" and "msg_live s m" and "distinct sd"
  shows "\<exists>new x. quit_step del (cu_nick cu) m u (sd, s) =
      Inr (sd @ new, unlist (cu_nick cu) u ((leave_chan (cu_chan cu) u (s\<lparr>out := out s @ written s m new\<rparr>))\<lparr>im_calls := x\<rparr>)) \<and>
    distinct (sd @ new) \<and> set (sd @ new) = set sd \<union> nicks_on s (ch_users ch)"
proof -
  obtain new where new: "foldE (quit_notify m) (ch_users ch) (sd, s) = Inr (sd @ new, s\<lparr>out := out s @ written s m new\<rparr>)"
      "distinct (sd @ new)" "set (sd @ new) = set sd \<union> nicks_on s (ch_users ch)"
    using quit_notify_eq [OF net_ok_all_live [OF assms(1,4)] assms(6,7)] by blast
  let ?s1 = "s\<lparr>out := out s @ written s m new\<rparr>"
  have "net_ok ?s1" using assms(1) by (rule net_ok_skel [rotated]) (simp add: skel_def)
  moreover have "cb_ok ?s1" using assms(2) by (simp add: cb_ok_def)
  ultimately obtain x where x: "del (cu_chan cu) (cu_nick cu) ?s1 = Inr ((leave_chan (cu_chan cu) u ?s1)\<lparr>im_calls := x\<rparr>)"
    using del_leaves [of ?s1 u cu] assms(3,5) applic_out by auto
  obtain nk where "nicks s (cu_nick cu) = Some nk" using net_okD(6) [OF assms(1,3)] by blast
  then have "quit_step del (cu_nick cu) m u (sd, s) =
      Inr (sd @ new, unlist (cu_nick cu) u ((leave_chan (cu_chan cu) u ?s1)\<lparr>im_calls := x\<rparr>))"
    using assms(3,4) new(1) x by (simp add: quit_step_def unlist_def)
  with new(2,3) show ?thesis by blast
qed

end

text \<open>What the membership operations leave alone.\<close>

definition frame :: "net \<Rightarrow> _" where
  "frame s = (servs s, next_id s, reg_users s, reg_chans s, reg_servers s, dccs s, (user_id s, irc_id s, sock_open s),
     (conv_ui s, conv_chan s, buddy_ui s), timers s,
     \<lambda>c. map_option (\<lambda>ch. (ch_name ch, ch_topic ch, ch_class ch, ch_accounts ch, ch_conv ch, ch_queue ch)) (chans s c))"

lemma frame_leave: "frame (unlist n u ((leave_chan c u s)\<lparr>im_calls := x\<rparr>)) = frame s"
  by (auto simp: frame_def fun_eq_iff option.map_comp o_def unlist_def upd_nick_def leave_chan_def take_out_def upd_chan_def)

lemma frame_out [simp]: "frame (s\<lparr>out := y\<rparr>) = frame s"
  by (simp add: frame_def)

lemma writes_leave: "writes (unlist n u ((leave_chan c u s)\<lparr>im_calls := x\<rparr>)) k = writes s k"
  by (auto simp: writes_def unlist_def upd_nick_def split: option.split)

lemma line_of_leave:
  assumes "msg_sender m = setEntity (Some (ENick n))" and "msg_receiver m = setEntity None"
  shows "line_of (unlist n u ((leave_chan c u s)\<lparr>im_calls := x\<rparr>)) m = line_of s m"
  using assms by (auto simp: line_of_def format_def isSet_def setEntity_def stored_name_def ent_longname_def
      unlist_def upd_nick_def nick_longname_def split: option.split)

lemma written_leave:
  assumes "msg_sender m = setEntity (Some (ENick n))" and "msg_receiver m = setEntity None"
  shows "written (unlist n u ((leave_chan c u s)\<lparr>im_calls := x\<rparr>)) m xs = written s m xs"
  by (simp add: written_def writes_leave line_of_leave [OF assms] cong: if_cong)

lemma peers_iff:
  "nicks s n = Some nk \<Longrightarrow> x \<in> peers s n \<longleftrightarrow> (\<exists>v\<in>set (nk_channels nk). \<exists>cv ch'. cusers s v = Some cv \<and>
    chans s (cu_chan cv) = Some ch' \<and> x \<in> nicks_on s (ch_users ch'))"
  by (auto simp: peers_def)

lemma peers_leave:
  assumes "net_ok s" and "nicks s n = Some nk" and "nk_channels nk = u # us"
    and "cusers s u = Some cu" and "chans s (cu_chan cu) = Some ch"
  shows "peers s n = nicks_on s (ch_users ch) \<union> peers (unlist n u ((leave_chan (cu_chan cu) u s)\<lparr>im_calls := x\<rparr>)) n"
    (is "_ = _ \<union> peers ?s n")
proof -
  note ok = net_okD [OF assms(1)]
  have n: "cu_nick cu = n" using ok(2) [OF assms(2), of u] assms(3,4) by auto
  have u: "u \<notin> set us" using ok(1) [OF assms(2)] assms(3) by simp
  have nk': "nicks ?s n = Some (nk\<lparr>nk_channels := us\<rparr>)"
    using assms(2,3) by (simp add: unlist_def upd_nick_def)
  have listed: "nk_channels (nk\<lparr>nk_channels := us\<rparr>) = us" by simp
  have other: "cu_chan cv \<noteq> cu_chan cu \<and> cusers ?s v = Some cv \<and> chans ?s (cu_chan cv) = chans s (cu_chan cv)
      \<and> (\<forall>ch'. chans s (cu_chan cv) = Some ch' \<longrightarrow> nicks_on ?s (ch_users ch') = nicks_on s (ch_users ch'))"
    if v: "v \<in> set us" "cusers s v = Some cv" for v cv
  proof -
    have "cu_nick cv = n" using ok(2) [OF assms(2), of v] v assms(3) by auto
    then have c: "cu_chan cv \<noteq> cu_chan cu" using ok(8) [OF v(2) assms(4)] n u v(1) by auto
    have "u \<notin> set (ch_users ch')" if "chans s (cu_chan cv) = Some ch'" for ch'
      using ok(4) [OF that, of u] assms(4) c by auto
    then have "nicks_on ?s (ch_users ch') = nicks_on s (ch_users ch')" if "chans s (cu_chan cv) = Some ch'" for ch'
      using that by (auto simp: nicks_on_def unlist_def upd_nick_def intro!: Collect_cong bex_cong)
    with c v u show ?thesis by (auto simp: unlist_def upd_nick_def)
  qed
  have "x \<in> peers s n \<longleftrightarrow> x \<in> nicks_on s (ch_users ch) \<or> x \<in> peers ?s n" for x
  proof -
    have "x \<in> peers s n \<longleftrightarrow> x \<in> nicks_on s (ch_users ch) \<or>
        (\<exists>v\<in>set us. \<exists>cv ch'. cusers s v = Some cv \<and> chans s (cu_chan cv) = Some ch' \<and> x \<in> nicks_on s (ch_users ch'))"
      unfolding peers_iff [OF assms(2)] assms(3) using assms(4,5) by auto
    also have "(\<exists>v\<in>set us. \<exists>cv ch'. cusers s v = Some cv \<and> chans s (cu_chan cv) = Some ch' \<and> x \<in> nicks_on s (ch_users ch'))
        \<longleftrightarrow> (\<exists>v\<in>set us. \<exists>cv ch'. cusers ?s v = Some cv \<and> chans ?s (cu_chan cv) = Some ch' \<and> x \<in> nicks_on ?s (ch_users ch'))"
    proof (intro bex_cong refl iffI; elim exE conjE)
      fix v cv ch' assume v: "v \<in> set us" "cusers s v = Some cv" "chans s (cu_chan cv) = Some ch'" "x \<in> nicks_on s (ch_users ch')"
      then show "\<exists>cv ch'. cusers ?s v = Some cv \<and> chans ?s (cu_chan cv) = Some ch' \<and> x \<in> nicks_on ?s (ch_users ch')"
        using other [OF v(1,2)] by metis
    next
      fix v cv ch' assume v: "v \<in> set us" "cusers ?s v = Some cv" "chans ?s (cu_chan cv) = Some ch'" "x \<in> nicks_on ?s (ch_users ch')"
      have cv: "cusers s v = Some cv" using v(1,2) u by (auto simp: unlist_def upd_nick_def split: if_splits)
      note o = other [OF v(1) cv]
      have "chans s (cu_chan cv) = Some ch'" using o v(3) by argo
      moreover from this have "x \<in> nicks_on s (ch_users ch')" using o v(4) by blast
      ultimately show "\<exists>cv ch'. cusers s v = Some cv \<and> chans s (cu_chan cv) = Some ch' \<and> x \<in> nicks_on s (ch_users ch')"
        using cv by blast
    qed
    also have "\<dots> \<longleftrightarrow> x \<in> peers ?s n" by (simp only: peers_iff [OF nk'] listed)
    finally show ?thesis .
  qed
  then show ?thesis by blast
qed

context departure
begin

lemma quit_loop:
  assumes "net_ok s" and "cb_ok s" and "nicks s n = Some nk" and "applic s n" and "distinct sd"
    and m: "msg_sender m = setEntity (Some (ENick n))" "msg_receiver m = setEntity None"
  shows "\<exists>new s'. foldE (quit_step del n m) (nk_channels nk) (sd, s) = Inr (sd @ new, s') \<and> net_ok s' \<and> cb_ok s' \<and>
    frame s' = frame s \<and> nicks s' = (nicks s)(n \<mapsto> nk\<lparr>nk_channels := []\<rparr>) \<and>
    distinct (sd @ new) \<and> set (sd @ new) = set sd \<union> peers s n \<and> out s' = out s @ written s m new"
  using assms(1-5)
proof (induction "nk_channels nk" arbitrary: s nk sd)
  case Nil
  then have "nicks s = (nicks s)(n \<mapsto> nk\<lparr>nk_channels := []\<rparr>)" by (cases nk) (auto simp: fun_eq_iff)
  moreover have "peers s n = {}" using Nil by (auto simp: peers_def)
  ultimately show ?case using Nil
    by (intro exI [of _ "[]"] exI [of _ s]) (simp del: fun_upd_apply)
next
  case (Cons u us)
  note ok = net_okD [OF Cons.prems(1)]
  have u: "nk_channels nk = u # us" using Cons.hyps(2) by simp
  obtain cu where cu: "cusers s u = Some cu" "cu_nick cu = n" using ok(2) [OF Cons.prems(3), of u] u by auto
  obtain ch where ch: "chans s (cu_chan cu) = Some ch" using ok(7) [OF cu(1)] by blast
  have "msg_live s m" using Cons.prems(3) msg_live_setEntity [OF m] by (simp add: ent_live_def)
  then obtain new x where step: "quit_step del n m u (sd, s) =
        Inr (sd @ new, unlist n u ((leave_chan (cu_chan cu) u (s\<lparr>out := out s @ written s m new\<rparr>))\<lparr>im_calls := x\<rparr>))"
      "distinct (sd @ new)" "set (sd @ new) = set sd \<union> nicks_on s (ch_users ch)"
    using quit_round [OF Cons.prems(1,2) cu(1) ch, of m sd] Cons.prems(4,5) cu(2) by auto
  define s0 where "s0 = s\<lparr>out := out s @ written s m new\<rparr>"
  define s1 where "s1 = unlist n u ((leave_chan (cu_chan cu) u s0)\<lparr>im_calls := x\<rparr>)"
  have s0: "net_ok s0" "cb_ok s0" "cusers s0 u = Some cu" "applic s0 n" "nicks s0 n = Some nk" "chans s0 (cu_chan cu) = Some ch"
    using Cons.prems cu ch applic_out net_ok_skel [of s0 s] by (auto simp: s0_def cb_ok_def skel_def)
  have ok1: "net_ok s1" "cb_ok s1" "applic s1 n" "distinct (sd @ new)"
    using net_ok_leave_chan [OF s0(1,3)] cb_ok_leave_chan [OF s0(2,3)] applic_leave [OF s0(4)] cu(2) step(2)
    by (simp_all add: s1_def)
  have nk1: "nicks s1 n = Some (nk\<lparr>nk_channels := us\<rparr>)" using s0(5) u by (simp add: s1_def unlist_def upd_nick_def)
  have "us = nk_channels (nk\<lparr>nk_channels := us\<rparr>)" by simp
  from Cons.hyps(1) [OF this ok1(1,2) nk1 ok1(3,4)] obtain new2 s' where r:
      "foldE (quit_step del n m) us (sd @ new, s1) = Inr ((sd @ new) @ new2, s')" "net_ok s'" "cb_ok s'"
      "frame s' = frame s1" "nicks s' = (nicks s1)(n \<mapsto> nk\<lparr>nk_channels := []\<rparr>)"
      "distinct ((sd @ new) @ new2)" "set ((sd @ new) @ new2) = set (sd @ new) \<union> peers s1 n"
      "out s' = out s1 @ written s1 m new2" by auto
  have "nicks s' = (nicks s)(n \<mapsto> nk\<lparr>nk_channels := []\<rparr>)"
    using r(5) by (auto simp: s1_def s0_def unlist_def upd_nick_def)
  moreover have "peers s n = nicks_on s (ch_users ch) \<union> peers s1 n"
    using peers_leave [OF s0(1,5) u s0(3,6)] by (simp add: s1_def s0_def peers_def nicks_on_def)
  moreover have "frame s1 = frame s" using frame_leave by (simp add: s1_def s0_def)
  moreover have "out s1 = out s @ written s m new" by (simp add: s1_def s0_def)
  moreover have "written s1 m new2 = written s m new2" using written_leave [OF m] by (simp add: s1_def s0_def)
  ultimately have "foldE (quit_step del n m) (nk_channels nk) (sd, s) = Inr (sd @ new @ new2, s') \<and> net_ok s' \<and> cb_ok s' \<and>
    frame s' = frame s \<and> nicks s' = (nicks s)(n \<mapsto> nk\<lparr>nk_channels := []\<rparr>) \<and>
    distinct (sd @ new @ new2) \<and> set (sd @ new @ new2) = set sd \<union> peers s n \<and> out s' = out s @ written s m (new @ new2)"
    using r step by (auto simp: u s1_def s0_def written_def)
  then show ?case by blast
qed

lemma quit_spec:
  assumes "net_ok s" and "cb_ok s" and "nicks s n = Some nk" and "applic s n"
  shows "\<exists>seen s' m. mk_msg ''QUIT'' (Some (ENick n)) None [text] = Inr m \<and> quit_with del n text s = Inr s' \<and>
    net_ok s' \<and> cb_ok s' \<and> frame s' = frame s \<and> nicks s' = (nicks s)(n \<mapsto> nk\<lparr>nk_channels := []\<rparr>) \<and>
    distinct seen \<and> set seen = peers s n \<and> out s' = out s @ written s m seen"
proof -
  obtain m where m: "mk_msg ''QUIT'' (Some (ENick n)) None [text] = Inr m"
      "msg_sender m = setEntity (Some (ENick n))" "msg_receiver m = setEntity None"
    by (auto simp: mk_msg_eq)
  from quit_loop [OF assms _ m(2,3), of "[]"] m(1) assms(3) show ?thesis
    by (fastforce simp: quit_with_def)
qed

end

section \<open>Deleting a nick\<close>

lemma net_ok_unique:
  assumes "net_ok s" and "cusers s u = Some cu"
  shows "\<forall>v cv. cusers s v = Some cv \<and> cu_chan cv = cu_chan cu \<longrightarrow> (cu_nick cv = cu_nick cu \<longleftrightarrow> v = u)"
  using net_okD(8) [OF assms(1)] assms(2) by auto

lemma out_idem: "y = out s \<Longrightarrow> s\<lparr>out := y\<rparr> = s"
  by simp

lemma Channel_delUser_status:
  assumes "net_ok s" and "cb_ok s" and "cusers s u = Some cu" and "chans s (cu_chan cu) = Some ch" and "ch_class ch = StatusChan"
  shows "Channel_delUser (cu_chan cu) (cu_nick cu) (Message []) s = Inr (leave_chan (cu_chan cu) u s)"
proof -
  have "ch_cbuddies ch = []" using cb_okD(4) [OF assms(2,4,5)] .
  then have "leave_chan (cu_chan cu) u s = take_out (cu_chan cu) u s"
    using assms(4) by (cases ch) (simp add: leave_chan_def take_out_def upd_chan_def erase_cb_def)
  moreover have "msg_cmd (Message [] :: irc_msg) = []" by (simp add: Message_def)
  ultimately show ?thesis
    using Channel_delUser_eq [OF net_ok_seat [OF assms(1,3)], of "Message []"] out_idem
    by (metis take_out_simps(6))
qed

lemma conv_delUser_silent:
  assumes "net_ok s" and "cb_ok s" and "cusers s u = Some cu"
  shows "conv_delUser (cu_chan cu) (cu_nick cu) (Message []) s = Inr (leave_chan (cu_chan cu) u s)"
proof -
  have "msg_cmd (Message [] :: irc_msg) = []" by (simp add: Message_def)
  with conv_delUser_eq [OF assms(2) net_ok_seat [OF assms(1,3)] _ net_ok_unique [OF assms(1,3)], of "Message []"]
  show ?thesis using out_idem by (metis leave_chan_simps(6))
qed

interpretation dying: departure delUser_dying "\<lambda>_ _. True"
proof
  fix s u cu assume ok: "net_ok s" "cb_ok s" "cusers s u = Some cu"
  obtain ch where ch: "chans s (cu_chan cu) = Some ch" using net_okD(7) [OF ok(1,3)] by blast
  show "\<exists>x. delUser_dying (cu_chan cu) (cu_nick cu) s = Inr ((leave_chan (cu_chan cu) u s)\<lparr>im_calls := x\<rparr>)"
  proof (cases "ch_class ch")
    case StatusChan
    with Channel_delUser_status [OF ok ch] ch show ?thesis
      by (auto simp: delUser_dying_def intro!: exI [of _ "im_calls (leave_chan (cu_chan cu) u s)"])
  next
    case ConvChan
    let ?l = "leave_chan (cu_chan cu) u s"
    have "delUser_dying (cu_chan cu) (cu_nick cu) s =
        Inr (?l\<lparr>im_calls := im_calls ?l @ (if cu_nick cu = user_id s then [Leave (ch_conv ch)] else [])\<rparr>)"
      using ConvChan conv_delUser_silent [OF ok] ch by (simp add: delUser_dying_def im_do_def)
    then show ?thesis by blast
  qed
qed simp_all

lemma setConversation_eq:
  assumes "nicks s n = Some nk"
  shows "\<exists>f. setConversation n v s = Inr (s\<lparr>conv_ui := f, nicks := (nicks s)(n \<mapsto> nk\<lparr>nk_conv := v\<rparr>)\<rparr>)"
proof -
  let ?f = "case (nk_class nk, nk_conv nk) of
      (CBuddy b, Some w) \<Rightarrow> if conv_ui s w = Some n then (conv_ui s)(w := None) else conv_ui s | _ \<Rightarrow> conv_ui s"
  have "setConversation n v s = Inr (s\<lparr>conv_ui := ?f, nicks := (nicks s)(n \<mapsto> nk\<lparr>nk_conv := v\<rparr>)\<rparr>)"
    using assms by (simp add: setConversation_def upd_nick_def Let_def split: nick_class.split option.split)
  then show ?thesis by blast
qed

text \<open>The derived destructors clear references into libpurple; the heaps keep their shape.\<close>

definition dtor_shape :: "net \<Rightarrow> nid \<Rightarrow> nick \<Rightarrow> net \<Rightarrow> bool" where
  "dtor_shape s n nk s' \<longleftrightarrow> (\<exists>f g v. s' = s\<lparr>conv_ui := f, nicks := (nicks s)(n \<mapsto> nk\<lparr>nk_conv := v\<rparr>), buddy_ui := g\<rparr>)"

lemma dtor_shape_refl: "nicks s n = Some nk \<Longrightarrow> dtor_shape s n nk s"
  unfolding dtor_shape_def
  by (intro exI [of _ "conv_ui s"] exI [of _ "buddy_ui s"] exI [of _ "nk_conv nk"]) (simp add: fun_upd_idem)

lemma nick_dtor_eq:
  assumes "nicks s n = Some nk"
  shows "\<exists>s'. nick_dtor n s = Inr s' \<and> dtor_shape s n nk s'"
proof -
  have set: "\<exists>s'. bindE (setConversation n None (s\<lparr>conv_ui := h\<rparr>)) (\<lambda>s1. Inr (s1\<lparr>buddy_ui := k s1\<rparr>)) = Inr s' \<and> dtor_shape s n nk s'" for h k
  proof -
    obtain f where "setConversation n None (s\<lparr>conv_ui := h\<rparr>) = Inr (s\<lparr>conv_ui := f, nicks := (nicks s)(n \<mapsto> nk\<lparr>nk_conv := None\<rparr>)\<rparr>)"
      using setConversation_eq [of "s\<lparr>conv_ui := h\<rparr>" n nk None] assms by auto
    then show ?thesis unfolding dtor_shape_def by (simp only: bindE_simps sum.inject) blast
  qed
  have plain: "\<exists>s'. setConversation n None (s\<lparr>conv_ui := h\<rparr>) = Inr s' \<and> dtor_shape s n nk s'" for h
    using set [of h buddy_ui] by (cases "setConversation n None (s\<lparr>conv_ui := h\<rparr>)") simp_all
  have buddy: "\<exists>s'. bindE (setConversation n None s) (\<lambda>s1. Inr (s1\<lparr>buddy_ui := k s1\<rparr>)) = Inr s' \<and> dtor_shape s n nk s'" for k
    using set [of "conv_ui s"] by simp
  show ?thesis
    using assms dtor_shape_refl [OF assms] plain buddy [of "\<lambda>s1. (buddy_ui s1)(_ := None)"]
    by (auto simp: nick_dtor_def split: nick_class.split option.split)
qed

text \<open>What deleting a nick leaves alone.\<close>

definition core :: "net \<Rightarrow> _" where
  "core s = (servs s, next_id s, reg_users s, reg_chans s, reg_servers s, dccs s, (user_id s, irc_id s, sock_open s),
     conv_chan s, timers s,
     \<lambda>c. map_option (\<lambda>ch. (ch_name ch, ch_topic ch, ch_class ch, ch_accounts ch, ch_conv ch, ch_queue ch)) (chans s c))"

lemma core_frame: "frame s' = frame s \<Longrightarrow> core s' = core s"
  by (simp add: frame_def core_def)

lemma net_ok_forget:
  assumes "net_ok s" and "nicks s n = Some nk" and "nk_channels nk = []"
  shows "net_ok (s\<lparr>nicks := (nicks s)(n := None)\<rparr>)" (is "net_ok ?s")
proof -
  note ok = net_okD [OF assms(1)]
  have other: "cu_nick cu \<noteq> n" if "cusers s u = Some cu" for u cu
    using ok(6) [OF that] assms(2,3) by auto
  show ?thesis
  proof (rule net_okI)
    show "\<exists>nk. nicks ?s (cu_nick cu) = Some nk \<and> u \<in> set (nk_channels nk)" if "cusers ?s u = Some cu" for u cu
      using that ok(6) [of u cu] other [of u cu] by simp
  qed (use ok in \<open>auto split: if_splits\<close>)
qed

lemma delete_nick_spec:
  assumes "net_ok s" and "cb_ok s" and "nicks s n = Some nk"
  shows "\<exists>s'. delete_nick n s = Inr s' \<and> net_ok s' \<and> cb_ok s' \<and> nicks s' = (nicks s)(n := None) \<and> core s' = core s"
proof -
  obtain s1 where s1: "nick_dtor n s = Inr s1" "dtor_shape s n nk s1" using nick_dtor_eq [OF assms(3)] by blast
  define s2 where "s2 = upd_nick n (\<lambda>nk. nk\<lparr>nk_class := CNick\<rparr>) s1"
  obtain f g v where "s1 = s\<lparr>conv_ui := f, nicks := (nicks s)(n \<mapsto> nk\<lparr>nk_conv := v\<rparr>), buddy_ui := g\<rparr>"
    using s1(2) unfolding dtor_shape_def by blast
  then have s2: "skel s2 = skel s" "cb_ok s2" "core s2 = core s"
      "nicks s2 = (nicks s)(n \<mapsto> nk\<lparr>nk_conv := v, nk_class := CNick\<rparr>)"
    using assms(2,3) by (auto simp: s2_def upd_nick_def skel_def core_def cb_ok_def)
  have "\<exists>s3. quit_with delUser_dying n ''*.net *.split'' s2 = Inr s3 \<and> net_ok s3 \<and> cb_ok s3 \<and> frame s3 = frame s2 \<and>
      nicks s3 = (nicks s2)(n \<mapsto> nk\<lparr>nk_conv := v, nk_class := CNick, nk_channels := []\<rparr>)"
    using dying.quit_spec [OF net_ok_skel [OF s2(1) assms(1)] s2(2), of n "nk\<lparr>nk_conv := v, nk_class := CNick\<rparr>" "''*.net *.split''"] s2(4)
    by auto
  then obtain s3 where s3: "quit_with delUser_dying n ''*.net *.split'' s2 = Inr s3" "net_ok s3" "cb_ok s3"
      "frame s3 = frame s2" "nicks s3 = (nicks s2)(n \<mapsto> nk\<lparr>nk_conv := v, nk_class := CNick, nk_channels := []\<rparr>)" by blast
  let ?s = "s3\<lparr>nicks := (nicks s3)(n := None)\<rparr>"
  have "nicks s3 n = Some (nk\<lparr>nk_conv := v, nk_class := CNick, nk_channels := []\<rparr>)" using s3(5) by simp
  then have "net_ok ?s" by (rule net_ok_forget [OF s3(2)]) simp
  moreover have "cb_ok ?s" using s3(3) by (simp add: cb_ok_def)
  moreover have "core ?s = core s" using core_frame [OF s3(4)] s2(3) by (simp add: core_def)
  moreover have "nicks ?s = (nicks s)(n := None)" using s3(5) s2(4) by auto
  moreover have "delete_nick n s = Inr ?s" using s1(1) s3(1) by (simp add: delete_nick_def s2_def)
  ultimately show ?thesis by blast
qed

text \<open>The registry: names and nicks correspond, servers list the nicks they have.\<close>

definition reg_ok :: "net \<Rightarrow> bool" where
  "reg_ok s \<longleftrightarrow> map_wf (reg_users s) \<and>
     (\<forall>nm n. map_find (reg_users s) nm = Some n \<longleftrightarrow> (\<exists>nk. nicks s n = Some nk \<and> nk_name nk = nm)) \<and>
     (\<forall>n nk. nicks s n = Some nk \<longrightarrow> (\<exists>sv. servs s (nk_server nk) = Some sv))"

definition servers_ok :: "net \<Rightarrow> bool" where
  "servers_ok s \<longleftrightarrow> (\<forall>i sv. servs s i = Some sv \<longrightarrow> distinct (sv_users sv) \<and>
     (\<forall>n. n \<in> set (sv_users sv) \<longleftrightarrow> (\<exists>nk. nicks s n = Some nk \<and> nk_server nk = i)))"

lemma removeNick_spec:
  assumes "net_ok s" and "cb_ok s" and "reg_ok s" and "map_find (reg_users s) nm = Some n" and "nicks s n = Some nk"
  shows "\<exists>s'. removeNick nm s = Inr s' \<and> net_ok s' \<and> cb_ok s' \<and> nicks s' = (nicks s)(n := None) \<and>
    reg_users s' = map_erase nm (reg_users s) \<and>
    servs s' = (servs s)(nk_server nk := map_option (Server_removeNick n) (servs s (nk_server nk))) \<and>
    dccs s' = detach_dccs n (dccs s) \<and>
    core s' = core (s\<lparr>servs := servs s', reg_users := reg_users s', dccs := dccs s'\<rparr>)"
proof -
  obtain sv where sv: "servs s (nk_server nk) = Some sv" using assms(3,5) unfolding reg_ok_def by blast
  define s1 where "s1 = upd_serv (nk_server nk) (Server_removeNick n) (s\<lparr>dccs := detach_dccs n (dccs s)\<rparr>)"
  have "net_ok s1" using net_ok_skel [OF _ assms(1), of s1] by (simp add: s1_def skel_def upd_serv_def)
  moreover have "cb_ok s1" using assms(2) by (simp add: s1_def cb_ok_def upd_serv_def)
  moreover have "nicks s1 n = Some nk" using assms(5) by (simp add: s1_def upd_serv_def)
  ultimately obtain s2 where s2: "delete_nick n s1 = Inr s2" "net_ok s2" "cb_ok s2" "nicks s2 = (nicks s1)(n := None)" "core s2 = core s1"
    using delete_nick_spec by blast
  define s' where "s' = s2\<lparr>reg_users := map_erase nm (reg_users s2)\<rparr>"
  have "removeNick nm s = Inr s'" using assms(4,5) sv s2(1) by (simp add: removeNick_def s1_def s'_def)
  moreover have "net_ok s'" using net_ok_skel [OF _ s2(2), of s'] by (simp add: s'_def skel_def)
  moreover have "cb_ok s'" using s2(3) by (simp add: s'_def cb_ok_def)
  moreover have "servs s2 = servs s1" "reg_users s2 = reg_users s1" "dccs s2 = dccs s1" using s2(5) by (simp_all add: core_def)
  moreover have "core s' = core (s1\<lparr>reg_users := map_erase nm (reg_users s1)\<rparr>)"
    using s2(5) by (simp add: s'_def core_def)
  ultimately show ?thesis
    by (intro exI [of _ s']) (simp add: s'_def s2(4) s1_def upd_serv_def core_def)
qed

section \<open>Joining a channel\<close>

text \<open>
  The names the replies are built from have no spaces, the user is the one nick with a socket,
  the user and the server object are alive, and the numbers of new objects are not in use.
\<close>

definition env_ok :: "net \<Rightarrow> bool" where
  "env_ok s \<longleftrightarrow>
     (\<forall>n nk. nicks s n = Some nk \<longrightarrow> \<not> has_space (nk_name nk) \<and> (nk_class nk = CUser \<longleftrightarrow> n = user_id s) \<and> n < next_id s) \<and>
     (\<forall>c ch. chans s c = Some ch \<longrightarrow> \<not> has_space (ch_name ch) \<and> c < next_id s) \<and>
     nicks s (user_id s) \<noteq> None \<and> servs s (irc_id s) \<noteq> None"

lemma env_okD:
  assumes "env_ok s"
  shows "nicks s n = Some nk \<Longrightarrow> \<not> has_space (nk_name nk)"
    and "nicks s n = Some nk \<Longrightarrow> nk_class nk = CUser \<longleftrightarrow> n = user_id s"
    and "chans s c = Some ch \<Longrightarrow> \<not> has_space (ch_name ch)"
    and "nicks s (user_id s) \<noteq> None" and "servs s (irc_id s) \<noteq> None"
    and "nicks s n = Some nk \<Longrightarrow> n < next_id s" and "chans s c = Some ch \<Longrightarrow> c < next_id s"
  using assms unfolding env_ok_def by blast+

lemma getModeMessage_ok:
  assumes "cusers s u = Some cu" and "nicks s (cu_nick cu) = Some nk" and "\<not> has_space (nk_name nk)"
  shows "\<exists>m. getModeMessage w s u add modes = Inr m \<and> msg_cmd m = ''MODE''"
proof -
  define sel where "sel = filter (\<lambda>(m, c, p). m AND (if modes = 0 then cu_status cu else modes) \<noteq> 0) (m2c w)"
  define sign where "sign = (if add then ''+'' else ''-'')"
  let ?args = "sign # map (\<lambda>_. nk_name nk) sel"
  have sp: "\<not> has_space a" if "a \<in> set ?args" for a
    using that assms(3) by (auto simp: sign_def has_space_def split: if_splits)
  then have "\<not> (\<exists>a\<in>set (butlast ?args). has_space a)" by (meson in_set_butlastD)
  then have "addArgs ?args (Message ''MODE'' :: irc_msg) = Inr ((Message ''MODE'')\<lparr>msg_args := ?args\<rparr>)"
    by (simp only: addArgs_Message if_False)
  moreover have "\<not> has_space (last ?args)" using sp last_in_set [of ?args] by blast
  ultimately show ?thesis using assms(1,2)
    by (simp add: getModeMessage_def setArg_def sel_def [symmetric] sign_def [symmetric] Let_def Message_def)
qed

lemma broadcast_deliver:
  assumes "chans s c = Some ch" and "all_live s (ch_users ch)" and "msg_live s m"
  shows "\<exists>y. broadcast_with deliver c m b s = Inr (s\<lparr>out := y\<rparr>)"
proof -
  have "\<exists>y. foldE (\<lambda>u s. bindE (cuser_of s u) (\<lambda>cu. if b = Some (cu_nick cu) then Inr s else deliver (cu_nick cu) m s))
      (ch_users ch) (s\<lparr>out := out s\<rparr>) = Inr (s\<lparr>out := y\<rparr>)"
  proof (rule foldE_out)
    fix u x assume "u \<in> set (ch_users ch)"
    then obtain cv where "cusers s u = Some cv" "nicks s (cu_nick cv) \<noteq> None" using assms(2) by (auto simp: all_live_def)
    then show "\<exists>y. bindE (cuser_of (s\<lparr>out := x\<rparr>) u) (\<lambda>cu. if b = Some (cu_nick cu) then Inr (s\<lparr>out := x\<rparr>)
        else deliver (cu_nick cu) m (s\<lparr>out := x\<rparr>)) = Inr (s\<lparr>out := y\<rparr>)"
      using deliver_out [OF _ assms(3)] by auto
  qed
  with assms(1) show ?thesis by (simp add: broadcast_with_def)
qed

text \<open>Changing a mode changes the status word and tells the channel.\<close>

lemma mode_change_ok:
  assumes "net_ok s" and "env_ok s" and "cusers s u = Some cu" and "\<And>x. cu_nick (f x) = cu_nick x \<and> cu_chan (f x) = cu_chan x"
    and "case e of Some x \<Rightarrow> ent_live s x | None \<Rightarrow> True"
  shows "\<exists>y. bindE (getModeMessage w (upd_cuser u f s) u add modes) (\<lambda>m. broadcast_with deliver (cu_chan cu)
      (setReceiver (EChan (cu_chan cu)) (setSender (case e of Some e \<Rightarrow> e | None \<Rightarrow> EServer (irc_id s)) m)) None (upd_cuser u f s))
    = Inr ((upd_cuser u f s)\<lparr>out := y\<rparr>)"
proof -
  let ?s = "upd_cuser u f s"
  note ok = net_okD [OF assms(1)]
  obtain nk where nk: "nicks s (cu_nick cu) = Some nk" using ok(6) [OF assms(3)] by blast
  obtain ch where ch: "chans s (cu_chan cu) = Some ch" using ok(7) [OF assms(3)] by blast
  have cu': "cusers ?s u = Some (f cu)" using assms(3) by (simp add: upd_cuser_def)
  have heaps: "nicks ?s = nicks s" "chans ?s = chans s" "servs ?s = servs s" by (simp_all add: upd_cuser_def)
  obtain m where m: "getModeMessage w ?s u add modes = Inr m"
    using getModeMessage_ok [OF cu', of nk w add modes] nk heaps assms(4) env_okD(1) [OF assms(2) nk] by auto
  have "all_live ?s (ch_users ch)"
    using net_ok_all_live [OF assms(1) ch] assms(4) unfolding all_live_def
    by (fastforce simp: upd_cuser_def)
  moreover have live_e: "ent_live ?s x = ent_live s x" for x
    using assms(4) by (cases x) (auto simp: ent_live_def upd_cuser_def split: option.split)
  have "msg_live ?s (setReceiver (EChan (cu_chan cu)) (setSender (case e of Some e \<Rightarrow> e | None \<Rightarrow> EServer (irc_id s)) m))"
    using ch assms(5) env_okD(5) [OF assms(2)]
    by (auto simp: msg_live_def stored_live_def setReceiver_def setSender_def setEntity_def live_e split: option.splits)
      (simp_all add: ent_live_def)
  ultimately show ?thesis using broadcast_deliver [of ?s "cu_chan cu" ch] ch heaps m by simp
qed

lemma setMode_eq:
  assumes "net_ok s" and "env_ok s" and "cusers s u = Some cu" and "case e of Some x \<Rightarrow> ent_live s x | None \<Rightarrow> True"
  shows "\<exists>y. setMode w e (cu_chan cu) modes u s = Inr ((upd_cuser u (setStatus modes) s)\<lparr>out := y\<rparr>)"
proof (cases "modes = 0")
  case True
  have "setStatus 0 cu = cu" by (simp add: setStatus_def)
  then have "upd_cuser u (setStatus 0) s = s" using assms(3) by (simp add: upd_cuser_def fun_upd_idem)
  with True show ?thesis by (auto simp: setMode_def intro!: exI [of _ "out s"])
next
  case False
  with mode_change_ok [OF assms(1-3), of "setStatus modes"] assms(3,4) show ?thesis
    by (simp add: setMode_def setStatus_def Let_def)
qed

lemma delMode_eq:
  assumes "net_ok s" and "env_ok s" and "cusers s u = Some cu" and "case e of Some x \<Rightarrow> ent_live s x | None \<Rightarrow> True"
  shows "\<exists>y. delMode w e (cu_chan cu) modes u s = Inr ((upd_cuser u (delStatus modes) s)\<lparr>out := y\<rparr>)"
proof (cases "modes = 0")
  case True
  have "delStatus 0 cu = cu" by (simp add: delStatus_def)
  then have "upd_cuser u (delStatus 0) s = s" using assms(3) by (simp add: upd_cuser_def fun_upd_idem)
  with True show ?thesis by (auto simp: delMode_def intro!: exI [of _ "out s"])
next
  case False
  with mode_change_ok [OF assms(1-3), of "delStatus modes"] assms(3,4) show ?thesis
    by (simp add: delMode_def delStatus_def Let_def)
qed

lemma find_chanuser_eq:
  assumes "\<forall>u\<in>set us. cusers s u \<noteq> None"
  shows "\<exists>r. find_chanuser s c us = Inr r \<and> (case r of
      Some u \<Rightarrow> u \<in> set us \<and> (\<exists>cu. cusers s u = Some cu \<and> cu_chan cu = c)
    | None \<Rightarrow> \<forall>u\<in>set us. \<forall>cu. cusers s u = Some cu \<longrightarrow> cu_chan cu \<noteq> c)"
  using assms
proof (induction us)
  case Nil
  then show ?case by simp
next
  case (Cons u us)
  then obtain cu where cu: "cusers s u = Some cu" by auto
  obtain r where "find_chanuser s c us = Inr r" "case r of
      Some u \<Rightarrow> u \<in> set us \<and> (\<exists>cu. cusers s u = Some cu \<and> cu_chan cu = c)
    | None \<Rightarrow> \<forall>u\<in>set us. \<forall>cu. cusers s u = Some cu \<longrightarrow> cu_chan cu \<noteq> c"
    using Cons by auto
  with cu show ?case by (cases "cu_chan cu = c"; cases r) simp_all
qed

lemma getChanUser_eq:
  assumes "net_ok s" and "nicks s n = Some nk"
  shows "\<exists>r. getChanUser s n c = Inr r \<and> (case r of
      Some u \<Rightarrow> (\<exists>cu. cusers s u = Some cu \<and> cu_nick cu = n \<and> cu_chan cu = c)
    | None \<Rightarrow> \<forall>u cu. cusers s u = Some cu \<longrightarrow> \<not> (cu_nick cu = n \<and> cu_chan cu = c))"
proof -
  note ok = net_okD [OF assms(1)]
  have "\<forall>u\<in>set (nk_channels nk). cusers s u \<noteq> None" using ok(2) [OF assms(2)] by fastforce
  then obtain r where r: "find_chanuser s c (nk_channels nk) = Inr r" "case r of
      Some u \<Rightarrow> u \<in> set (nk_channels nk) \<and> (\<exists>cu. cusers s u = Some cu \<and> cu_chan cu = c)
    | None \<Rightarrow> \<forall>u\<in>set (nk_channels nk). \<forall>cu. cusers s u = Some cu \<longrightarrow> cu_chan cu \<noteq> c"
    using find_chanuser_eq by blast
  have "\<exists>cu. cusers s u = Some cu \<and> cu_nick cu = n \<and> cu_chan cu = c" if "r = Some u" for u
    using r(2) that ok(2) [OF assms(2), of u] by auto
  moreover have "\<not> (cu_nick cu = n \<and> cu_chan cu = c)" if "r = None" "cusers s u = Some cu" for u cu
    using r(2) that ok(6) [OF that(2)] assms(2) by auto
  ultimately show ?thesis using r(1) assms(2) by (auto simp: getChanUser_def split: option.split)
qed

definition seated :: "cid \<Rightarrow> nid \<Rightarrow> nick \<Rightarrow> 32 word \<Rightarrow> net \<Rightarrow> net" where
  "seated c n nk status s = upd_chan c (\<lambda>ch. ch\<lparr>ch_users := ch_users ch @ [next_id s]\<rparr>)
     (s\<lparr>next_id := next_id s + 1, cusers := (cusers s)(next_id s \<mapsto> ChanUser c n nk status)\<rparr>)"

lemma seated_simps [simp]:
  "nicks (seated c n nk st s) = nicks s" "servs (seated c n nk st s) = servs s"
  "cusers (seated c n nk st s) = (cusers s)(next_id s \<mapsto> ChanUser c n nk st)"
  "chans (seated c n nk st s) = (chans s)(c := map_option (\<lambda>ch. ch\<lparr>ch_users := ch_users ch @ [next_id s]\<rparr>) (chans s c))"
  "next_id (seated c n nk st s) = next_id s + 1" "irc_id (seated c n nk st s) = irc_id s" "user_id (seated c n nk st s) = user_id s"
  by (simp_all add: seated_def upd_chan_def)

lemma ChanUser_simps [simp]:
  "cu_nick (ChanUser c n nk st) = n" "cu_chan (ChanUser c n nk st) = c" "cu_status (ChanUser c n nk st) = st"
  by (simp_all add: ChanUser_def)

lemma seated_live:
  assumes "net_ok s" and "nicks s n = Some nk" and "chans s c = Some ch"
  shows "all_live (seated c n nk st s) (ch_users ch @ [next_id s])"
  using net_ok_all_live [OF assms(1,3)] assms(2) unfolding all_live_def
  by (auto simp: ChanUser_def)

lemma sendNames_out:
  assumes "chans s c = Some ch" and "all_live s (ch_users ch)" and "\<not> has_space (ch_name ch)"
    and "nicks s n \<noteq> None" and "servs s (irc_id s) \<noteq> None"
  shows "\<exists>y. sendNames w c n (s\<lparr>out := x\<rparr>) = Inr (s\<lparr>out := y\<rparr>)"
proof -
  have "\<exists>names. foldE (\<lambda>u names. bindE (cuser_of s u) (\<lambda>cu. bindE (nick_of s (cu_nick cu)) (\<lambda>nk.
          Inr (names @ getPrefix w (cu_status cu) @ nk_name nk @ '' '')))) us acc = Inr names" if "all_live s us" for us acc
    using that
  proof (induction us arbitrary: acc)
    case (Cons u us)
    obtain cv nk where "cusers s u = Some cv" "nicks s (cu_nick cv) = Some nk" "all_live s us"
      using Cons.prems by (auto simp: all_live_def)
    then show ?case using Cons.IH by simp
  qed simp
  then obtain names where names: "foldE (\<lambda>u names. bindE (cuser_of s u) (\<lambda>cu. bindE (nick_of s (cu_nick cu)) (\<lambda>nk.
          Inr (names @ getPrefix w (cu_status cu) @ nk_name nk @ '' '')))) (ch_users ch) [] = Inr names"
    using assms(2) by blast
  have eq: "\<not> has_space ''=''" by (simp add: has_space_def)
  have live: "msg_live s \<lparr>msg_cmd = k, msg_sender = setEntity (Some (EServer (irc_id s))), msg_receiver = setEntity (Some (ENick n)), msg_args = xs\<rparr>" for k xs
    using assms(4,5) by (simp add: msg_live_def stored_live_def setEntity_def ent_live_def)
  show ?thesis using assms(1,3,4) names deliver_eq [OF assms(4) live] deliver_eq [of "s\<lparr>out := y\<rparr>" n for y] live eq
    by (auto simp: sendNames_def mk_msg_eq)
qed

lemma addUser_eq:
  assumes "net_ok s" and "env_ok s" and "nicks s n = Some nk" and "chans s c = Some ch"
  shows "\<exists>y. addUser w c n status s = Inr (next_id s, (seated c n nk status s)\<lparr>out := y\<rparr>)"
proof -
  let ?s = "seated c n nk status s" and ?ch = "ch\<lparr>ch_users := ch_users ch @ [next_id s]\<rparr>"
  have live: "all_live ?s (ch_users ch @ [next_id s])" using seated_live [OF assms(1,3,4)] .
  have names: "\<not> has_space (ch_name ch)" "\<not> has_space (nk_name nk)"
    using env_okD(1,3) [OF assms(2)] assms(3,4) by auto
  have irc: "servs ?s (irc_id ?s) \<noteq> None" using env_okD(5) [OF assms(2)] by simp
  have msgs: "msg_live ?s \<lparr>msg_cmd = k, msg_sender = setEntity (Some e), msg_receiver = setEntity (Some e'), msg_args = xs\<rparr>"
    if "e \<in> {ENick n, EServer (irc_id s)}" "e' \<in> {ENick n, EChan c}" for k e e' xs
    using that assms(3,4) irc by (auto simp: msg_live_def stored_live_def setEntity_def ent_live_def)
  obtain m where m: "getModeMessage w ?s (next_id s) True 0 = Inr m"
    using getModeMessage_ok [of ?s "next_id s" "ChanUser c n nk status" nk w True 0] assms(3) names by auto
  have m': "getModeMessage w (?s\<lparr>out := x\<rparr>) (next_id s) True 0 = Inr m" for x
    using m by (simp add: getModeMessage_def)
  have mode: "msg_live ?s (setReceiver (EChan c) (setSender (EServer (irc_id s)) m))"
    using irc assms(4) by (simp add: msg_live_def stored_live_def setEntity_def ent_live_def setReceiver_def setSender_def)
  have "\<exists>y. foldE (addUser_notify w c n (next_id s) status) (ch_users ch @ [next_id s]) (?s\<lparr>out := out ?s\<rparr>) = Inr (?s\<lparr>out := y\<rparr>)"
  proof (rule foldE_out)
    fix u x assume "u \<in> set (ch_users ch @ [next_id s])"
    then obtain cv where cv: "cusers ?s u = Some cv" "nicks ?s (cu_nick cv) \<noteq> None" using live unfolding all_live_def by blast
    obtain y where y: "deliver (cu_nick cv) \<lparr>msg_cmd = ''JOIN'', msg_sender = setEntity (Some (ENick n)), msg_receiver = setEntity (Some (EChan c)),
          msg_args = []\<rparr> (?s\<lparr>out := x\<rparr>) = Inr (?s\<lparr>out := y\<rparr>)"
      using deliver_out [OF cv(2) msgs] by blast
    moreover obtain z where "deliver (cu_nick cv) (setReceiver (EChan c) (setSender (EServer (irc_id s)) m)) (?s\<lparr>out := y\<rparr>) = Inr (?s\<lparr>out := z\<rparr>)"
      using deliver_out [OF cv(2) mode] by blast
    moreover have "cuser_of (?s\<lparr>out := x\<rparr>) u = Inr cv" using cv(1) by (simp only: of_out of_simps)
    moreover have "irc_id (?s\<lparr>out := x\<rparr>) = irc_id s" by simp
    ultimately show "\<exists>y. addUser_notify w c n (next_id s) status u (?s\<lparr>out := x\<rparr>) = Inr (?s\<lparr>out := y\<rparr>)"
      unfolding addUser_notify_def using m' by (auto simp: mk_msg_eq)
  qed
  then obtain y1 where y1: "foldE (addUser_notify w c n (next_id s) status) (ch_users ch @ [next_id s]) ?s = Inr (?s\<lparr>out := y1\<rparr>)" by auto
  obtain y2 where y2: "(if getTopic w ch = [] then Inr (?s\<lparr>out := y1\<rparr>)
      else bindE (mk_msg ''332'' (Some (EServer (irc_id s))) (Some (ENick n)) [ch_name ch, getTopic w ch]) (\<lambda>m. deliver n m (?s\<lparr>out := y1\<rparr>)))
      = Inr (?s\<lparr>out := y2\<rparr>)"
  proof (cases "getTopic w ch = []")
    case False
    have "\<exists>y. deliver n \<lparr>msg_cmd = ''332'', msg_sender = setEntity (Some (EServer (irc_id s))), msg_receiver = setEntity (Some (ENick n)),
        msg_args = [ch_name ch, getTopic w ch]\<rparr> (?s\<lparr>out := y1\<rparr>) = Inr (?s\<lparr>out := y\<rparr>)"
      by (rule deliver_out) (use assms(3) msgs in auto)
    then show thesis using that False names(1) by (auto simp: mk_msg_eq)
  qed (use that in auto)
  obtain y3 where y3: "sendNames w c n (?s\<lparr>out := y2\<rparr>) = Inr (?s\<lparr>out := y3\<rparr>)"
    using sendNames_out [of ?s c ?ch n w y2] live irc names(1) assms(3,4) by auto
  have "addUser w c n status s = Inr (next_id s, ?s\<lparr>out := y3\<rparr>)"
    unfolding addUser_def of_simps(1) [of s, OF assms(3)] of_simps(2) [of s, OF assms(4)] bindE_simps Let_def seated_def [symmetric] y1 y2 y3 ..
  then show ?thesis by blast
qed

lemma net_ok_join:
  assumes "net_ok s" and "nicks s n = Some nk" and "chans s c = Some ch"
    and "\<forall>u cu. cusers s u = Some cu \<longrightarrow> \<not> (cu_nick cu = n \<and> cu_chan cu = c)"
  shows "net_ok (upd_nick n (\<lambda>nk. nk\<lparr>nk_channels := nk_channels nk @ [next_id s]\<rparr>) (seated c n nk0 st s))" (is "net_ok ?s")
proof -
  note ok = net_okD [OF assms(1)]
  have fresh: "cusers s (next_id s) = None" using ok(5) [of "next_id s"] by (cases "cusers s (next_id s)") auto
  have new_n: "next_id s \<notin> set (nk_channels x)" if "nicks s k = Some x" for k x using ok(2) [OF that] fresh by force
  have new_c: "next_id s \<notin> set (ch_users x)" if "chans s k = Some x" for k x using ok(4) [OF that] fresh by force
  have s: "nicks ?s = (nicks s)(n \<mapsto> nk\<lparr>nk_channels := nk_channels nk @ [next_id s]\<rparr>)"
      "chans ?s = (chans s)(c \<mapsto> ch\<lparr>ch_users := ch_users ch @ [next_id s]\<rparr>)"
      "cusers ?s = (cusers s)(next_id s \<mapsto> ChanUser c n nk0 st)" "next_id ?s = next_id s + 1"
    using assms(2,3) by (simp_all add: upd_nick_def)
  show ?thesis
  proof (rule net_okI)
    show "distinct (nk_channels x)" if "nicks ?s k = Some x" for k x
      using that ok(1) assms(2) new_n by (auto simp: s split: if_splits)
    show "\<exists>cu. cusers ?s u = Some cu \<and> cu_nick cu = k" if "nicks ?s k = Some x" "u \<in> set (nk_channels x)" for k x u
      using that ok(2) assms(2) new_n by (auto simp: s split: if_splits)
    show "distinct (ch_users x)" if "chans ?s k = Some x" for k x
      using that ok(3) assms(3) new_c by (auto simp: s split: if_splits)
    show "\<exists>cu. cusers ?s u = Some cu \<and> cu_chan cu = k" if "chans ?s k = Some x" "u \<in> set (ch_users x)" for k x u
      using that ok(4) assms(3) new_c by (auto simp: s split: if_splits)
    show "u < next_id ?s" if "cusers ?s u = Some cu" for u cu
      using that ok(5) by (auto simp: s less_Suc_eq split: if_splits)
    show "\<exists>x. nicks ?s (cu_nick cu) = Some x \<and> u \<in> set (nk_channels x)" if "cusers ?s u = Some cu" for u cu
      using that ok(6) [of u cu] assms(2) by (auto simp: s split: if_splits)
    show "\<exists>x. chans ?s (cu_chan cu) = Some x \<and> u \<in> set (ch_users x)" if "cusers ?s u = Some cu" for u cu
      using that ok(7) [of u cu] assms(3) by (auto simp: s split: if_splits)
    show "u = v" if "cusers ?s u = Some cu" "cusers ?s v = Some cv" "cu_nick cu = cu_nick cv" "cu_chan cu = cu_chan cv" for u v cu cv
    proof (cases "u = next_id s \<longleftrightarrow> v = next_id s")
      case True
      with that ok(8) [of u cu v cv] show ?thesis by (auto simp: s split: if_splits)
    next
      case False
      with that assms(4) [rule_format, of u cu] assms(4) [rule_format, of v cv] show ?thesis
        by (auto simp: s split: if_splits)
    qed
  qed
qed

lemma status_update: "((a AND NOT (a AND NOT b)) OR (b AND NOT a)) = (b :: 32 word)"
  by (rule bit_word_eqI) (auto simp: bit_simps)

definition all_ok :: "net \<Rightarrow> bool" where
  "all_ok s \<longleftrightarrow> net_ok s \<and> cb_ok s \<and> env_ok s"

lemma all_ok_out [simp]: "all_ok (s\<lparr>out := y\<rparr>) = all_ok s"
proof -
  have "skel (s\<lparr>out := y\<rparr>) = skel s" by (simp add: skel_def)
  then have "net_ok (s\<lparr>out := y\<rparr>) = net_ok s" using net_ok_skel by metis
  then show ?thesis by (simp add: all_ok_def cb_ok_def env_ok_def)
qed

lemma all_ok_status:
  assumes "all_ok s" and "cusers s u = Some cu" and "\<And>x. cu_nick (f x) = cu_nick x \<and> cu_chan (f x) = cu_chan x"
  shows "all_ok (upd_cuser u f s)"
proof -
  have "skel (upd_cuser u f s) = skel s"
    using assms(2,3) by (auto simp: skel_def upd_cuser_def fun_eq_iff option.map_comp o_def)
  then have "net_ok (upd_cuser u f s)" using assms(1) net_ok_skel by (auto simp: all_ok_def)
  moreover have "cb_ok (upd_cuser u f s)"
    unfolding cb_ok_def
  proof (intro allI impI)
    fix c ch assume "chans (upd_cuser u f s) c = Some ch"
    then have c: "chans s c = Some ch" by (simp add: upd_cuser_def)
    have "cb_ok s" using assms(1) by (simp add: all_ok_def)
    note cb = cb_okD [OF this c]
    have "\<exists>cu. cusers (upd_cuser u f s) v = Some cu \<and> cu_chan cu = c" if "(k, v) \<in> set (ch_cbuddies ch)" for k v
      using cb(3) [OF that] assms(3) by (auto simp: upd_cuser_def)
    with cb show "map_wf (ch_cbuddies ch) \<and> distinct (map snd (ch_cbuddies ch)) \<and>
      (ch_class ch = StatusChan \<longrightarrow> ch_cbuddies ch = []) \<and>
      (\<forall>(k, ua)\<in>set (ch_cbuddies ch). \<exists>cua. cusers (upd_cuser u f s) ua = Some cua \<and> cu_chan cua = c)" by blast
  qed
  moreover have "env_ok (upd_cuser u f s)" using assms(1) by (simp add: all_ok_def env_ok_def upd_cuser_def)
  ultimately show ?thesis by (simp add: all_ok_def)
qed

lemma all_ok_join:
  assumes "all_ok s" and "nicks s n = Some nk" and "chans s c = Some ch"
    and "\<forall>u cu. cusers s u = Some cu \<longrightarrow> \<not> (cu_nick cu = n \<and> cu_chan cu = c)"
  shows "all_ok (upd_nick n (\<lambda>nk. nk\<lparr>nk_channels := nk_channels nk @ [next_id s]\<rparr>) (seated c n nk st s))" (is "all_ok ?s")
proof -
  have ok: "net_ok s" "cb_ok s" "env_ok s" using assms(1) by (simp_all add: all_ok_def)
  have fresh: "cusers s (next_id s) = None" using net_okD(5) [OF ok(1), of "next_id s"] by (cases "cusers s (next_id s)") auto
  have "cb_ok ?s"
    unfolding cb_ok_def
  proof (intro allI impI)
    fix k x assume "chans ?s k = Some x"
    then obtain x0 where x0: "chans s k = Some x0" "ch_cbuddies x = ch_cbuddies x0" "ch_class x = ch_class x0"
      by (auto simp: upd_nick_def split: if_splits)
    note cb = cb_okD [OF ok(2) x0(1)]
    have "\<exists>cu. cusers ?s v = Some cu \<and> cu_chan cu = k" if "(j, v) \<in> set (ch_cbuddies x)" for j v
      using cb(3) [of j v] that fresh by (auto simp: x0 upd_nick_def)
    with cb show "map_wf (ch_cbuddies x) \<and> distinct (map snd (ch_cbuddies x)) \<and>
      (ch_class x = StatusChan \<longrightarrow> ch_cbuddies x = []) \<and>
      (\<forall>(j, u)\<in>set (ch_cbuddies x). \<exists>cu. cusers ?s u = Some cu \<and> cu_chan cu = k)" unfolding x0(2,3) by blast
  qed
  moreover have "env_ok ?s"
    using ok(3) assms(2,3) unfolding env_ok_def by (auto simp: upd_nick_def less_SucI)
  ultimately show ?thesis using net_ok_join [OF ok(1) assms(2-4)] by (simp add: all_ok_def)
qed

text \<open>What arrivals and mode changes leave alone.\<close>

definition view :: "net \<Rightarrow> _" where
  "view s = (reg_users s, servs s, reg_chans s, (user_id s, irc_id s, sock_open s),
     \<lambda>k. map_option (\<lambda>x. (nk_name x, nk_server x, nk_class x, nk_conv x)) (nicks s k),
     \<lambda>c. map_option (\<lambda>ch. (ch_name ch, ch_class ch, ch_cbuddies ch, ch_conv ch, ch_upserver ch)) (chans s c))"

lemma view_simps [simp]:
  "view (s\<lparr>out := y\<rparr>) = view s" "view (upd_cuser u f s) = view s"
  "view (upd_nick n (\<lambda>nk. nk\<lparr>nk_channels := g nk\<rparr>) s) = view s"
  by (auto simp: view_def upd_cuser_def upd_nick_def fun_eq_iff option.map_comp o_def)

lemma view_seated [simp]: "view (seated c n nk st s) = view s"
  by (auto simp: view_def seated_def upd_chan_def fun_eq_iff option.map_comp o_def)

lemma join_spec:
  assumes "all_ok s" and "nicks s n = Some nk" and "chans s c = Some ch"
  shows "\<exists>u cu s'. join w n c st s = Inr (u, s') \<and> all_ok s' \<and> view s' = view s \<and>
    (\<forall>v cv. v \<noteq> u \<and> cusers s' v = Some cv \<longrightarrow> cusers s v = Some cv) \<and>
    (\<forall>x. cusers s u = Some x \<longrightarrow> cu_nick x = n \<and> cu_chan x = c) \<and>
    cusers s' u = Some cu \<and> cu_nick cu = n \<and> cu_chan cu = c \<and> cu_status cu = st"
proof -
  have ok: "net_ok s" "env_ok s" using assms(1) by (simp_all add: all_ok_def)
  obtain r where r: "getChanUser s n c = Inr r" "case r of
      Some u \<Rightarrow> (\<exists>cu. cusers s u = Some cu \<and> cu_nick cu = n \<and> cu_chan cu = c)
    | None \<Rightarrow> \<forall>u cu. cusers s u = Some cu \<longrightarrow> \<not> (cu_nick cu = n \<and> cu_chan cu = c)"
    using getChanUser_eq [OF ok(1) assms(2)] by blast
  show ?thesis
  proof (cases r)
    case None
    obtain y where y: "addUser w c n st s = Inr (next_id s, (seated c n nk st s)\<lparr>out := y\<rparr>)"
      using addUser_eq [OF ok assms(2,3)] by blast
    let ?s = "upd_nick n (\<lambda>nk. nk\<lparr>nk_channels := nk_channels nk @ [next_id s]\<rparr>) ((seated c n nk st s)\<lparr>out := y\<rparr>)"
    have "?s = (upd_nick n (\<lambda>nk. nk\<lparr>nk_channels := nk_channels nk @ [next_id s]\<rparr>) (seated c n nk st s))\<lparr>out := y\<rparr>"
      by (cases "seated c n nk st s") (simp add: upd_nick_def)
    then have "all_ok ?s" using all_ok_join [OF assms] r(2) None by simp
    moreover have "join w n c st s = Inr (next_id s, ?s)" using r(1) None y by (simp add: join_def)
    moreover have "cusers ?s (next_id s) = Some (ChanUser c n nk st)" by (simp add: upd_nick_def)
    moreover have "view ?s = view s" by simp
    moreover have "cusers s (next_id s) = None"
      using net_okD(5) [OF ok(1), of "next_id s"] by (cases "cusers s (next_id s)") auto
    moreover have "cusers ?s v = cusers s v" if "v \<noteq> next_id s" for v using that by (simp add: upd_nick_def)
    ultimately show ?thesis
      by (intro exI [of _ "next_id s"] exI [of _ "ChanUser c n nk st"] exI [of _ ?s]) auto
  next
    case (Some u)
    with r(2) obtain cu where cu: "cusers s u = Some cu" "cu_nick cu = n" "cu_chan cu = c" by auto
    show ?thesis
    proof (cases "cu_status cu = st")
      case True
      then show ?thesis using r(1) Some cu assms(1) by (auto simp: join_def Let_def)
    next
      case False
      obtain y1 where y1: "delMode w None c (cu_status cu AND NOT st) u s =
          Inr ((upd_cuser u (delStatus (cu_status cu AND NOT st)) s)\<lparr>out := y1\<rparr>)" (is "_ = Inr (?s1\<lparr>out := y1\<rparr>)")
        using delMode_eq [OF ok cu(1), of None w] cu(3) by auto
      have a1: "all_ok (?s1\<lparr>out := y1\<rparr>)" using all_ok_status [OF assms(1) cu(1)] by (simp add: delStatus_def)
      have cu1: "cusers (?s1\<lparr>out := y1\<rparr>) u = Some (delStatus (cu_status cu AND NOT st) cu)"
        using cu(1) by (simp add: upd_cuser_def)
      obtain y2 where y2: "setMode w None c (st AND NOT (cu_status cu)) u (?s1\<lparr>out := y1\<rparr>) =
          Inr ((upd_cuser u (setStatus (st AND NOT (cu_status cu))) (?s1\<lparr>out := y1\<rparr>))\<lparr>out := y2\<rparr>)" (is "_ = Inr (?s2\<lparr>out := y2\<rparr>)")
        using setMode_eq [OF _ _ cu1, of None w] a1 cu(3) by (auto simp: all_ok_def delStatus_def)
      have "all_ok (?s2\<lparr>out := y2\<rparr>)" using all_ok_status [OF a1 cu1] by (simp add: setStatus_def)
      moreover have "cusers (?s2\<lparr>out := y2\<rparr>) u = Some (setStatus (st AND NOT (cu_status cu)) (delStatus (cu_status cu AND NOT st) cu))"
        using cu(1) by (simp add: upd_cuser_def)
      moreover have "join w n c st s = Inr (u, ?s2\<lparr>out := y2\<rparr>)"
        using r(1) Some cu False y1 y2 by (simp add: join_def Let_def)
      moreover have "cu_status (setStatus (st AND NOT (cu_status cu)) (delStatus (cu_status cu AND NOT st) cu)) = st"
        using status_update [of "cu_status cu" st] by (simp add: setStatus_def delStatus_def)
      moreover have "cu_nick (setStatus a (delStatus b cu)) = n" "cu_chan (setStatus a (delStatus b cu)) = c" for a b
        using cu(2,3) by (simp_all add: setStatus_def delStatus_def)
      moreover have "view (?s2\<lparr>out := y2\<rparr>) = view s" by simp
      moreover have "cusers (?s2\<lparr>out := y2\<rparr>) v = cusers s v" if "v \<noteq> u" for v using that by (simp add: upd_cuser_def)
      moreover have "cu_nick x = n \<and> cu_chan x = c" if "cusers s u = Some x" for x using that cu by simp
      ultimately show ?thesis
        by (intro exI [of _ u] exI [of _ "setStatus (st AND NOT (cu_status cu)) (delStatus (cu_status cu AND NOT st) cu)"]
            exI [of _ "?s2\<lparr>out := y2\<rparr>"]) metis
    qed
  qed
qed

end
