(* ===== verification/Delivery.thy ===== *)
theory Delivery
  imports Membership
begin

text \<open>
  How a message reaches a contact: \<open>src/src/irc/conv_entity.cpp\<close>, the \<open>send\<close> methods of
  \<open>buddy.cpp\<close>, \<open>chat_buddy.cpp\<close>, \<open>unknown_buddy.cpp\<close> and \<open>buddy_icon.cpp\<close>, the links
  between nicks and conversations of \<open>src/src/im/conversation.cpp\<close>, and the virtual
  \<open>broadcast\<close>. \<open>send\<close> extends \<open>deliver\<close> to \<open>PRIVMSG\<close>s.
\<close>

section \<open>\<open>ConvEntity\<close>\<close>

text \<open>\<open>Conversation::sendMessage\<close> asserts that the conversation is set.\<close>

definition conv_sendMessage :: "im_conv option \<Rightarrow> string \<Rightarrow> net \<Rightarrow> exn + net" where
  "conv_sendMessage v text s = (case v of None \<Rightarrow> Inl AssertionFailed | Some c \<Rightarrow> Inr (im_do (SendMessage c text) s))"

definition conv_state :: "net \<Rightarrow> entity \<Rightarrow> exn + im_conv option \<times> string list" where
  "conv_state s e = (case e of
       ENick n \<Rightarrow> bindE (nick_of s n) (\<lambda>nk. Inr (nk_conv nk, nk_queue nk))
     | EChan c \<Rightarrow> bindE (chan_of s c) (\<lambda>ch. Inr (Some (ch_conv ch), ch_queue ch))
     | _ \<Rightarrow> Inl Dangling)"

definition set_queue :: "entity \<Rightarrow> string list \<Rightarrow> net \<Rightarrow> net" where
  "set_queue e q s = (case e of
       ENick n \<Rightarrow> upd_nick n (\<lambda>nk. nk\<lparr>nk_queue := q\<rparr>) s
     | EChan c \<Rightarrow> upd_chan c (\<lambda>ch. ch\<lparr>ch_queue := q\<rparr>) s
     | _ \<Rightarrow> s)"

definition enqueueMessage :: "entity \<Rightarrow> string \<Rightarrow> int \<Rightarrow> net \<Rightarrow> exn + net" where
  "enqueueMessage e text delay s =
     bindE (conv_state s e) (\<lambda>(v, q).
       if delay = 0 then conv_sendMessage v text s
       else let s1 = set_queue e (q @ [text]) s
            in Inr (if length (q @ [text]) = 1 then s1\<lparr>timers := timers s1 @ [FlushTimer e]\<rparr> else s1))"

text \<open>The texts \<open>flush_messages\<close> sends: runs of lines joined by newlines, CTCP messages alone.\<close>

fun flush_texts :: "string list \<Rightarrow> string \<Rightarrow> string list" where
  "flush_texts [] buf = (if buf \<noteq> [] then [buf] else [])"
| "flush_texts (x # q) buf =
     (if x \<noteq> [] \<and> hd x = CHR 0x01
      then (if buf \<noteq> [] then [buf] else []) @ [x] @ flush_texts q []
      else flush_texts q ((if buf \<noteq> [] then buf @ [CHR 0x0A] else []) @ x))"

definition flush_messages :: "entity \<Rightarrow> net \<Rightarrow> exn + net" where
  "flush_messages e s =
     bindE (conv_state s e) (\<lambda>(v, q).
     bindE (foldE (conv_sendMessage v) (flush_texts q []) s) (\<lambda>s1. Inr (set_queue e [] s1)))"

section \<open>Conversations and their nicks\<close>

definition setNick :: "im_conv \<Rightarrow> nid option \<Rightarrow> bool \<Rightarrow> net \<Rightarrow> exn + net" where
  "setNick v n purge_unknown s =
     (let last = conv_ui s v; s1 = s\<lparr>conv_ui := (conv_ui s)(v := n)\<rparr>
      in case last of
           None \<Rightarrow> Inr s1
         | Some l \<Rightarrow>
             if n = Some l then Inr s1
             else bindE (nick_of s1 l) (\<lambda>nk.
                    if purge_unknown \<and> nk_class nk = CUnknownBuddy then removeNick (nk_name nk) s1
                    else setConversation l None s1))"

definition attach :: "nid \<Rightarrow> im_conv \<Rightarrow> net \<Rightarrow> exn + net" where
  "attach n v s = seqE [\<lambda>s. Inr (im_do (Present v) s), setNick v (Some n) True, setConversation n (Some v)] s"

definition check_conv :: "world \<Rightarrow> nid \<Rightarrow> im_buddy \<Rightarrow> net \<Rightarrow> exn + net" where
  "check_conv w n b s =
     bindE (nick_of s n) (\<lambda>nk. case nk_conv nk of
         Some _ \<Rightarrow> Inr s
       | None \<Rightarrow> attach n (w_conv_new w (w_buddy_account w b) (w_buddy_name w b)) s)"

section \<open>Receiving files\<close>

definition check_write_file :: "world \<Rightarrow> string \<Rightarrow> string \<Rightarrow> bool" where
  "check_write_file w path filename =
     (if \<not> w_opendir w path \<and> \<not> w_mkdir w path then False
      else let p = path @ ''/'' @ filename
           in case w_stat w p of
                None \<Rightarrow> w_access w (w_dirname w p)
              | Some isdir \<Rightarrow> \<not> isdir)"

definition createDCCGet :: "world \<Rightarrow> nid \<Rightarrow> string \<Rightarrow> nat \<Rightarrow> nat \<Rightarrow> int \<Rightarrow> net \<Rightarrow> net" where
  "createDCCGet w n filename addr port sz s =
     (case DCCGet n filename sz (w_fopen w filename) (w_dcc_connect w addr port) (w_watch w) of
        None \<Rightarrow> s
      | Some d \<Rightarrow> s\<lparr>dccs := dccs s @ [Get d]\<rparr>)"

definition process_dcc_get :: "world \<Rightarrow> nid \<Rightarrow> string \<Rightarrow> net \<Rightarrow> exn + bool \<times> net" where
  "process_dcc_get w n text s =
     (if \<not> w_ft_enabled w then Inr (True, s)
      else bindE (parseDCCSEND text) (\<lambda>r. case r of
             None \<Rightarrow> Inr (False, s)
           | Some (filename, addr, port, sz) \<Rightarrow>
               bindE (nick_of s n) (\<lambda>nk.
               bindE (serv_of s (nk_server nk)) (\<lambda>sv.
                 let path = w_user_path w @ ''/upload/''
                 in if sv_account sv = None then Inr (True, s)
                    else if \<not> check_write_file w path filename then Inr (True, s)
                    else Inr (True, createDCCGet w n (path @ ''/'' @ filename) addr port sz s)))))"

section \<open>The virtual \<open>send\<close>\<close>

text \<open>\<open>text.find(nick + ": ") == 0\<close>.\<close>

definition addressed :: "string \<Rightarrow> string \<Rightarrow> bool" where
  "addressed nm text \<longleftrightarrow> take (length nm + 2) text = nm @ '': ''"

definition enqueue_to :: "world \<Rightarrow> nid \<Rightarrow> string \<Rightarrow> net \<Rightarrow> exn + net" where
  "enqueue_to w n text s =
     bindE (nick_of s n) (\<lambda>nk. bindE (serv_of s (nk_server nk)) (\<lambda>_. enqueueMessage (ENick n) text (w_send_delay w) s))"

definition Buddy_send :: "world \<Rightarrow> nid \<Rightarrow> im_buddy \<Rightarrow> irc_msg \<Rightarrow> net \<Rightarrow> exn + net" where
  "Buddy_send w n b m s =
     bindE (getArg m 0) (\<lambda>text.
     bindE (nick_of s n) (\<lambda>nk.
     bindE (case se_entity (msg_receiver m) of
              Some (EChan c) \<Rightarrow> bindE (chan_of s c) (\<lambda>ch. Inr (ch_name ch \<noteq> [] \<and> hd (ch_name ch) = CHR ''&''))
            | _ \<Rightarrow> Inr False) (\<lambda>status_chan.
       if se_entity (msg_receiver m) = Some (ENick n) \<or> status_chan \<and> addressed (nk_name nk) text
       then let s1 = upd_nick n (\<lambda>nk. nk\<lparr>nk_public := status_chan, nk_public_last := w_now w\<rparr>) s;
                body = (if status_chan then snd (stringtok text '' '') else text)
            in bindE (process_dcc_get w n body s1) (\<lambda>(done, s2).
                 if done then Inr s2
                 else bindE (check_conv w n b s2) (enqueue_to w n body))
       else Inr s)))"

definition ChatBuddy_send :: "world \<Rightarrow> nid \<Rightarrow> im_cbuddy \<Rightarrow> irc_msg \<Rightarrow> net \<Rightarrow> exn + net" where
  "ChatBuddy_send w n k m s =
     bindE (getArg m 0) (\<lambda>text.
       if se_entity (msg_receiver m) = Some (ENick n)
       then bindE (nick_of s n) (\<lambda>nk.
            bindE (case nk_conv nk of
                     Some _ \<Rightarrow> Inr s
                   | None \<Rightarrow> attach n (w_conv_new w (w_conv_account w (w_cb_conv w k)) (w_cb_realname w k)) s)
              (enqueue_to w n text))
       else Inr s)"

definition UnknownBuddy_send :: "world \<Rightarrow> nid \<Rightarrow> irc_msg \<Rightarrow> net \<Rightarrow> exn + net" where
  "UnknownBuddy_send w n m s =
     bindE (getArg m 0) (\<lambda>text.
     bindE (nick_of s n) (\<lambda>nk.
       if se_entity (msg_receiver m) = Some (ENick n) \<and> nk_conv nk \<noteq> None then enqueue_to w n text s else Inr s))"

definition BuddyIcon_send :: "world \<Rightarrow> nid \<Rightarrow> irc_msg \<Rightarrow> net \<Rightarrow> exn + net" where
  "BuddyIcon_send w n m s =
     (if se_entity (msg_receiver m) = Some (ENick n) \<and> countArgs m > 0
      then bindE (getArg m 0) (\<lambda>text.
           bindE (parseDCCSEND text) (\<lambda>r. case r of
               None \<Rightarrow> Inr s
             | Some (filename, addr, port, sz) \<Rightarrow>
                 if \<not> check_write_file w (w_icon_path w) filename then Inr s
                 else Inr (createDCCGet w n (w_icon_path w @ ''/'' @ filename) addr port sz s)))
      else Inr s)"

definition send :: "world \<Rightarrow> nid \<Rightarrow> irc_msg \<Rightarrow> net \<Rightarrow> exn + net" where
  "send w n m s =
     bindE (nick_of s n) (\<lambda>nk.
       if msg_cmd m \<noteq> ''PRIVMSG'' then deliver n m s
       else case nk_class nk of
              CNick \<Rightarrow> Inr s
            | CUser \<Rightarrow> User_send m s
            | CBuddy b \<Rightarrow> Buddy_send w n b m s
            | CChatBuddy k \<Rightarrow> ChatBuddy_send w n k m s
            | CUnknownBuddy \<Rightarrow> UnknownBuddy_send w n m s
            | CBuddyIcon \<Rightarrow> BuddyIcon_send w n m s)"

text \<open>
  The virtual \<open>broadcast\<close>: what the user says on a conversation channel goes to the
  conversation, everything else to the people on the channel.
\<close>

definition broadcast :: "world \<Rightarrow> cid \<Rightarrow> irc_msg \<Rightarrow> nid option \<Rightarrow> net \<Rightarrow> exn + net" where
  "broadcast w c m butone s =
     bindE (chan_of s c) (\<lambda>ch.
       if ch_class ch = ConvChan \<and> msg_cmd m = ''PRIVMSG'' \<and> se_entity (msg_sender m) = Some (ENick (user_id s))
       then bindE (getArg m 0) (\<lambda>text. enqueueMessage (EChan c) text (w_send_delay w) s)
       else broadcast_with (send w) c m butone s)"

text \<open>\<open>Nick::privmsg\<close> to a channel and to a nick, line by line.\<close>

definition privmsg_chan :: "world \<Rightarrow> nid \<Rightarrow> cid \<Rightarrow> string \<Rightarrow> net \<Rightarrow> exn + net" where
  "privmsg_chan w n c msg s =
     foldE (\<lambda>line s. bindE (mk_msg ''PRIVMSG'' (Some (ENick n)) (Some (EChan c)) [line]) (\<lambda>m. broadcast w c m (Some n) s))
       (tokens msg [CHR 0x0A, CHR 0x0D]) s"

definition privmsg_nick :: "world \<Rightarrow> nid \<Rightarrow> nid \<Rightarrow> string \<Rightarrow> net \<Rightarrow> exn + net" where
  "privmsg_nick w n dest msg s =
     foldE (\<lambda>line s. bindE (mk_msg ''PRIVMSG'' (Some (ENick n)) (Some (ENick dest)) [line]) (\<lambda>m. send w dest m s))
       (tokens msg [CHR 0x0A, CHR 0x0D]) s"

section \<open>From a contact to the user\<close>

definition ConvNick_sendMessage :: "world \<Rightarrow> nid \<Rightarrow> nid \<Rightarrow> string \<Rightarrow> bool \<Rightarrow> net \<Rightarrow> exn + net" where
  "ConvNick_sendMessage w n dest t action s =
     (let line = (if action then [CHR 0x01] @ ''ACTION '' @ t @ [CHR 0x01] else t)
      in bindE (mk_msg ''PRIVMSG'' (Some (ENick n)) (Some (ENick dest)) [line]) (\<lambda>m. send w dest m s))"

definition PUBLIC_MSGS_TIMEOUT :: int where
  "PUBLIC_MSGS_TIMEOUT = 3600"

definition getStatusChannel :: "world \<Rightarrow> net \<Rightarrow> im_account \<Rightarrow> exn + cid option" where
  "getStatusChannel w s a =
     (let channame = w_acc_status_channel w a
      in if channame = [] \<or> hd channame \<noteq> CHR ''&'' then Inr None
      else case map_find (reg_chans s) channame of
        None \<Rightarrow> Inr None
      | Some c \<Rightarrow> bindE (chan_of s c) (\<lambda>ch. Inr (if ch_class ch = StatusChan then Some c else None)))"

definition Buddy_sendMessage :: "world \<Rightarrow> nid \<Rightarrow> im_buddy \<Rightarrow> nid \<Rightarrow> string \<Rightarrow> bool \<Rightarrow> net \<Rightarrow> exn + net" where
  "Buddy_sendMessage w n b dest t action s =
     bindE (nick_of s n) (\<lambda>nk.
       let pub = (nk_public nk \<and> \<not> nk_public_last nk + PUBLIC_MSGS_TIMEOUT < w_now w);
           s1 = upd_nick n (\<lambda>nk. nk\<lparr>nk_public := pub\<rparr>) s
       in bindE (if pub then getStatusChannel w s1 (w_buddy_account w b) else Inr None) (\<lambda>r. case r of
            Some c \<Rightarrow>
              bindE (nick_of s1 dest) (\<lambda>dk.
                let body = nk_name dk @ '': '' @ t;
                    line = (if action then [CHR 0x01] @ ''ACTION '' @ body @ [CHR 0x01] else body)
                in bindE (mk_msg ''PRIVMSG'' (Some (ENick n)) (Some (EChan c)) [line]) (\<lambda>m. send w dest m s1))
          | None \<Rightarrow> ConvNick_sendMessage w n dest t action s1))"

definition sendMessage :: "world \<Rightarrow> nid \<Rightarrow> nid \<Rightarrow> string \<Rightarrow> bool \<Rightarrow> net \<Rightarrow> exn + net" where
  "sendMessage w n dest t action s =
     bindE (nick_of s n) (\<lambda>nk. case nk_class nk of
         CBuddy b \<Rightarrow> Buddy_sendMessage w n b dest t action s
       | _ \<Rightarrow> ConvNick_sendMessage w n dest t action s)"

section \<open>Properties\<close>

text \<open>The lines of the texts a flush sends, split at newlines, are the queued lines.\<close>

definition queue_line :: "string \<Rightarrow> bool" where
  "queue_line x \<longleftrightarrow> x \<noteq> [] \<and> CHR 0x0A \<notin> set x"

lemma flush_texts_lines:
  assumes "\<forall>x\<in>set q. queue_line x"
  shows "concat (map (\<lambda>t. tokens t [CHR 0x0A]) (flush_texts q buf)) = tokens buf [CHR 0x0A] @ q"
  using assms
proof (induction q arbitrary: buf)
  case Nil
  then show ?case by simp
next
  case (Cons x q)
  have x: "tokens x [CHR 0x0A] = [x]"
    using Cons.prems by (intro tokens_token(2) [where c = "CHR 0x0A"]) (auto simp: queue_line_def)
  have "tokens (buf @ CHR 0x0A # x) [CHR 0x0A] = tokens buf [CHR 0x0A] @ tokens x [CHR 0x0A]"
    by (rule tokens_append_delim) simp
  then show ?case using Cons x by auto
qed



lemma set_queue_state:
  "conv_state s (ENick n) = Inr (v, q) \<Longrightarrow> conv_state (set_queue (ENick n) q' s) (ENick n) = Inr (v, q')"
  by (auto simp: conv_state_def bindE_Inr_iff of_Inr_iff set_queue_def upd_nick_def)

lemma conv_state_timers [simp]: "conv_state (s\<lparr>timers := t\<rparr>) e = conv_state s e" "conv_state (s\<lparr>im_calls := a\<rparr>) e = conv_state s e"
  by (simp_all add: conv_state_def nick_of_def chan_of_def split: entity.split)

lemma set_queue_frame [simp]:
  "im_calls (set_queue (ENick n) q s) = im_calls s" "timers (set_queue (ENick n) q s) = timers s"
  by (simp_all add: set_queue_def upd_nick_def)

lemma enqueue_more:
  assumes "conv_state s (ENick n) = Inr (v, q)" and "q \<noteq> []" and "delay \<noteq> 0"
  shows "\<exists>s'. foldE (\<lambda>t. enqueueMessage (ENick n) t delay) ts s = Inr s' \<and> conv_state s' (ENick n) = Inr (v, q @ ts) \<and>
    timers s' = timers s \<and> im_calls s' = im_calls s"
  using assms(1,2)
proof (induction ts arbitrary: s q)
  case Nil
  then show ?case by simp
next
  case (Cons t ts)
  let ?s = "set_queue (ENick n) (q @ [t]) s"
  have "enqueueMessage (ENick n) t delay s = Inr ?s"
    using Cons.prems assms(3) by (simp add: enqueueMessage_def Let_def)
  moreover have "conv_state ?s (ENick n) = Inr (v, q @ [t])" using set_queue_state [OF Cons.prems(1)] .
  from Cons.IH [OF this] obtain s' where "foldE (\<lambda>t. enqueueMessage (ENick n) t delay) ts ?s = Inr s'"
      "conv_state s' (ENick n) = Inr (v, (q @ [t]) @ ts)" "timers s' = timers ?s" "im_calls s' = im_calls ?s" by auto
  ultimately show ?case by simp
qed

lemma send_all:
  "foldE (conv_sendMessage (Some v)) ts s = Inr (s\<lparr>im_calls := im_calls s @ map (SendMessage v) ts\<rparr>)"
  by (induction ts arbitrary: s) (simp_all add: conv_sendMessage_def im_do_def)

text \<open>
  Messages typed while the send delay runs wait together: the first one starts one timer, the
  others start none and nothing is sent; when the timer fires, everything queued is sent to the
  conversation and the queue is empty.
\<close>

lemma enqueue_then_flush:
  assumes "conv_state s (ENick n) = Inr (Some v, [])" and "delay \<noteq> 0"
  shows "\<exists>s1 s2. foldE (\<lambda>t. enqueueMessage (ENick n) t delay) (t # ts) s = Inr s1
    \<and> timers s1 = timers s @ [FlushTimer (ENick n)] \<and> im_calls s1 = im_calls s
    \<and> flush_messages (ENick n) s1 = Inr s2 \<and> conv_state s2 (ENick n) = Inr (Some v, [])
    \<and> im_calls s2 = im_calls s @ map (SendMessage v) (flush_texts (t # ts) [])"
proof -
  let ?s = "(set_queue (ENick n) [t] s)\<lparr>timers := timers s @ [FlushTimer (ENick n)]\<rparr>"
  have first: "enqueueMessage (ENick n) t delay s = Inr ?s" using assms by (simp add: enqueueMessage_def Let_def)
  have "conv_state ?s (ENick n) = Inr (Some v, [t])" using set_queue_state [OF assms(1)] by simp
  from enqueue_more [OF this _ assms(2), of ts] obtain s1 where
    s1: "foldE (\<lambda>t. enqueueMessage (ENick n) t delay) ts ?s = Inr s1" "conv_state s1 (ENick n) = Inr (Some v, t # ts)"
      "timers s1 = timers s @ [FlushTimer (ENick n)]" "im_calls s1 = im_calls s" by auto
  let ?f = "s1\<lparr>im_calls := im_calls s1 @ map (SendMessage v) (flush_texts (t # ts) [])\<rparr>"
  have "flush_messages (ENick n) s1 = Inr (set_queue (ENick n) [] ?f)"
    using s1(2) by (simp add: flush_messages_def send_all del: flush_texts.simps)
  moreover have "conv_state (set_queue (ENick n) [] ?f) (ENick n) = Inr (Some v, [])"
    using s1(2) by (intro set_queue_state [where q = "t # ts"]) simp
  ultimately show ?thesis using first s1 by (intro exI conjI) (auto simp del: flush_texts.simps)
qed

theorem enqueue_then_flush_witness:
  "\<exists>s1 s2. foldE (\<lambda>t. enqueueMessage (ENick 2) t 300) [''hi'', ''there''] ((IRC_members [] ''h'')\<lparr>nicks := [2 \<mapsto> sample_buddy]\<rparr>) = Inr s1
    \<and> flush_messages (ENick 2) s1 = Inr s2 \<and> im_calls s2 = [SendMessage 7 (''hi'' @ [CHR 0x0A] @ ''there'')]"
  using enqueue_then_flush [of "(IRC_members [] ''h'')\<lparr>nicks := [2 \<mapsto> sample_buddy]\<rparr>" 2 7 300 "''hi''" "[''there'']"]
  by (auto simp: conv_state_def sample_buddy_def IRC_members_def)

text \<open>
  With file transfers switched off, nothing a user writes to a buddy is sent:
  \<open>process_dcc_get\<close> answers that it handled the text before looking at it, and \<open>Buddy::send\<close>
  returns. No conversation is opened, nothing is queued and libpurple is not called.
\<close>

lemma disabled_transfers_drop_messages:
  assumes "\<not> w_ft_enabled w" and "msg_args m \<noteq> []" and "nicks s n = Some nk"
    and "se_entity (msg_receiver m) = Some (ENick n)"
  shows "Buddy_send w n b m s = Inr (upd_nick n (\<lambda>nk. nk\<lparr>nk_public := False, nk_public_last := w_now w\<rparr>) s)"
proof -
  have "getArg m 0 = Inr (msg_args m ! 0)" using assms(2) by (simp add: getArg_def)
  then show ?thesis using assms by (simp add: Buddy_send_def process_dcc_get_def Let_def)
qed

theorem disabled_transfers_drop_messages_witness:
  "\<exists>s'. Buddy_send sample_world 2 9 ((setReceiver (ENick 2) (Message ''PRIVMSG''))\<lparr>msg_args := [''hello'']\<rparr>)
      ((IRC_members [] ''h'')\<lparr>nicks := [2 \<mapsto> sample_buddy]\<rparr>) = Inr s' \<and> im_calls s' = [] \<and> timers s' = []"
  using disabled_transfers_drop_messages [of sample_world "(setReceiver (ENick 2) (Message ''PRIVMSG''))\<lparr>msg_args := [''hello'']\<rparr>"
      "(IRC_members [] ''h'')\<lparr>nicks := [2 \<mapsto> sample_buddy]\<rparr>" 2 sample_buddy 9]
  by (simp add: sample_world_def setReceiver_def setEntity_def upd_nick_def IRC_members_def)

end
