(* ===== verification/Registry.thy ===== *)
theory Registry
  imports Delivery
begin

text \<open>
  The registries of the \<open>IRC\<close> object in \<open>src/src/irc/irc.cpp\<close>: users, channels and servers
  by name, the lookups over them, and \<open>src/src/irc/server.cpp\<close>.
\<close>

section \<open>Servers\<close>

definition Server_addNick :: "nid \<Rightarrow> server \<Rightarrow> server" where
  "Server_addNick n sv = sv\<lparr>sv_users := sv_users sv @ [n]\<rparr>"

definition countNicks :: "server \<Rightarrow> nat" where
  "countNicks sv = length (sv_users sv)"

text \<open>The virtual \<open>isOnline\<close> and \<open>isAway\<close>.\<close>

definition isOnline :: "world \<Rightarrow> nick \<Rightarrow> bool" where
  "isOnline w nk = (case nk_class nk of CBuddy b \<Rightarrow> w_buddy_online w b | _ \<Rightarrow> True)"

definition isAway :: "world \<Rightarrow> nick \<Rightarrow> bool" where
  "isAway w nk = (case nk_class nk of
       CBuddy b \<Rightarrow> \<not> w_buddy_online w b \<or> \<not> w_buddy_available w b
     | CChatBuddy _ \<Rightarrow> False
     | CUnknownBuddy \<Rightarrow> False
     | _ \<Rightarrow> nk_away nk \<noteq> [])"

definition countOnlineNicks :: "world \<Rightarrow> net \<Rightarrow> sid \<Rightarrow> exn + nat" where
  "countOnlineNicks w s i =
     bindE (serv_of s i) (\<lambda>sv.
       foldE (\<lambda>n k. bindE (nick_of s n) (\<lambda>nk. Inr (if isOnline w nk then k + 1 else k))) (sv_users sv) 0)"

definition addServer :: "sid \<Rightarrow> net \<Rightarrow> exn + net" where
  "addServer i s = bindE (serv_of s i) (\<lambda>sv. Inr (s\<lparr>reg_servers := map_set (sv_name sv) i (reg_servers s)\<rparr>))"

definition getServer :: "net \<Rightarrow> string \<Rightarrow> sid option" where
  "getServer s nm = map_find (reg_servers s) nm"

text \<open>
  \<open>removeServer\<close> deletes the server's nicks, restarting the scan of the users after each, then
  the server. Each round removes an entry, so as many rounds as there are users are enough.
\<close>

fun first_of_server :: "net \<Rightarrow> sid \<Rightarrow> (string, nid) smap \<Rightarrow> exn + (string \<times> nid) option" where
  "first_of_server s i [] = Inr None"
| "first_of_server s i ((nm, n) # m) =
     bindE (nick_of s n) (\<lambda>nk. if nk_server nk = i then Inr (Some (nm, n)) else first_of_server s i m)"

fun purge_server :: "nat \<Rightarrow> sid \<Rightarrow> net \<Rightarrow> exn + net" where
  "purge_server 0 i s = Inr s"
| "purge_server (Suc k) i s =
     bindE (first_of_server s i (reg_users s)) (\<lambda>r. case r of
         None \<Rightarrow> Inr s
       | Some (nm, n) \<Rightarrow>
           bindE (delete_nick n s) (\<lambda>s1. purge_server k i (s1\<lparr>reg_users := map_erase nm (reg_users s1)\<rparr>)))"

definition removeServer :: "string \<Rightarrow> net \<Rightarrow> exn + net" where
  "removeServer servername s =
     (case map_find (reg_servers s) servername of
        None \<Rightarrow> Inr s
      | Some i \<Rightarrow>
          bindE (purge_server (length (reg_users s)) i s) (\<lambda>s1.
            Inr (s1\<lparr>servs := (servs s1)(i := None), reg_servers := map_erase servername (reg_servers s1)\<rparr>)))"

section \<open>Channels by name\<close>

definition addChannel :: "cid \<Rightarrow> net \<Rightarrow> exn + net" where
  "addChannel c s = bindE (chan_of s c) (\<lambda>ch. Inr (s\<lparr>reg_chans := map_set (ch_name ch) c (reg_chans s)\<rparr>))"

definition getChannel :: "net \<Rightarrow> string \<Rightarrow> cid option" where
  "getChannel s channame = map_find (reg_chans s) channame"

section \<open>Nicks by name\<close>

definition addNick :: "nid \<Rightarrow> net \<Rightarrow> exn + net" where
  "addNick n s =
     bindE (nick_of s n) (\<lambda>nk.
     bindE (serv_of s (nk_server nk)) (\<lambda>_.
       Inr (upd_serv (nk_server nk) (Server_addNick n) (s\<lparr>reg_users := map_set (nk_name nk) n (reg_users s)\<rparr>))))"

definition renameNick :: "nid \<Rightarrow> string \<Rightarrow> net \<Rightarrow> exn + net" where
  "renameNick n newnick s =
     bindE (nick_of s n) (\<lambda>nk.
       addNick n (upd_nick n (\<lambda>nk. nk\<lparr>nk_name := newnick\<rparr>) (s\<lparr>reg_users := map_erase (nk_name nk) (reg_users s)\<rparr>)))"

text \<open>The three \<open>getNick\<close>: by nickname, by buddy, by conversation; the first match in key order.\<close>

definition getNick :: "net \<Rightarrow> string \<Rightarrow> bool \<Rightarrow> nid option" where
  "getNick s nickname case_sensitive =
     (let key = (if case_sensitive then nickname else strlower nickname)
      in map_option snd (find (\<lambda>(k, n). (if case_sensitive then k else strlower k) = key) (reg_users s)))"

fun find_nick :: "net \<Rightarrow> (nick \<Rightarrow> bool) \<Rightarrow> (string, nid) smap \<Rightarrow> exn + nid option" where
  "find_nick s P [] = Inr None"
| "find_nick s P ((nm, n) # m) =
     bindE (nick_of s n) (\<lambda>nk. if P nk then Inr (Some n) else find_nick s P m)"

definition getNick_buddy :: "net \<Rightarrow> im_buddy \<Rightarrow> exn + nid option" where
  "getNick_buddy s b = find_nick s (\<lambda>nk. nk_class nk = CBuddy b) (reg_users s)"

definition isConvNick :: "nick \<Rightarrow> bool" where
  "isConvNick nk = (case nk_class nk of CBuddy _ \<Rightarrow> True | CChatBuddy _ \<Rightarrow> True | CUnknownBuddy \<Rightarrow> True | _ \<Rightarrow> False)"

definition getNick_conv :: "net \<Rightarrow> im_conv \<Rightarrow> exn + nid option" where
  "getNick_conv s v = find_nick s (\<lambda>nk. isConvNick nk \<and> nk_conv nk = Some v) (reg_users s)"

text \<open>\<open>matchNick\<close> completes a mask to \<open>nick!ident@host\<close> and matches it against the long names.\<close>

definition complete_mask :: "string \<Rightarrow> string" where
  "complete_mask pattern =
     (if CHR ''!'' \<notin> set pattern
      then (if CHR ''@'' \<in> set pattern then ''*!'' @ pattern
            else if CHR '':'' \<in> set pattern then ''*!*@'' @ pattern
            else pattern @ ''!*@*'')
      else if CHR ''@'' \<notin> set pattern then pattern @ ''@*'' else pattern)"

definition matchNick :: "world \<Rightarrow> net \<Rightarrow> string \<Rightarrow> exn + nid list" where
  "matchNick w s pattern =
     foldE (\<lambda>(nm, n) acc. bindE (nick_of s n) (\<lambda>nk.
         Inr (if w_fnmatch w (complete_mask pattern) (nick_longname nk) then acc @ [n] else acc))) (reg_users s) []"

text \<open>
  The loops \<open>while(irc->getNick(name)) name += "_"\<close> and the same for channels, over the test
  \<open>taken\<close>; a registry with \<open>k\<close> entries stops them within \<open>k\<close> rounds.
\<close>

fun fresh_name :: "(string \<Rightarrow> bool) \<Rightarrow> nat \<Rightarrow> string \<Rightarrow> string" where
  "fresh_name taken 0 nm = nm"
| "fresh_name taken (Suc k) nm = (if taken nm then fresh_name taken k (nm @ ''_'') else nm)"

definition fresh_nick :: "net \<Rightarrow> string \<Rightarrow> string" where
  "fresh_nick s nm = fresh_name (\<lambda>x. getNick s x False \<noteq> None) (length (reg_users s)) nm"

definition fresh_chan :: "net \<Rightarrow> string \<Rightarrow> string" where
  "fresh_chan s nm = fresh_name (\<lambda>x. getChannel s x \<noteq> None) (length (reg_chans s)) nm"

section \<open>Building nicks\<close>

text \<open>The common constructor \<open>Nick\<close>.\<close>

definition Nick :: "nick_class \<Rightarrow> sid \<Rightarrow> string \<Rightarrow> string \<Rightarrow> string \<Rightarrow> string \<Rightarrow> nick" where
  "Nick cls server nickname identname hostname realname =
     \<lparr>nk_name = nickname, nk_ident = ident_chars identname, nk_host = host_chars hostname, nk_real = realname,
      nk_away = [], nk_server = server, nk_flags = 0, nk_channels = [], nk_class = cls, nk_conv = None,
      nk_queue = [], nk_public = False, nk_public_last = 0\<rparr>"

definition new_nick :: "nick \<Rightarrow> net \<Rightarrow> nid \<times> net" where
  "new_nick nk s = (next_id s, s\<lparr>nicks := (nicks s)(next_id s \<mapsto> nk), next_id := next_id s + 1\<rparr>)"

text \<open>\<open>user@host\<close> to identname and hostname, with the account as a suffix of the hostname.\<close>

definition split_host :: "string \<Rightarrow> string \<Rightarrow> string \<times> string" where
  "split_host full accid =
     (let (identname, hostname) = stringtok full ''@''
      in (identname, if hostname = [] then accid else hostname @ '':'' @ accid))"

definition Buddy :: "world \<Rightarrow> sid \<Rightarrow> im_buddy \<Rightarrow> nick" where
  "Buddy w server b =
     (let (identname, hostname) = split_host (w_buddy_name w b) (w_acc_id w (w_buddy_account w b));
          alias = w_buddy_alias w b;
          nickname = nickize (w_translit w)
            (if CHR ''@'' \<in> set alias \<or> has_space alias then identname else alias)
      in Nick (CBuddy b) server nickname identname hostname (w_buddy_realname w b))"

definition ChatBuddy :: "world \<Rightarrow> sid \<Rightarrow> im_cbuddy \<Rightarrow> nick" where
  "ChatBuddy w server k =
     (let (identname, hostname) = split_host (w_cb_realname w k) (w_acc_id w (w_conv_account w (w_cb_conv w k)));
          nm = w_cb_name w k;
          nickname = nickize (w_translit w) (if CHR ''@'' \<in> set nm then fst (stringtok nm ''@'') else nm)
      in Nick (CChatBuddy k) server nickname identname hostname [])"

definition UnknownBuddy :: "world \<Rightarrow> sid \<Rightarrow> im_conv \<Rightarrow> nick" where
  "UnknownBuddy w server v =
     (let (identname, hostname) = split_host (w_conv_name w v) (w_acc_id w (w_conv_account w v));
          nm = w_conv_name w v;
          nickname = nickize (w_translit w) (if CHR ''@'' \<in> set nm \<or> has_space nm then identname else nm)
      in (Nick CUnknownBuddy server nickname identname hostname [])\<lparr>nk_conv := Some v\<rparr>)"

text \<open>\<open>new X(...)\<close>, \<open>while(irc->getNick(...)) setNickname(... + "_")\<close>, \<open>irc->addNick\<close>.\<close>

definition enter_nick :: "nick \<Rightarrow> net \<Rightarrow> exn + nid \<times> net" where
  "enter_nick nk s =
     (let (n, s1) = new_nick (nk\<lparr>nk_name := fresh_nick s (nk_name nk)\<rparr>) s
      in bindE (addNick n s1) (\<lambda>s2. Inr (n, s2)))"

section \<open>Fresh names\<close>

lemma fresh_name_cases:
  "\<not> taken (fresh_name taken k nm) \<or>
    (\<forall>i<k. taken (nm @ replicate i (CHR ''_''))) \<and> fresh_name taken k nm = nm @ replicate k (CHR ''_'')"
proof (induction k arbitrary: nm)
  case 0
  then show ?case by simp
next
  case (Suc k)
  show ?case
  proof (cases "taken nm")
    case True
    from Suc [of "nm @ ''_''"] show ?thesis
    proof
      assume "\<not> taken (fresh_name taken k (nm @ ''_''))"
      with True show ?thesis by simp
    next
      assume r: "(\<forall>i<k. taken ((nm @ ''_'') @ replicate i (CHR ''_''))) \<and>
          fresh_name taken k (nm @ ''_'') = (nm @ ''_'') @ replicate k (CHR ''_'')"
      have "taken (nm @ replicate i (CHR ''_''))" if "i < Suc k" for i
        using that True r by (cases i) auto
      with r True show ?thesis by simp
    qed
  qed simp
qed

lemma fresh_name_prefix: "\<exists>j. fresh_name taken k nm = nm @ replicate j (CHR ''_'')"
proof (induction k arbitrary: nm)
  case 0
  then show ?case by (auto intro: exI [of _ 0])
next
  case (Suc k)
  from Suc [of "nm @ ''_''"] obtain j where "fresh_name taken k (nm @ ''_'') = (nm @ ''_'') @ replicate j (CHR ''_'')" by blast
  then show ?case by (cases "taken nm") (auto intro: exI [of _ "Suc j"] exI [of _ 0])
qed

text \<open>\<open>k\<close> entries cannot take \<open>k + 1\<close> names.\<close>

lemma fresh_name_free:
  assumes "\<And>x. taken x \<longleftrightarrow> f x \<in> set ks" and "length ks \<le> k"
    and "\<And>i j. f (nm @ replicate i (CHR ''_'')) = f (nm @ replicate j (CHR ''_'')) \<Longrightarrow> i = j"
  shows "\<not> taken (fresh_name taken k nm)"
proof (rule ccontr)
  assume "\<not> \<not> taken (fresh_name taken k nm)"
  then have "\<forall>i<k. taken (nm @ replicate i (CHR ''_''))" "taken (nm @ replicate k (CHR ''_''))"
    using fresh_name_cases [of taken k nm] by auto
  then have "taken (nm @ replicate i (CHR ''_''))" if "i \<le> k" for i
    using that by (cases "i = k") auto
  then have "(\<lambda>i. f (nm @ replicate i (CHR ''_''))) ` {..k} \<subseteq> set ks" using assms(1) by auto
  moreover have "inj_on (\<lambda>i. f (nm @ replicate i (CHR ''_''))) {..k}" using assms(3) by (auto simp: inj_on_def)
  ultimately have "card {..k} \<le> card (set ks)" by (meson List.finite_set card_inj_on_le)
  with card_length [of ks] assms(2) show False by simp
qed

lemma getNick_None_iff: "getNick s x False = None \<longleftrightarrow> strlower x \<notin> strlower ` fst ` set (reg_users s)"
proof -
  have "getNick s x False = None \<longleftrightarrow> \<not> (\<exists>e\<in>set (reg_users s). strlower (fst e) = strlower x)"
    by (auto simp: getNick_def find_None_iff Let_def case_prod_beta)
  then show ?thesis by (auto simp: image_iff)
qed

lemma strlower_length: "length (strlower s) = length s"
  by (simp add: strlower_def)

lemma fresh_nick_free: "getNick s (fresh_nick s nm) False = None"
proof -
  have "\<not> (getNick s (fresh_nick s nm) False \<noteq> None)"
    unfolding fresh_nick_def
  proof (rule fresh_name_free [where f = strlower and ks = "map (strlower \<circ> fst) (reg_users s)"])
    show "getNick s x False \<noteq> None \<longleftrightarrow> strlower x \<in> set (map (strlower \<circ> fst) (reg_users s))" for x
      using getNick_None_iff [of s x] by (simp add: image_comp)
    show "i = j" if "strlower (nm @ replicate i (CHR ''_'')) = strlower (nm @ replicate j (CHR ''_''))" for i j
      using arg_cong [OF that, of length] by (simp add: strlower_length)
  qed simp
  then show ?thesis by blast
qed

lemma fresh_chan_free: "getChannel s (fresh_chan s nm) = None"
proof -
  have "\<not> (getChannel s (fresh_chan s nm) \<noteq> None)"
    unfolding fresh_chan_def
  proof (rule fresh_name_free [where f = "\<lambda>x. x" and ks = "map fst (reg_chans s)"])
    show "getChannel s x \<noteq> None \<longleftrightarrow> x \<in> set (map fst (reg_chans s))" for x
      by (auto simp: getChannel_def map_of_eq_None_iff)
    show "i = j" if "nm @ replicate i (CHR ''_'') = nm @ replicate j (CHR ''_'')" for i j
      using arg_cong [OF that, of length] by simp
  qed simp
  then show ?thesis by blast
qed

lemma fresh_nick_unused: "map_find (reg_users s) (fresh_nick s nm) = None"
proof -
  have "fresh_nick s nm \<notin> fst ` set (reg_users s)"
    using fresh_nick_free [of s nm] by (auto simp: getNick_None_iff)
  then show ?thesis by (simp add: map_of_eq_None_iff)
qed

lemma fresh_name_no_space: "\<not> has_space nm \<Longrightarrow> \<not> has_space (fresh_name taken k nm)"
  using fresh_name_prefix [of taken k nm] by (auto simp: has_space_def)

section \<open>Properties\<close>

text \<open>
  C9: the loop that appends underscores until the nickname is free stops within as many rounds
  as there are users, and the name it ends with is free in any letter case.
\<close>

theorem fresh_nick_is_free:
  "getNick s (fresh_nick s nm) False = None \<and> map_find (reg_users s) (fresh_nick s nm) = None
    \<and> (\<exists>j\<le>length (reg_users s). fresh_nick s nm = nm @ replicate j (CHR ''_''))"
proof -
  have "\<exists>j\<le>k. fresh_name taken k x = x @ replicate j (CHR ''_'')" for taken k x
  proof (induction k arbitrary: x)
    case (Suc k)
    from Suc [of "x @ ''_''"] obtain j where "j \<le> k" "fresh_name taken k (x @ ''_'') = (x @ ''_'') @ replicate j (CHR ''_'')" by blast
    then show ?case by (cases "taken x") (auto intro: exI [of _ "Suc j"] exI [of _ 0])
  qed simp
  with fresh_nick_free fresh_nick_unused show ?thesis by (simp add: fresh_nick_def)
qed

end
