(* ===== verification/Channels.thy ===== *)
theory Channels
  imports Registry
begin

text \<open>
  The two kinds of channels, \<open>src/src/irc/status_channel.cpp\<close> and
  \<open>conversation_channel.cpp\<close>, the departures of a nick (\<open>part\<close>, \<open>kicked\<close>, \<open>quit\<close> of
  \<open>nick.cpp\<close>) over the virtual \<open>delUser\<close>, the deletion of a channel, and the callbacks of
  \<open>src/src/im/conversation.cpp\<close> and \<open>src/src/im/buddy.cpp\<close> that drive them.
\<close>

section \<open>Leaving\<close>

definition delUser :: "cid \<Rightarrow> nid \<Rightarrow> irc_msg \<Rightarrow> net \<Rightarrow> exn + net" where
  "delUser c n m s =
     bindE (chan_of s c) (\<lambda>ch. case ch_class ch of
         StatusChan \<Rightarrow> Channel_delUser c n m s
       | ConvChan \<Rightarrow>
           bindE (conv_delUser c n m s) (\<lambda>s1.
           bindE (nick_of s1 n) (\<lambda>nk. case nk_class nk of
               CChatBuddy _ \<Rightarrow> removeNick (nk_name nk) s1
             | _ \<Rightarrow> Inr (if n = user_id s1 then im_do (Leave (ch_conv ch)) s1 else s1))))"

definition part :: "nid \<Rightarrow> cid \<Rightarrow> string \<Rightarrow> net \<Rightarrow> exn + net" where
  "part n c message s =
     bindE (mk_msg ''PART'' (Some (ENick n)) (Some (EChan c)) [message]) (\<lambda>m.
     bindE (getChanUser s n c) (\<lambda>r. case r of
         None \<Rightarrow> Inr s
       | Some u \<Rightarrow> bindE (deliver n m (unlist n u s)) (delUser c n m)))"

definition kicked_step :: "nid \<Rightarrow> cid \<Rightarrow> uid \<Rightarrow> string \<Rightarrow> uid \<Rightarrow> net \<Rightarrow> exn + net" where
  "kicked_step n c from message u s =
     bindE (nick_of s n) (\<lambda>nk.
     bindE (cuser_of s u) (\<lambda>cu.
       if cu_chan cu = c
       then bindE (mk_msg ''KICK'' (Some (ECUser from)) (Some (EChan c)) [nk_name nk, message]) (\<lambda>m.
              delUser c n m (unlist n u s))
       else Inr s))"

definition kicked :: "nid \<Rightarrow> cid \<Rightarrow> uid \<Rightarrow> string \<Rightarrow> net \<Rightarrow> exn + net" where
  "kicked n c from message s =
     bindE (nick_of s n) (\<lambda>nk. foldE (kicked_step n c from message) (nk_channels nk) s)"

definition quit_nick :: "nid \<Rightarrow> string \<Rightarrow> net \<Rightarrow> exn + net" where
  "quit_nick n text s = quit_with (\<lambda>c n. delUser c n (Message [])) n text s"

section \<open>\<open>ConversationChannel\<close>\<close>

definition normalizeIRCName :: "world \<Rightarrow> string \<Rightarrow> im_account \<Rightarrow> string" where
  "normalizeIRCName w nm acc = ''#'' @ map (\<lambda>c. if c = CHR '' '' then CHR ''_'' else c) nm @ '':'' @ w_acc_id w acc"

definition getChanName :: "world \<Rightarrow> im_conv \<Rightarrow> string" where
  "getChanName w v = normalizeIRCName w (w_conv_name w v) (w_conv_account w v)"

text \<open>The up-server is the account's \<open>RemoteServer\<close>, looked up when the channel is built.\<close>

definition upserver :: "world \<Rightarrow> net \<Rightarrow> im_conv \<Rightarrow> exn + sid option" where
  "upserver w s v =
     (case getServer s (w_acc_servername w (w_conv_account w v)) of
        None \<Rightarrow> Inr None
      | Some i \<Rightarrow> bindE (serv_of s i) (\<lambda>sv. Inr (if sv_account sv = None then None else Some i)))"

definition ConversationChannel :: "world \<Rightarrow> im_conv \<Rightarrow> sid option \<Rightarrow> channel" where
  "ConversationChannel w v up =
     \<lparr>ch_name = getChanName w v, ch_users = [], ch_topic = [], ch_class = ConvChan, ch_accounts = [],
      ch_conv = v, ch_queue = [], ch_cbuddies = [], ch_upserver = up\<rparr>"

definition isMe :: "world \<Rightarrow> im_cbuddy \<Rightarrow> bool" where
  "isMe w k \<longleftrightarrow> w_cb_name w k = w_conv_nick w (w_cb_conv w k)"

definition set_cbuddy :: "cid \<Rightarrow> im_cbuddy \<Rightarrow> uid \<Rightarrow> net \<Rightarrow> net" where
  "set_cbuddy c k u s = upd_chan c (\<lambda>ch. ch\<lparr>ch_cbuddies := map_set k u (ch_cbuddies ch)\<rparr>) s"

text \<open>A \<open>Nick\<close> built without server fails its assertion.\<close>

definition addBuddy :: "world \<Rightarrow> cid \<Rightarrow> im_cbuddy \<Rightarrow> 32 word \<Rightarrow> net \<Rightarrow> exn + net" where
  "addBuddy w c k status s =
     bindE (chan_of s c) (\<lambda>ch.
     bindE (if isMe w k then join w (user_id s) c status s
            else case map_find (ch_cbuddies ch) k of
                   Some u \<Rightarrow> Inr (u, s)
                 | None \<Rightarrow>
                     (case ch_upserver ch of
                        None \<Rightarrow> Inl AssertionFailed
                      | Some i \<Rightarrow>
                          bindE (enter_nick (ChatBuddy w i k) s) (\<lambda>(n, s1). join w n c status s1))) (\<lambda>(u, s').
       Inr (set_cbuddy c k u s')))"

definition status_added :: "32 word \<Rightarrow> 32 word \<Rightarrow> 32 word" where
  "status_added mlast mnew =
     foldl (\<lambda>acc i. if \<not> bit mlast i \<and> bit mnew i then acc OR push_bit i 1 else acc) 0 [0..<32]"

definition status_deleted :: "32 word \<Rightarrow> 32 word \<Rightarrow> 32 word" where
  "status_deleted mlast mnew =
     foldl (\<lambda>acc i. if bit mlast i \<and> \<not> bit mnew i then acc OR push_bit i 1 else acc) 0 [0..<32]"

definition updateBuddy :: "world \<Rightarrow> cid \<Rightarrow> im_cbuddy \<Rightarrow> net \<Rightarrow> exn + net" where
  "updateBuddy w c k s =
     bindE (chan_of s c) (\<lambda>ch. case map_find (ch_cbuddies ch) k of
         None \<Rightarrow> Inl NullPointer
       | Some u \<Rightarrow>
           bindE (cuser_of s u) (\<lambda>cu.
             let mlast = cu_status cu; mnew = w_cb_status w k;
                 add = status_added mlast mnew; del = status_deleted mlast mnew
             in seqE [setMode w (Some (EServer (irc_id s))) c add u,
                      delMode w (Some (EServer (irc_id s))) c del u] s))"

definition renameBuddy :: "world \<Rightarrow> cid \<Rightarrow> uid option \<Rightarrow> im_cbuddy \<Rightarrow> net \<Rightarrow> exn + net" where
  "renameBuddy w c cu k s =
     (case cu of
        None \<Rightarrow> Inl NullPointer
      | Some u \<Rightarrow>
          bindE (cuser_of s u) (\<lambda>x.
          bindE (nick_of s (cu_nick x)) (\<lambda>nk. case nk_class nk of
              CChatBuddy old \<Rightarrow>
                (let n = cu_nick x; newnick = fresh_nick s (nickize (w_translit w) (w_cb_name w k))
                 in bindE (if nk_name nk \<noteq> newnick
                           then bindE (mk_msg ''NICK'' (Some (ENick n)) None [newnick]) (\<lambda>m.
                                  seqE [deliver (user_id s) m, renameNick n newnick] s)
                           else Inr s) (\<lambda>s1.
                    Inr (set_cbuddy c k u
                      (upd_nick n (\<lambda>nk. nk\<lparr>nk_class := CChatBuddy k\<rparr>)
                      (upd_chan c (\<lambda>ch. ch\<lparr>ch_cbuddies := map_erase old (ch_cbuddies ch)\<rparr>) s1)))))
            | _ \<Rightarrow> Inl NullPointer)))"

definition conv_getChanUser :: "world \<Rightarrow> channel \<Rightarrow> string \<Rightarrow> uid option" where
  "conv_getChanUser w ch nm =
     map_option snd (find (\<lambda>(k, u). strlower (w_cb_name w k) = strlower nm) (ch_cbuddies ch))"

text \<open>The virtual \<open>getChanUser\<close> by name.\<close>

definition getChanUser_name :: "world \<Rightarrow> net \<Rightarrow> cid \<Rightarrow> string \<Rightarrow> exn + uid option" where
  "getChanUser_name w s c nm =
     bindE (chan_of s c) (\<lambda>ch. case ch_class ch of
         StatusChan \<Rightarrow> Channel_getChanUser s c nm
       | ConvChan \<Rightarrow> Inr (conv_getChanUser w ch nm))"

section \<open>Deleting a channel\<close>

definition drop_cbuddy :: "cid \<Rightarrow> im_cbuddy \<times> uid \<Rightarrow> net \<Rightarrow> exn + net" where
  "drop_cbuddy c e s =
     bindE (cuser_of s (snd e)) (\<lambda>cu.
     bindE (nick_of s (cu_nick cu)) (\<lambda>nk. case nk_class nk of
         CChatBuddy _ \<Rightarrow>
           seqE [Channel_delUser c (cu_nick cu) (Message []), removeChanUser (cu_nick cu) (snd e), removeNick (nk_name nk)] s
       | _ \<Rightarrow> Inr s))"

definition drop_user :: "cid \<Rightarrow> uid \<Rightarrow> net \<Rightarrow> exn + net" where
  "drop_user c u s =
     bindE (cuser_of s u) (\<lambda>cu.
     bindE (mk_msg ''PART'' (Some (ECUser u)) (Some (EChan c)) []) (\<lambda>m.
     bindE (deliver (cu_nick cu) m s) (\<lambda>s1.
     bindE (removeChanUser (cu_nick cu) u s1) (\<lambda>s2.
       Inr (s2\<lparr>cusers := (cusers s2)(u := None)\<rparr>)))))"

definition delete_channel :: "cid \<Rightarrow> net \<Rightarrow> exn + net" where
  "delete_channel c s =
     bindE (chan_of s c) (\<lambda>ch.
     bindE (if ch_class ch = ConvChan then foldE (drop_cbuddy c) (ch_cbuddies ch) s else Inr s) (\<lambda>s1.
     bindE (chan_of s1 c) (\<lambda>ch1.
     bindE (foldE (drop_user c) (ch_users ch1) s1) (\<lambda>s2.
       Inr (s2\<lparr>chans := (chans s2)(c := None)\<rparr>)))))"

definition removeChannel :: "string \<Rightarrow> net \<Rightarrow> exn + net" where
  "removeChannel channame s =
     (case map_find (reg_chans s) channame of
        None \<Rightarrow> Inr s
      | Some c \<Rightarrow> bindE (delete_channel c s) (\<lambda>s1. Inr (s1\<lparr>reg_chans := map_erase channame (reg_chans s1)\<rparr>)))"

section \<open>\<open>StatusChannel\<close>\<close>

definition StatusChannel :: "string \<Rightarrow> channel" where
  "StatusChannel nm =
     \<lparr>ch_name = nm, ch_users = [], ch_topic = [], ch_class = StatusChan, ch_accounts = [],
      ch_conv = 0, ch_queue = [], ch_cbuddies = [], ch_upserver = None\<rparr>"

definition addAccount :: "im_account \<Rightarrow> channel \<Rightarrow> channel" where
  "addAccount a ch = ch\<lparr>ch_accounts := ch_accounts ch @ [a]\<rparr>"

definition removeAccount :: "im_account \<Rightarrow> channel \<Rightarrow> channel" where
  "removeAccount a ch = ch\<lparr>ch_accounts := remove1 a (ch_accounts ch)\<rparr>"

definition getMaskFromName :: "world \<Rightarrow> string \<Rightarrow> im_account \<Rightarrow> string" where
  "getMaskFromName w nm acc =
     (let ban = ''*!'' @ nm
      in if CHR ''@'' \<notin> set ban then ban @ ''@'' @ w_acc_id w acc else ban @ '':'' @ w_acc_id w acc)"

text \<open>\<open>showBanList\<close>, virtual: a conversation channel shows an empty list.\<close>

definition showBanList :: "world \<Rightarrow> cid \<Rightarrow> nid \<Rightarrow> net \<Rightarrow> exn + net" where
  "showBanList w c dest s =
     bindE (chan_of s c) (\<lambda>ch.
     bindE (foldE (\<lambda>(a, str) s.
              bindE (mk_msg ''367'' (Some (EServer (irc_id s))) (Some (ENick dest))
                       [ch_name ch, getMaskFromName w str a, w_acc_servername w a, ''0'']) (\<lambda>m. deliver dest m s))
            (if ch_class ch = StatusChan then concat (map (\<lambda>a. map (\<lambda>str. (a, str)) (w_acc_deny_list w a)) (ch_accounts ch)) else []) s) (\<lambda>s1.
     bindE (mk_msg ''368'' (Some (EServer (irc_id s))) (Some (ENick dest)) [ch_name ch, ''End of Channel Ban List'']) (\<lambda>m.
       deliver dest m s1)))"

text \<open>\<open>Account::deny\<close> or \<open>allow\<close>, and the \<open>MODE\<close> broadcast when it succeeds.\<close>

definition ban_one :: "world \<Rightarrow> cid \<Rightarrow> nid \<Rightarrow> bool \<Rightarrow> im_account \<Rightarrow> string \<Rightarrow> net \<Rightarrow> exn + net" where
  "ban_one w c from add a nm s =
     (let s1 = im_do (if add then Deny a nm else Allow a nm) s
      in if (if add then w_acc_deny_ok w a nm else w_acc_allow_ok w a nm)
         then bindE (mk_msg ''MODE'' (Some (ENick from)) (Some (EChan c))
                       [if add then ''+b'' else ''-b'', getMaskFromName w nm a]) (\<lambda>m. broadcast w c m None s1)
         else Inr s1)"

definition processBan :: "world \<Rightarrow> cid \<Rightarrow> nid \<Rightarrow> string \<Rightarrow> bool \<Rightarrow> net \<Rightarrow> exn + net" where
  "processBan w c from pattern add s =
     bindE (chan_of s c) (\<lambda>ch. case ch_class ch of
         ConvChan \<Rightarrow> Inr s
       | StatusChan \<Rightarrow>
           bindE (matchNick w s pattern) (\<lambda>results.
             if results \<noteq> []
             then foldE (\<lambda>n s. bindE (nick_of s n) (\<lambda>nk. case nk_class nk of
                      CBuddy b \<Rightarrow> ban_one w c from add (w_buddy_account w b) (w_buddy_name w b) s
                    | _ \<Rightarrow> Inr s)) results s
             else
               let (pat1, acc1) = stringtok pattern '':'';
                   (pat2, accid) = (if acc1 = [] then stringtok pat1 ''@'' else (pat1, acc1));
                   acc = (case find (\<lambda>a. w_acc_id w a = accid) (ch_accounts ch) of
                            Some a \<Rightarrow> Some a
                          | None \<Rightarrow> if length (ch_accounts ch) = 1 then Some (hd (ch_accounts ch)) else None)
               in case acc of
                    None \<Rightarrow>
                      bindE (mk_msg ''401'' (Some (EServer (irc_id s))) (Some (ENick from))
                               [if accid = [] then pat2 else accid,
                                if accid = [] then ''Please sufix mask with '' @ [CHR 0x27] @ '':accountID'' @ [CHR 0x27] else ''No such account''])
                        (\<lambda>m. deliver from m s)
                  | Some a \<Rightarrow>
                      ban_one w c from add a (if CHR ''!'' \<in> set pat2 then snd (stringtok pat2 ''!'') else pat2) s))"

text \<open>\<open>kick\<close>, virtual: conversation channels refuse.\<close>

definition kick :: "world \<Rightarrow> cid \<Rightarrow> uid \<Rightarrow> uid \<Rightarrow> string \<Rightarrow> net \<Rightarrow> exn + net" where
  "kick w c from victim message s =
     bindE (chan_of s c) (\<lambda>ch. case ch_class ch of
         ConvChan \<Rightarrow> Inr s
       | StatusChan \<Rightarrow>
           bindE (cuser_of s victim) (\<lambda>v.
           bindE (nick_of s (cu_nick v)) (\<lambda>vk.
           bindE (cuser_of s from) (\<lambda>f. case nk_class vk of
               CBuddy b \<Rightarrow>
                 bindE (serv_of s (nk_server vk)) (\<lambda>sv. case sv_account sv of
                     None \<Rightarrow>
                       foldE (\<lambda>line s. bindE (mk_msg ''NOTICE'' (Some (EServer (irc_id s))) (Some (ENick (user_id s))) [line])
                           (\<lambda>m. deliver (cu_nick f) m s)) (tokens (cu_name v @ '' is not on a remote server'') [CHR 0x0A, CHR 0x0D]) s
                   | Some a \<Rightarrow>
                       bindE (kicked (cu_nick v) c from (''Removed from buddy list'' @ (if message = [] then [] else '': '' @ message)) s)
                         (\<lambda>s1. Inr (im_do (RemoveBuddy a b) s1)))
             | _ \<Rightarrow>
                 bindE (mk_msg ''482'' (Some (EServer (irc_id s))) (Some (ECUser from))
                          [ch_name ch, ''Permission denied: you can only kick a buddy'']) (\<lambda>m. deliver (cu_nick f) m s)))))"

text \<open>\<open>setTopic\<close>, virtual; the result is whether the topic may be changed.\<close>

definition setTopic :: "world \<Rightarrow> cid \<Rightarrow> entity option \<Rightarrow> string \<Rightarrow> net \<Rightarrow> exn + bool \<times> net" where
  "setTopic w c from topic s =
     bindE (chan_of s c) (\<lambda>ch. case ch_class ch of
         StatusChan \<Rightarrow>
           bindE (Channel_setTopic c from topic s) (\<lambda>s1.
             Inr (True, foldl (\<lambda>s a. im_do (SetAccountStatus a topic) s) s1 (ch_accounts ch)))
       | ConvChan \<Rightarrow>
           if from = Some (ENick (user_id s))
           then Inr (if w_set_topic_ok w (ch_conv ch) then (True, im_do (SetChatTopic (ch_conv ch) topic) s) else (False, s))
           else bindE (Channel_setTopic c from topic s) (\<lambda>s1. Inr (True, s1)))"

section \<open>Callbacks of libpurple\<close>

text \<open>\<open>Conversation::createChannel\<close>.\<close>

definition createChannel :: "world \<Rightarrow> im_conv \<Rightarrow> net \<Rightarrow> exn + net" where
  "createChannel w v s =
     bindE (upserver w s v) (\<lambda>up.
       let c = next_id s; ch0 = ConversationChannel w v up;
           ch = ch0\<lparr>ch_name := fresh_chan s (ch_name ch0)\<rparr>;
           s1 = s\<lparr>next_id := c + 1, chans := (chans s)(c \<mapsto> ch), conv_chan := (conv_chan s)(v \<mapsto> c)\<rparr>
       in bindE (addChannel c s1) (\<lambda>s2.
          bindE (join w (user_id s2) c 0 s2) (\<lambda>(u, s3). Inr s3)))"

definition destroyChannel :: "im_conv \<Rightarrow> net \<Rightarrow> exn + net" where
  "destroyChannel v s =
     (case conv_chan s v of
        None \<Rightarrow> Inl NullPointer
      | Some c \<Rightarrow>
          bindE (chan_of s c) (\<lambda>ch.
          bindE (removeChannel (ch_name ch) s) (\<lambda>s1. Inr (s1\<lparr>conv_chan := (conv_chan s1)(v := None)\<rparr>))))"

text \<open>\<open>Conversation::destroy\<close> of a conversation with a single contact.\<close>

definition destroy_im :: "im_conv \<Rightarrow> net \<Rightarrow> exn + net" where
  "destroy_im v s =
     bindE (setNick v None True s) (\<lambda>s1.
     bindE (getNick_conv s1 v) (\<lambda>r. case r of
         None \<Rightarrow> Inr s1
       | Some n \<Rightarrow> setConversation n None s1))"

definition add_users :: "world \<Rightarrow> im_conv \<Rightarrow> im_cbuddy list \<Rightarrow> net \<Rightarrow> exn + net" where
  "add_users w v ks s =
     (case conv_chan s v of
        None \<Rightarrow> Inr s
      | Some c \<Rightarrow> foldE (\<lambda>k. addBuddy w c k (w_cb_status w k)) ks s)"

definition remove_user :: "world \<Rightarrow> im_conv \<Rightarrow> string \<Rightarrow> string \<Rightarrow> net \<Rightarrow> exn + net" where
  "remove_user w v cbname reason s =
     (case conv_chan s v of
        None \<Rightarrow> Inr s
      | Some c \<Rightarrow>
          bindE (getChanUser_name w s c cbname) (\<lambda>r. case r of
              None \<Rightarrow> Inr s
            | Some u \<Rightarrow> bindE (cuser_of s u) (\<lambda>cu. part (cu_nick cu) c reason s)))"

definition topic_changed :: "world \<Rightarrow> im_conv \<Rightarrow> string option \<Rightarrow> string \<Rightarrow> net \<Rightarrow> exn + net" where
  "topic_changed w v who topic s =
     (case conv_chan s v of
        None \<Rightarrow> Inr s
      | Some c \<Rightarrow>
          bindE (case who of None \<Rightarrow> Inr None | Some x \<Rightarrow> getChanUser_name w s c x) (\<lambda>r.
          bindE (setTopic w c (map_option ECUser r) topic s) (\<lambda>(ok, s1). Inr s1)))"

text \<open>\<open>Conversation::recvMessage\<close> for a contact and for a chat.\<close>

definition recv_im :: "world \<Rightarrow> im_conv \<Rightarrow> string \<Rightarrow> string \<Rightarrow> bool \<Rightarrow> net \<Rightarrow> exn + net" where
  "recv_im w v from text action s =
     bindE (case conv_ui s v of
         Some n \<Rightarrow> Inr (Some (n, s))
       | None \<Rightarrow>
           bindE (getNick_conv s v) (\<lambda>r.
           bindE (case r of
               Some n \<Rightarrow> Inr (Some (n, s))
             | None \<Rightarrow>
                 bindE (case getNick s from False of
                     None \<Rightarrow> Inr None
                   | Some n \<Rightarrow> bindE (nick_of s n) (\<lambda>nk. Inr (case nk_class nk of CBuddy _ \<Rightarrow> Some n | _ \<Rightarrow> None))) (\<lambda>b. case b of
                     Some n \<Rightarrow> Inr (Some (n, s))
                   | None \<Rightarrow>
                       if \<not> w_accept_unknown w then Inr None
                       else (case getServer s (w_acc_servername w (w_conv_account w v)) of
                               None \<Rightarrow> Inl AssertionFailed
                             | Some i \<Rightarrow> bindE (enter_nick (UnknownBuddy w i v) s) (\<lambda>x. Inr (Some x))))) (\<lambda>t. case t of
               None \<Rightarrow> Inr None
             | Some (n, s1) \<Rightarrow> bindE (seqE [setNick v (Some n) True, setConversation n (Some v)] s1) (\<lambda>s2. Inr (Some (n, s2)))))) (\<lambda>t. case t of
         None \<Rightarrow> Inr s
       | Some (n, s1) \<Rightarrow>
           foldE (\<lambda>line s. sendMessage w n (user_id s) line action s) (tokens text [CHR 0x0A, CHR 0x0D]) s1)"

definition recv_chat :: "world \<Rightarrow> im_conv \<Rightarrow> string \<Rightarrow> string \<Rightarrow> bool \<Rightarrow> net \<Rightarrow> exn + net" where
  "recv_chat w v from text action s =
     (case conv_chan s v of
        None \<Rightarrow> Inr s
      | Some c \<Rightarrow>
          bindE (getChanUser_name w s c from) (\<lambda>r.
            let sender = (case r of Some u \<Rightarrow> setEntity (Some (ECUser u))
                          | None \<Rightarrow> setName (fresh_nick s (nickize (w_translit w) from)))
            in foldE (\<lambda>line s.
                 let body = (if action then [CHR 0x01] @ ''ACTION '' @ line @ [CHR 0x01] else line)
                 in bindE (mk_msg ''PRIVMSG'' None (Some (EChan c)) [body]) (\<lambda>m. broadcast w c (m\<lparr>msg_sender := sender\<rparr>) None s))
               (tokens text [CHR 0x0A, CHR 0x0D]) s))"

text \<open>\<open>im::Buddy::updated\<close>, \<open>update_node\<close> and \<open>removed_node\<close>.\<close>

definition buddy_nick :: "net \<Rightarrow> im_buddy \<Rightarrow> exn + nid option" where
  "buddy_nick s b = (case buddy_ui s b of Some n \<Rightarrow> Inr (Some n) | None \<Rightarrow> getNick_buddy s b)"

definition updated :: "world \<Rightarrow> im_buddy \<Rightarrow> net \<Rightarrow> exn + net" where
  "updated w b s =
     bindE (getStatusChannel w s (w_buddy_account w b)) (\<lambda>r. case r of
         None \<Rightarrow> Inr s
       | Some c \<Rightarrow>
           bindE (buddy_nick s b) (\<lambda>t. case t of
               None \<Rightarrow> Inr s
             | Some n \<Rightarrow>
                 if w_buddy_online w b
                 then let available = (w_buddy_available w b \<and> w_voiced_buddies w)
                      in bindE (getChanUser s n c) (\<lambda>x. case x of
                           None \<Rightarrow> bindE (join w n c (if available then w_voice w else 0) s) (\<lambda>(u, s1). Inr s1)
                         | Some u \<Rightarrow>
                             bindE (cuser_of s u) (\<lambda>cu.
                               if available \<noteq> hasStatus (w_voice w) cu
                               then (if available then setMode w (Some (EServer (irc_id s))) c (w_voice w) u s
                                     else delMode w (Some (EServer (irc_id s))) c (w_voice w) u s)
                               else Inr s))
                 else bindE (isOn s n c) (\<lambda>on. if on then quit_nick n ''Signed-Off'' s else Inr s)))"

definition update_node :: "world \<Rightarrow> im_buddy \<Rightarrow> net \<Rightarrow> exn + net" where
  "update_node w b s =
     bindE (case buddy_ui s b of
         Some n \<Rightarrow> Inr (Some (n, s))
       | None \<Rightarrow>
           (case getServer s (w_acc_servername w (w_buddy_account w b)) of
              None \<Rightarrow> Inr None
            | Some i \<Rightarrow>
                bindE (enter_nick (Buddy w i b) s) (\<lambda>(n, s1). Inr (Some (n, s1\<lparr>buddy_ui := (buddy_ui s1)(b \<mapsto> n)\<rparr>))))) (\<lambda>t. case t of
         None \<Rightarrow> Inr s
       | Some (n, s1) \<Rightarrow>
           bindE (nick_of s1 n) (\<lambda>nk.
             updated w b (if w_buddy_alias w b \<noteq> nk_name nk then im_do (SetAlias b (nk_name nk) False) s1 else s1)))"

definition removed_node :: "im_buddy \<Rightarrow> net \<Rightarrow> exn + net" where
  "removed_node b s =
     bindE (buddy_nick s b) (\<lambda>t. case t of
         None \<Rightarrow> Inr s
       | Some n \<Rightarrow>
           bindE (quit_nick n ''Removed'' s) (\<lambda>s1.
           bindE (nick_of s1 n) (\<lambda>nk. removeNick (nk_name nk) s1)))"

section \<open>Departures keep the invariant\<close>

definition session_ok :: "net \<Rightarrow> bool" where
  "session_ok s \<longleftrightarrow> all_ok s \<and> reg_ok s"

lemma invD:
  assumes "session_ok s"
  shows "all_ok s" "net_ok s" "cb_ok s" "env_ok s" "reg_ok s"
  using assms by (simp_all add: session_ok_def all_ok_def)

lemma reg_okD:
  assumes "reg_ok s"
  shows "map_wf (reg_users s)"
    and "nicks s n = Some nk \<Longrightarrow> map_find (reg_users s) (nk_name nk) = Some n"
    and "map_find (reg_users s) nm = Some n \<Longrightarrow> \<exists>nk. nicks s n = Some nk \<and> nk_name nk = nm"
    and "nicks s n = Some nk \<Longrightarrow> \<exists>sv. servs s (nk_server nk) = Some sv"
  using assms unfolding reg_ok_def by blast+

lemma inv_out [simp]: "session_ok (s\<lparr>out := y\<rparr>) = session_ok s"
  by (simp add: session_ok_def reg_ok_def)

lemma inv_im_calls [simp]: "session_ok (s\<lparr>im_calls := y\<rparr>) = session_ok s"
proof -
  have "skel (s\<lparr>im_calls := y\<rparr>) = skel s" by (simp add: skel_def)
  then have "net_ok (s\<lparr>im_calls := y\<rparr>) = net_ok s" using net_ok_skel by metis
  then show ?thesis by (simp add: session_ok_def all_ok_def cb_ok_def env_ok_def reg_ok_def)
qed

lemma inv_leave:
  assumes "session_ok s" and "cusers s u = Some cu"
  shows "session_ok (unlist (cu_nick cu) u (leave_chan (cu_chan cu) u s))" (is "session_ok ?s")
proof -
  have eq: "(leave_chan (cu_chan cu) u s)\<lparr>im_calls := im_calls (leave_chan (cu_chan cu) u s)\<rparr> = leave_chan (cu_chan cu) u s" by simp
  have "net_ok ?s" "cb_ok ?s"
    using net_ok_leave_chan [OF invD(2) [OF assms(1)] assms(2), of "im_calls (leave_chan (cu_chan cu) u s)"]
      cb_ok_leave_chan [OF invD(3) [OF assms(1)] assms(2), of "im_calls (leave_chan (cu_chan cu) u s)"] by (simp_all only: eq)
  moreover have "env_ok ?s" using invD(4) [OF assms(1)] unfolding env_ok_def by (auto split: if_splits)
  moreover have "reg_ok ?s" using invD(5) [OF assms(1)] unfolding reg_ok_def by (auto split: if_splits)
  ultimately show ?thesis by (simp add: session_ok_def all_ok_def)
qed

text \<open>A nick that is deleted and taken out of the registry leaves the invariant as it is.\<close>

lemma inv_without:
  assumes "session_ok s" and "nicks s n = Some nk" and "n \<noteq> user_id s" and "net_ok s'" and "cb_ok s'" and "nicks s' = (nicks s)(n := None)"
    and "reg_users s' = map_erase (nk_name nk) (reg_users s)" and "\<And>i. servs s i \<noteq> None \<Longrightarrow> servs s' i \<noteq> None"
    and "core s' = core (s\<lparr>servs := servs s', reg_users := reg_users s', dccs := dccs s'\<rparr>)"
  shows "session_ok s'"
proof -
  note ok = invD [OF assms(1)] and reg = reg_okD [OF invD(5) [OF assms(1)]]
  have ids: "user_id s' = user_id s" "irc_id s' = irc_id s" "next_id s' = next_id s"
    and names: "map_option ch_name (chans s' c) = map_option ch_name (chans s c)" for c
  proof -
    show "user_id s' = user_id s" "irc_id s' = irc_id s" "next_id s' = next_id s" using assms(9) by (simp_all add: core_def)
    have "map_option (\<lambda>ch. (ch_name ch, ch_topic ch, ch_class ch, ch_accounts ch, ch_conv ch, ch_queue ch)) (chans s' c)
        = map_option (\<lambda>ch. (ch_name ch, ch_topic ch, ch_class ch, ch_accounts ch, ch_conv ch, ch_queue ch)) (chans s c)"
      using assms(9) by (simp add: core_def fun_eq_iff)
    then show "map_option ch_name (chans s' c) = map_option ch_name (chans s c)"
      by (cases "chans s' c"; cases "chans s c") auto
  qed
  have "env_ok s'"
    unfolding env_ok_def ids
  proof (intro conjI allI impI)
    show "\<not> has_space (nk_name x)" "nk_class x = CUser \<longleftrightarrow> k = user_id s" "k < next_id s" if "nicks s' k = Some x" for k x
      using env_okD(1,2,6) [OF ok(4), of k x] that assms(6) by (auto split: if_splits)
    show "\<not> has_space (ch_name x)" "c < next_id s" if "chans s' c = Some x" for c x
      using names [of c] that env_okD(3,7) [OF ok(4), of c] by (cases "chans s c"; auto)+
    show "nicks s' (user_id s) \<noteq> None" using env_okD(4) [OF ok(4)] assms(3,6) by auto
    show "servs s' (irc_id s) \<noteq> None" using env_okD(5) [OF ok(4)] assms(8) by auto
  qed
  moreover have "reg_ok s'"
    unfolding reg_ok_def
  proof (intro conjI allI impI)
    show "map_wf (reg_users s')" using reg(1) assms(7) by (simp add: map_wf_erase)
    fix nm k
    show "map_find (reg_users s') nm = Some k \<longleftrightarrow> (\<exists>x. nicks s' k = Some x \<and> nk_name x = nm)"
    proof -
      have "map_find (reg_users s) nm = Some k \<longleftrightarrow> (\<exists>x. nicks s k = Some x \<and> nk_name x = nm)" using ok(5) unfolding reg_ok_def by blast
      moreover have "k = n \<longleftrightarrow> nm = nk_name nk" if "\<exists>x. nicks s k = Some x \<and> nk_name x = nm"
        using that reg(2) assms(2) by (metis option.inject)
      ultimately show ?thesis unfolding assms(7) map_find_erase assms(6) by auto
    qed
  next
    fix k x assume "nicks s' k = Some x"
    then show "\<exists>sv. servs s' (nk_server x) = Some sv"
      using reg(4) [of k x] assms(6) assms(8) [of "nk_server x"] by (auto split: if_splits)
  qed
  ultimately show ?thesis using assms(4,5) by (simp add: session_ok_def all_ok_def)
qed

lemma inv_removeNick:
  assumes "session_ok s" and "nicks s n = Some nk" and "n \<noteq> user_id s"
  shows "\<exists>s'. removeNick (nk_name nk) s = Inr s' \<and> session_ok s' \<and> nicks s' = (nicks s)(n := None) \<and>
    core s' = core (s\<lparr>servs := servs s', reg_users := reg_users s', dccs := dccs s'\<rparr>)"
proof -
  note ok = invD [OF assms(1)]
  from removeNick_spec [OF ok(2,3,5) reg_okD(2) [OF ok(5) assms(2)] assms(2)] obtain s' where
    s': "removeNick (nk_name nk) s = Inr s'" "net_ok s'" "cb_ok s'" "nicks s' = (nicks s)(n := None)"
      "reg_users s' = map_erase (nk_name nk) (reg_users s)"
      "servs s' = (servs s)(nk_server nk := map_option (Server_removeNick n) (servs s (nk_server nk)))"
      "core s' = core (s\<lparr>servs := servs s', reg_users := reg_users s', dccs := dccs s'\<rparr>)" by blast
  have "servs s i \<noteq> None \<Longrightarrow> servs s' i \<noteq> None" for i using s'(6) by auto
  from inv_without [OF assms s'(2-5) this s'(7)] s' show ?thesis by blast
qed

lemma take_out_unlist: "take_out c u (unlist n u s) = unlist n u (take_out c u s)"
  and leave_chan_unlist: "leave_chan c u (unlist n u s) = unlist n u (leave_chan c u s)"
  by (cases s; simp add: take_out_def unlist_def leave_chan_def upd_chan_def upd_nick_def)+

lemma take_out_out: "take_out c u (s\<lparr>out := y\<rparr>) = (take_out c u s)\<lparr>out := y\<rparr>"
  and leave_chan_out: "leave_chan c u (s\<lparr>out := y\<rparr>) = (leave_chan c u s)\<lparr>out := y\<rparr>"
  by (cases s; simp add: take_out_def leave_chan_def upd_chan_def)+

lemma seat_unlist: "seat s c n u \<Longrightarrow> seat (unlist k v s) c n u"
  unfolding seat_def by fastforce

lemma cb_ok_unlist: "cb_ok (unlist k v s) = cb_ok s"
  by (simp add: cb_ok_def)

lemma live_unlist: "msg_live (unlist n u s) m = msg_live s m"
  by (auto simp: msg_live_def stored_live_def ent_live_def split: option.split entity.split)

text \<open>The registry of channels with the names of the channels, and the two root objects.\<close>

definition chan_keys :: "net \<Rightarrow> _" where
  "chan_keys s = (reg_chans s, \<lambda>c. map_option ch_name (chans s c), user_id s, irc_id s)"

lemma chan_keys_frame [simp]:
  "chan_keys (s\<lparr>out := y\<rparr>) = chan_keys s" "chan_keys (s\<lparr>im_calls := x\<rparr>) = chan_keys s"
  "chan_keys (unlist n u s) = chan_keys s" "chan_keys (leave_chan c u s) = chan_keys s"
  by (auto simp: chan_keys_def unlist_def leave_chan_def upd_nick_def upd_chan_def fun_eq_iff option.map_comp comp_def)

lemma chan_keys_core: "core s' = core (s\<lparr>servs := a, reg_users := b, dccs := d\<rparr>) \<Longrightarrow> chan_keys s' = chan_keys s"
proof -
  assume c: "core s' = core (s\<lparr>servs := a, reg_users := b, dccs := d\<rparr>)"
  have "map_option ch_name (chans s' k) = map_option ch_name (chans s k)" for k
  proof -
    have "map_option (\<lambda>ch. (ch_name ch, ch_topic ch, ch_class ch, ch_accounts ch, ch_conv ch, ch_queue ch)) (chans s' k)
        = map_option (\<lambda>ch. (ch_name ch, ch_topic ch, ch_class ch, ch_accounts ch, ch_conv ch, ch_queue ch)) (chans s k)"
      using c by (simp add: core_def fun_eq_iff)
    then show ?thesis by (cases "chans s' k"; cases "chans s k") auto
  qed
  then show ?thesis using c by (simp add: chan_keys_def core_def fun_eq_iff)
qed

text \<open>
  The nick strikes the channel user from its own list and the channel drops it: what is left is
  consistent. A chat buddy that leaves its conversation channel is deleted with it.
\<close>

lemma depart:
  assumes "session_ok s" and "cusers s u = Some cu" and "nicks s (cu_nick cu) = Some nk" and "chans s (cu_chan cu) = Some ch"
    and "msg_cmd m \<noteq> [] \<longrightarrow> msg_live s m \<and> msg_live (take_out (cu_chan cu) u s) m"
  shows "\<exists>s'. delUser (cu_chan cu) (cu_nick cu) m ((unlist (cu_nick cu) u s)\<lparr>out := y\<rparr>) = Inr s' \<and> session_ok s' \<and> chan_keys s' = chan_keys s \<and>
    (nicks s' (cu_nick cu) \<noteq> None \<longrightarrow> cusers s' = (cusers s)(u := None)) \<and>
    nicks s' = (nicks s)(cu_nick cu := if ch_class ch = ConvChan \<and> (\<exists>k. nk_class nk = CChatBuddy k) then None
                           else Some (nk\<lparr>nk_channels := remove1 u (nk_channels nk)\<rparr>))"
proof -
  let ?c = "cu_chan cu" and ?n = "cu_nick cu" and ?s0 = "(unlist (cu_nick cu) u s)\<lparr>out := y\<rparr>"
  note ok = invD [OF assms(1)]
  have seat: "seat ?s0 ?c ?n u" using seat_unlist [OF net_ok_seat [OF ok(2) assms(2)]] by simp
  have live: "msg_cmd m \<noteq> [] \<longrightarrow> msg_live ?s0 m \<and> msg_live (take_out ?c u ?s0) m"
    using assms(5) by (simp add: live_unlist take_out_out take_out_unlist)
  have left: "\<exists>z. (case ch_class ch of StatusChan \<Rightarrow> Channel_delUser ?c ?n m ?s0 | ConvChan \<Rightarrow> conv_delUser ?c ?n m ?s0)
      = Inr ((unlist ?n u (leave_chan ?c u s))\<lparr>out := z\<rparr>)"
  proof (cases "ch_class ch")
    case StatusChan
    have "ch_cbuddies ch = []" using cb_okD(4) [OF ok(3) assms(4) StatusChan] .
    then have "leave_chan ?c u s = take_out ?c u s"
      using assms(4) by (cases ch) (simp add: leave_chan_def take_out_def upd_chan_def erase_cb_def)
    then show ?thesis using Channel_delUser_eq [OF seat live] StatusChan by (auto simp: take_out_out take_out_unlist)
  next
    case ConvChan
    have "cb_ok ?s0" using ok(3) by (simp add: cb_ok_def)
    moreover have "\<forall>v cv. cusers ?s0 v = Some cv \<and> cu_chan cv = ?c \<longrightarrow> (cu_nick cv = ?n \<longleftrightarrow> v = u)"
      using net_ok_unique [OF ok(2) assms(2)] by simp
    ultimately show ?thesis using conv_delUser_eq [OF _ seat live] ConvChan by (auto simp: leave_chan_out leave_chan_unlist)
  qed
  then obtain z where z: "(case ch_class ch of StatusChan \<Rightarrow> Channel_delUser ?c ?n m ?s0 | ConvChan \<Rightarrow> conv_delUser ?c ?n m ?s0)
      = Inr ((unlist ?n u (leave_chan ?c u s))\<lparr>out := z\<rparr>)" (is "_ = Inr ?s1") by blast
  let ?nk = "nk\<lparr>nk_channels := remove1 u (nk_channels nk)\<rparr>"
  have inv1: "session_ok ?s1" using inv_leave [OF assms(1,2)] by simp
  have nk1: "nicks ?s1 ?n = Some ?nk" "nicks ?s1 = (nicks s)(?n \<mapsto> ?nk)" "user_id ?s1 = user_id s" using assms(3) by simp_all
  have ch0: "chan_of ?s0 ?c = Inr ch" using assms(4) by simp
  show ?thesis
  proof (cases "ch_class ch = ConvChan \<and> (\<exists>k. nk_class nk = CChatBuddy k)")
    case True
    then obtain k where k: "nk_class nk = CChatBuddy k" "ch_class ch = ConvChan" by blast
    then have "?n \<noteq> user_id ?s1" using env_okD(2) [OF ok(4) assms(3)] by auto
    from inv_removeNick [OF inv1 nk1(1) this] obtain s' where
      s': "removeNick (nk_name nk) ?s1 = Inr s'" "session_ok s'" "nicks s' = (nicks ?s1)(?n := None)"
        "core s' = core (?s1\<lparr>servs := servs s', reg_users := reg_users s', dccs := dccs s'\<rparr>)" by auto
    have "delUser ?c ?n m ?s0 = Inr s'" using ch0 k z nk1(1) s'(1) by (simp add: delUser_def)
    with s'(1-3) True nk1(2) chan_keys_core [OF s'(4)] show ?thesis by auto
  next
    case False
    have "\<exists>x. delUser ?c ?n m ?s0 = Inr (?s1\<lparr>im_calls := x\<rparr>)"
    proof (cases "ch_class ch")
      case StatusChan
      then have "delUser ?c ?n m ?s0 = Inr (?s1\<lparr>im_calls := im_calls ?s1\<rparr>)" using ch0 z by (simp add: delUser_def)
      then show ?thesis by blast
    next
      case ConvChan
      have "(case nk_class nk of CChatBuddy x \<Rightarrow> r | _ \<Rightarrow> t) = t" for r t :: "exn + net"
        using False ConvChan by (auto split: nick_class.split)
      then have "delUser ?c ?n m ?s0 = Inr (?s1\<lparr>im_calls := im_calls ?s1 @ (if ?n = user_id s then [Leave (ch_conv ch)] else [])\<rparr>)"
        using ConvChan ch0 z nk1(1) by (simp add: delUser_def im_do_def)
      then show ?thesis by blast
    qed
    then obtain x where "delUser ?c ?n m ?s0 = Inr (?s1\<lparr>im_calls := x\<rparr>)" by blast
    moreover have "session_ok (?s1\<lparr>im_calls := x\<rparr>)" using inv1 by (simp only: inv_im_calls)
    moreover have "nicks (?s1\<lparr>im_calls := x\<rparr>) = (nicks s)(?n \<mapsto> ?nk)" using nk1(2) by simp
    moreover have "cusers (?s1\<lparr>im_calls := x\<rparr>) = (cusers s)(u := None)" "chan_keys (?s1\<lparr>im_calls := x\<rparr>) = chan_keys s" by simp_all
    ultimately show ?thesis using False by auto
  qed
qed

text \<open>Parting: the nick is off the channel, and nobody is left dangling.\<close>

lemma part_ok:
  assumes "session_ok s" and "nicks s n = Some nk" and "chans s c = Some ch"
  shows "\<exists>s'. part n c message s = Inr s' \<and> session_ok s' \<and> chan_keys s' = chan_keys s \<and> (\<forall>u cu. cusers s' u = Some cu \<longrightarrow> \<not> (cu_nick cu = n \<and> cu_chan cu = c))"
proof -
  note ok = invD [OF assms(1)]
  obtain r where r: "getChanUser s n c = Inr r" "case r of
      Some u \<Rightarrow> (\<exists>cu. cusers s u = Some cu \<and> cu_nick cu = n \<and> cu_chan cu = c)
    | None \<Rightarrow> \<forall>u cu. cusers s u = Some cu \<longrightarrow> \<not> (cu_nick cu = n \<and> cu_chan cu = c)"
    using getChanUser_eq [OF ok(2) assms(2)] by blast
  define m where "m = \<lparr>msg_cmd = ''PART'', msg_sender = setEntity (Some (ENick n)), msg_receiver = setEntity (Some (EChan c)), msg_args = [message]\<rparr>"
  have m: "mk_msg ''PART'' (Some (ENick n)) (Some (EChan c)) [message] = Inr m" by (simp add: mk_msg_eq m_def)
  show ?thesis
  proof (cases r)
    case None
    then show ?thesis using r m assms(1) by (auto simp: part_def)
  next
    case (Some u)
    with r(2) obtain cu where cu: "cusers s u = Some cu" "cu_nick cu = n" "cu_chan cu = c" by auto
    have live: "msg_live s m" "msg_live (take_out c u s) m"
      using assms(2,3) by (simp_all add: m_def msg_live_def stored_live_def setEntity_def ent_live_def)
    have "nicks (unlist n u s) n \<noteq> None" "msg_live (unlist n u s) m" using assms(2) live(1) by (simp_all add: live_unlist)
    then obtain y where y: "deliver n m (unlist n u s) = Inr ((unlist n u s)\<lparr>out := y\<rparr>)"
      using deliver_eq by blast
    obtain s' where s': "delUser c n m ((unlist n u s)\<lparr>out := y\<rparr>) = Inr s'" "session_ok s'" "chan_keys s' = chan_keys s"
        "nicks s' n \<noteq> None \<longrightarrow> cusers s' = (cusers s)(u := None)"
      using depart [OF assms(1) cu(1), of nk ch m y] cu assms(2,3) live by auto
    have "part n c message s = Inr s'" using m r(1) Some y s'(1) by (simp add: part_def)
    moreover have "\<not> (cu_nick cv = n \<and> cu_chan cv = c)" if v: "cusers s' v = Some cv" for v cv
    proof
      assume nc: "cu_nick cv = n \<and> cu_chan cv = c"
      have "nicks s' n \<noteq> None" using net_okD(6) [OF invD(2) [OF s'(2)] v] nc by auto
      then have "v \<noteq> u" "cusers s v = Some cv" using s'(4) v by (auto split: if_splits)
      with net_ok_unique [OF ok(2) cu(1)] cu(2,3) nc show False by auto
    qed
    ultimately show ?thesis using s'(2,3) by blast
  qed
qed

text \<open>\<open>quit\<close> of a nick that is not a chat buddy relies on the virtual \<open>delUser\<close>.\<close>

definition stays :: "net \<Rightarrow> nid \<Rightarrow> bool" where
  "stays s n \<longleftrightarrow> (case nicks s n of Some nk \<Rightarrow> (case nk_class nk of CChatBuddy _ \<Rightarrow> False | _ \<Rightarrow> True) | None \<Rightarrow> True)"

interpretation live: departure "\<lambda>c n. delUser c n (Message [])" stays
proof
  fix s u cu assume ok: "net_ok s" "cb_ok s" "cusers s u = Some cu" and st: "stays s (cu_nick cu)"
  let ?l = "leave_chan (cu_chan cu) u s"
  obtain ch where ch: "chans s (cu_chan cu) = Some ch" using net_okD(7) [OF ok(1,3)] by blast
  obtain nk where nk: "nicks s (cu_nick cu) = Some nk" using net_okD(6) [OF ok(1,3)] by blast
  show "\<exists>x. delUser (cu_chan cu) (cu_nick cu) (Message []) s = Inr (?l\<lparr>im_calls := x\<rparr>)"
  proof (cases "ch_class ch")
    case StatusChan
    then have "delUser (cu_chan cu) (cu_nick cu) (Message []) s = Inr (?l\<lparr>im_calls := im_calls ?l\<rparr>)"
      using Channel_delUser_status [OF ok ch] ch by (simp add: delUser_def)
    then show ?thesis by blast
  next
    case ConvChan
    have "(case nk_class nk of CChatBuddy x \<Rightarrow> r | _ \<Rightarrow> t) = t" for r t :: "exn + net"
      using st nk by (auto simp: stays_def split: nick_class.splits)
    then have "delUser (cu_chan cu) (cu_nick cu) (Message []) s =
        Inr (?l\<lparr>im_calls := im_calls ?l @ (if cu_nick cu = user_id s then [Leave (ch_conv ch)] else [])\<rparr>)"
      using ConvChan conv_delUser_silent [OF ok] ch nk by (simp add: delUser_def im_do_def)
    then show ?thesis by blast
  qed
qed (auto simp: stays_def unlist_def upd_nick_def split: option.splits nick_class.splits)

section \<open>Arrivals keep the invariant\<close>

lemma inv_frame:
  assumes "session_ok s" and "net_ok s'" and "cb_ok s'" and "frame s' = frame s"
    and "nicks s n = Some nk" and "nicks s' = (nicks s)(n \<mapsto> nk\<lparr>nk_channels := l\<rparr>)"
  shows "session_ok s'"
proof -
  note ok = invD [OF assms(1)]
  have ids: "user_id s' = user_id s" "irc_id s' = irc_id s" "next_id s' = next_id s" "servs s' = servs s" "reg_users s' = reg_users s"
    using assms(4) by (simp_all add: frame_def)
  have "map_option (\<lambda>ch. (ch_name ch, ch_topic ch, ch_class ch, ch_accounts ch, ch_conv ch, ch_queue ch)) (chans s' c)
      = map_option (\<lambda>ch. (ch_name ch, ch_topic ch, ch_class ch, ch_accounts ch, ch_conv ch, ch_queue ch)) (chans s c)" for c
    using assms(4) by (simp add: frame_def fun_eq_iff)
  then have names: "\<exists>x0. chans s c = Some x0 \<and> ch_name x0 = ch_name x" if "chans s' c = Some x" for c x
    using that by (metis (no_types, lifting) map_option_eq_Some option.simps(9) prod.inject)
  have "env_ok s'"
    unfolding env_ok_def ids
  proof (intro conjI allI impI)
    show "\<not> has_space (nk_name x)" "nk_class x = CUser \<longleftrightarrow> k = user_id s" "k < next_id s" if "nicks s' k = Some x" for k x
      using env_okD(1,2,6) [OF ok(4), of k] that assms(5,6) by (auto split: if_splits)
    show "\<not> has_space (ch_name x)" "c < next_id s" if "chans s' c = Some x" for c x
      using names [OF that] env_okD(3,7) [OF ok(4), of c] by auto
    show "nicks s' (user_id s) \<noteq> None" "servs s (irc_id s) \<noteq> None" using env_okD(4,5) [OF ok(4)] assms(6) by auto
  qed
  moreover have "reg_ok s'"
    using ok(5) assms(5) unfolding reg_ok_def ids assms(6) by (auto split: if_splits)
  ultimately show ?thesis using assms(2,3) by (simp add: session_ok_def all_ok_def)
qed

lemma written_once:
  assumes "env_ok s" and "distinct xs"
  shows "written s m xs = (if sock_open s \<and> user_id s \<in> set xs then [line_of s m] else [])"
proof -
  have w: "writes s x \<longleftrightarrow> sock_open s \<and> x = user_id s" for x
    using env_okD(2) [OF assms(1), of x] env_okD(4) [OF assms(1)] by (auto simp: writes_def split: option.split)
  show ?thesis using assms(2) by (induction xs) (auto simp: w)
qed

lemma quit_nick_ok:
  assumes "session_ok s" and "nicks s n = Some nk" and "stays s n"
  shows "\<exists>s' m. mk_msg ''QUIT'' (Some (ENick n)) None [text] = Inr m \<and> quit_nick n text s = Inr s' \<and> session_ok s' \<and>
    frame s' = frame s \<and> nicks s' = (nicks s)(n \<mapsto> nk\<lparr>nk_channels := []\<rparr>) \<and>
    out s' = out s @ (if sock_open s \<and> user_id s \<in> peers s n then [line_of s m] else [])"
proof -
  note ok = invD [OF assms(1)]
  from live.quit_spec [OF ok(2,3) assms(2,3), of "text"] obtain seen s' m where
    q: "mk_msg ''QUIT'' (Some (ENick n)) None [text] = Inr m" "quit_with (\<lambda>c n. delUser c n (Message [])) n text s = Inr s'"
      "net_ok s'" "cb_ok s'" "frame s' = frame s" "nicks s' = (nicks s)(n \<mapsto> nk\<lparr>nk_channels := []\<rparr>)"
      "distinct seen" "set seen = peers s n" "out s' = out s @ written s m seen" by blast
  have "session_ok s'" using inv_frame [OF assms(1) q(3,4,5) assms(2) q(6)] .
  moreover have "out s' = out s @ (if sock_open s \<and> user_id s \<in> peers s n then [line_of s m] else [])"
    using q(9) written_once [OF ok(4) q(7)] q(8) by simp
  ultimately show ?thesis using q by (intro exI conjI) (simp_all add: quit_nick_def)
qed

lemma enter_nick_ok:
  assumes "session_ok s" and "servs s (nk_server nk) = Some sv" and "\<not> has_space (nk_name nk)"
    and "nk_channels nk = []" and "nk_class nk \<noteq> CUser"
  shows "\<exists>s'. enter_nick nk s = Inr (next_id s, s') \<and> session_ok s' \<and>
    nicks s' = (nicks s)(next_id s \<mapsto> nk\<lparr>nk_name := fresh_nick s (nk_name nk)\<rparr>) \<and> chans s' = chans s \<and>
    cusers s' = cusers s \<and> user_id s' = user_id s \<and> irc_id s' = irc_id s"
proof -
  note ok = invD [OF assms(1)]
  let ?n = "next_id s" and ?nk = "nk\<lparr>nk_name := fresh_nick s (nk_name nk)\<rparr>"
  have new: "nicks s ?n = None" using env_okD(6) [OF ok(4), of ?n] by (cases "nicks s ?n") auto
  have new_u: "?n \<noteq> user_id s" using new env_okD(4) [OF ok(4)] by auto
  define s' where "s' = upd_serv (nk_server nk) (Server_addNick ?n)
    (s\<lparr>nicks := (nicks s)(?n \<mapsto> ?nk), next_id := ?n + 1, reg_users := map_set (nk_name ?nk) ?n (reg_users s)\<rparr>)"
  have enter: "enter_nick nk s = Inr (?n, s')"
    using assms(2) by (simp add: enter_nick_def new_nick_def addNick_def s'_def)
  have h: "nicks s' = (nicks s)(?n \<mapsto> ?nk)" "chans s' = chans s" "cusers s' = cusers s" "next_id s' = ?n + 1"
      "user_id s' = user_id s" "irc_id s' = irc_id s" "reg_users s' = map_set (nk_name ?nk) ?n (reg_users s)"
      "servs s' = (servs s)(nk_server nk \<mapsto> Server_addNick ?n sv)"
    using assms(2) by (simp_all add: s'_def upd_serv_def)
  have "net_ok s'"
  proof (rule net_okI)
    note nok = net_okD [OF ok(2)]
    show "u < next_id s'" if "cusers s' u = Some cu" for u cu using nok(5) [of u] that h by (simp add: less_SucI)
    show "\<exists>x. nicks s' (cu_nick cu) = Some x \<and> u \<in> set (nk_channels x)" if "cusers s' u = Some cu" for u cu
      using nok(6) [of u cu] that new h by (auto split: if_splits)
    show "\<exists>cu. cusers s' u = Some cu \<and> cu_nick cu = k" if "nicks s' k = Some x" "u \<in> set (nk_channels x)" for k x u
      using nok(2) [of k x u] that h assms(4) by (auto split: if_splits)
    show "u = v" if "cusers s' u = Some cu" "cusers s' v = Some cv" "cu_nick cu = cu_nick cv" "cu_chan cu = cu_chan cv" for u v cu cv
      using nok(8) [of u cu v cv] that h by simp
  qed (use net_okD(1,3,4,7) [OF ok(2)] h assms(4) in \<open>auto split: if_splits\<close>)
  moreover have "cb_ok s'" using ok(3) by (simp add: cb_ok_def h)
  moreover have "\<not> has_space (fresh_nick s (nk_name nk))" using fresh_name_no_space [OF assms(3)] by (simp add: fresh_nick_def)
  then have "env_ok s'"
    using ok(4) assms(5) new new_u unfolding env_ok_def h by (auto simp: less_SucI)
  moreover have "reg_ok s'"
    unfolding reg_ok_def
  proof (intro conjI allI impI)
    note reg = reg_okD [OF ok(5)]
    show "map_wf (reg_users s')" using reg(1) by (simp add: h map_wf_set)
    show "\<exists>sv. servs s' (nk_server x) = Some sv" if "nicks s' k = Some x" for k x
      using reg(4) [of k x] that by (auto simp: h split: if_splits)
    fix nm k
    have "map_find (reg_users s') = (map_find (reg_users s))(nk_name ?nk \<mapsto> ?n)" using reg(1) by (simp add: h map_find_set)
    moreover have "map_find (reg_users s) (nk_name ?nk) = None" by (simp add: fresh_nick_unused)
    moreover have "map_find (reg_users s) nm = Some k \<longleftrightarrow> (\<exists>x. nicks s k = Some x \<and> nk_name x = nm)"
      using ok(5) unfolding reg_ok_def by blast
    ultimately show "map_find (reg_users s') nm = Some k \<longleftrightarrow> (\<exists>x. nicks s' k = Some x \<and> nk_name x = nm)"
      using new by (auto simp: h)
  qed
  ultimately show ?thesis using enter h by (auto simp: session_ok_def all_ok_def)
qed

lemma reg_ok_view:
  assumes "view s' = view s" and "reg_ok s"
  shows "reg_ok s'"
proof -
  have nk: "map_option (\<lambda>x. (nk_name x, nk_server x, nk_class x, nk_conv x)) (nicks s' k) =
      map_option (\<lambda>x. (nk_name x, nk_server x, nk_class x, nk_conv x)) (nicks s k)" for k
    using assms(1) by (simp add: view_def fun_eq_iff)
  have to: "\<exists>x'. nicks s' k = Some x' \<and> nk_name x' = nk_name x \<and> nk_server x' = nk_server x" if "nicks s k = Some x" for k x
    using nk [of k] that by (cases "nicks s' k") auto
  have fro: "\<exists>x'. nicks s k = Some x' \<and> nk_name x' = nk_name x \<and> nk_server x' = nk_server x" if "nicks s' k = Some x" for k x
    using nk [of k] that by (cases "nicks s k") auto
  have same: "reg_users s' = reg_users s" "servs s' = servs s" using assms(1) by (simp_all add: view_def)
  have "(\<exists>x. nicks s' k = Some x \<and> nk_name x = nm) \<longleftrightarrow> (\<exists>x. nicks s k = Some x \<and> nk_name x = nm)" for k nm
    using to fro by metis
  moreover have "\<exists>sv. servs s' (nk_server x) = Some sv" if "nicks s' k = Some x" for k x
    using fro [OF that] reg_okD(4) [OF assms(2)] same by metis
  ultimately show ?thesis using assms(2) unfolding reg_ok_def same by blast
qed

lemma viewD:
  assumes "view s' = view s" and "chans s c = Some ch"
  shows "\<exists>ch'. chans s' c = Some ch' \<and> ch_class ch' = ch_class ch \<and> ch_cbuddies ch' = ch_cbuddies ch"
proof -
  have "map_option (\<lambda>ch. (ch_name ch, ch_class ch, ch_cbuddies ch, ch_conv ch, ch_upserver ch)) (chans s' c) =
      map_option (\<lambda>ch. (ch_name ch, ch_class ch, ch_cbuddies ch, ch_conv ch, ch_upserver ch)) (chans s c)"
    using assms(1) by (simp add: view_def fun_eq_iff)
  with assms(2) show ?thesis by (cases "chans s' c") auto
qed

lemma inv_join:
  assumes "session_ok s" and "nicks s n = Some nk" and "chans s c = Some ch"
  shows "\<exists>u cu s'. join w n c st s = Inr (u, s') \<and> session_ok s' \<and> view s' = view s \<and>
    (\<forall>v cv. v \<noteq> u \<and> cusers s' v = Some cv \<longrightarrow> cusers s v = Some cv) \<and>
    (\<forall>x. cusers s u = Some x \<longrightarrow> cu_nick x = n \<and> cu_chan x = c) \<and>
    cusers s' u = Some cu \<and> cu_nick cu = n \<and> cu_chan cu = c \<and> cu_status cu = st"
proof -
  from join_spec [OF invD(1) [OF assms(1)] assms(2,3), of w st] obtain u cu s' where
    j: "join w n c st s = Inr (u, s')" "all_ok s'" "view s' = view s"
      "\<forall>v cv. v \<noteq> u \<and> cusers s' v = Some cv \<longrightarrow> cusers s v = Some cv"
      "\<forall>x. cusers s u = Some x \<longrightarrow> cu_nick x = n \<and> cu_chan x = c"
      "cusers s' u = Some cu" "cu_nick cu = n" "cu_chan cu = c" "cu_status cu = st" by blast
  moreover have "session_ok s'" using j(2) reg_ok_view [OF j(3) invD(5) [OF assms(1)]] by (simp add: session_ok_def)
  ultimately show ?thesis by blast
qed

text \<open>Entering a channel user in \<open>cbuddies\<close>.\<close>

lemma inv_set_cbuddy:
  assumes "session_ok s" and "chans s c = Some ch" and "ch_class ch = ConvChan" and "cusers s u = Some cu" and "cu_chan cu = c"
    and "\<forall>(k', v)\<in>set (ch_cbuddies ch). v = u \<longrightarrow> k' = k"
  shows "session_ok (set_cbuddy c k u s)" (is "session_ok ?s")
proof -
  note ok = invD [OF assms(1)]
  let ?m = "map_set k u (ch_cbuddies ch)"
  have h: "nicks ?s = nicks s" "cusers ?s = cusers s" "chans ?s = (chans s)(c \<mapsto> ch\<lparr>ch_cbuddies := ?m\<rparr>)"
      "servs ?s = servs s" "reg_users ?s = reg_users s" "user_id ?s = user_id s" "irc_id ?s = irc_id s" "next_id ?s = next_id s"
    using assms(2) by (simp_all add: set_cbuddy_def upd_chan_def)
  have "skel ?s = skel s" using assms(2) by (auto simp: skel_def h fun_eq_iff)
  then have "net_ok ?s" using net_ok_skel ok(2) by blast
  moreover have "cb_ok ?s"
  proof -
    note cb = cb_okD [OF ok(3) assms(2)]
    have wf: "map_wf ?m" using cb(5) by (simp add: map_wf_set)
    have find: "map_find ?m = (map_find (ch_cbuddies ch))(k \<mapsto> u)" using cb(5) by (rule map_find_set)
    have mem: "(j, v) \<in> set ?m \<longleftrightarrow> (if j = k then v = u else (j, v) \<in> set (ch_cbuddies ch))" for j v
      using map_find_iff_mem [OF wf, of j v] map_find_iff_mem [OF cb(5), of j v] find by auto
    have "distinct (map snd ?m)"
    proof -
      have "inj_on snd (set ?m)"
      proof (rule inj_onI)
        fix x y assume xy: "x \<in> set ?m" "y \<in> set ?m" "snd x = snd y"
        obtain j v where x: "x = (j, v)" by (cases x)
        obtain i where y: "y = (i, v)" using xy(3) x by (cases y) auto
        have "j = i"
        proof (cases "j = k \<or> i = k")
          case True
          then show ?thesis using xy(1,2) mem [of j v] mem [of i v] assms(6) unfolding x y by (auto split: if_splits)
        next
          case False
          then have "(j, v) \<in> set (ch_cbuddies ch)" "(i, v) \<in> set (ch_cbuddies ch)" using xy(1,2) mem unfolding x y by auto
          with cb(2) show ?thesis by (rule distinct_snd_key)
        qed
        then show "x = y" by (simp add: x y)
      qed
      moreover have "distinct ?m" using map_wf_distinct [OF wf] by (simp add: distinct_map)
      ultimately show ?thesis by (simp add: distinct_map)
    qed
    moreover have "\<exists>cv. cusers s v = Some cv \<and> cu_chan cv = c" if "(j, v) \<in> set ?m" for j v
      using that mem [of j v] cb(3) [of j v] assms(4,5) by (auto split: if_splits)
    ultimately have "map_wf ?m \<and> distinct (map snd ?m) \<and> (\<forall>(j, v)\<in>set ?m. \<exists>cv. cusers s v = Some cv \<and> cu_chan cv = c)"
      using wf by blast
    then show ?thesis using ok(3) assms(3) unfolding cb_ok_def h by auto
  qed
  moreover have "env_ok ?s" using ok(4) assms(2) unfolding env_ok_def h by auto
  moreover have "reg_ok ?s" using ok(5) unfolding reg_ok_def h .
  ultimately show ?thesis by (simp add: session_ok_def all_ok_def)
qed

lemma nickize_no_space: "\<not> has_space (nickize tr x)"
  using isValidNickname_chars [OF nickize_valid] not_nick_char(1) by (simp add: has_space_def)

lemma ChatBuddy_shape:
  "nk_server (ChatBuddy w i k) = i" "nk_channels (ChatBuddy w i k) = []" "nk_class (ChatBuddy w i k) = CChatBuddy k"
  "\<not> has_space (nk_name (ChatBuddy w i k))"
  by (auto simp: ChatBuddy_def Nick_def nickize_no_space Let_def split: prod.split)

text \<open>
  A chat buddy arrives: after \<open>addBuddy\<close> the chat buddy is mapped to a live channel user of the
  channel. The user itself must not be known to the channel under another chat buddy.
\<close>

lemma addBuddy_ok:
  assumes "session_ok s" and "chans s c = Some ch" and "ch_class ch = ConvChan"
    and "ch_upserver ch = Some i" and "servs s i = Some sv"
    and "isMe w k \<longrightarrow> (\<forall>(k', v)\<in>set (ch_cbuddies ch). \<forall>cv. cusers s v = Some cv \<and> cu_nick cv = user_id s \<longrightarrow> k' = k)"
  shows "\<exists>s' u cu ch'. addBuddy w c k st s = Inr s' \<and> session_ok s' \<and> chans s' c = Some ch' \<and>
    map_find (ch_cbuddies ch') k = Some u \<and> cusers s' u = Some cu \<and> cu_chan cu = c"
proof -
  note ok = invD [OF assms(1)] and cb = cb_okD [OF invD(3) [OF assms(1)] assms(2)]
  have finish: "\<exists>s' u cu ch'. bindE r (\<lambda>(u, s'). Inr (set_cbuddy c k u s')) = Inr s' \<and> session_ok s' \<and> chans s' c = Some ch' \<and>
      map_find (ch_cbuddies ch') k = Some u \<and> cusers s' u = Some cu \<and> cu_chan cu = c"
    if r: "r = Inr (u, s1)" "session_ok s1" "chans s1 c = Some ch1" "ch_class ch1 = ConvChan" "ch_cbuddies ch1 = ch_cbuddies ch"
      "cusers s1 u = Some cu" "cu_chan cu = c" "\<forall>(k', v)\<in>set (ch_cbuddies ch). v = u \<longrightarrow> k' = k" for r u s1 ch1 cu
  proof -
    have "session_ok (set_cbuddy c k u s1)" using inv_set_cbuddy [OF r(2,3,4,6,7)] r(5,8) by simp
    moreover have "chans (set_cbuddy c k u s1) c = Some (ch1\<lparr>ch_cbuddies := map_set k u (ch_cbuddies ch1)\<rparr>)"
      "cusers (set_cbuddy c k u s1) u = Some cu" using r(3,6) by (simp_all add: set_cbuddy_def upd_chan_def)
    moreover have "map_find (map_set k u (ch_cbuddies ch1)) k = Some u" using cb(5) r(5) by (simp add: map_find_set)
    ultimately show ?thesis using r(1,7) by auto
  qed
  have me: "v = u \<longrightarrow> k' = k" if "(k', v) \<in> set (ch_cbuddies ch)" "cusers s u = None" for k' v u
    using cb(3) [OF that(1)] that(2) by auto
  show ?thesis
  proof (cases "isMe w k")
    case True
    obtain nk where nk: "nicks s (user_id s) = Some nk" using env_okD(4) [OF ok(4)] by auto
    from inv_join [OF assms(1) nk assms(2), of w st] obtain u cu s1 where
      j: "join w (user_id s) c st s = Inr (u, s1)" "session_ok s1" "view s1 = view s"
        "\<forall>x. cusers s u = Some x \<longrightarrow> cu_nick x = user_id s \<and> cu_chan x = c" "cusers s1 u = Some cu" "cu_chan cu = c" by auto
    obtain ch1 where "chans s1 c = Some ch1" "ch_class ch1 = ConvChan" "ch_cbuddies ch1 = ch_cbuddies ch"
      using viewD [OF j(3) assms(2)] assms(3) by auto
    moreover have "\<forall>(k', v)\<in>set (ch_cbuddies ch). v = u \<longrightarrow> k' = k"
      using assms(6) True j(4) cb(3) by fastforce
    ultimately show ?thesis using finish [OF j(1,2)] j(5,6) True assms(2) by (simp add: addBuddy_def)
  next
    case False
    show ?thesis
    proof (cases "map_find (ch_cbuddies ch) k")
      case (Some u)
      then have mem: "(k, u) \<in> set (ch_cbuddies ch)" by (rule map_of_SomeD)
      obtain cu where cu: "cusers s u = Some cu" "cu_chan cu = c" using cb(3) [OF mem] by blast
      have "\<forall>(k', v)\<in>set (ch_cbuddies ch). v = u \<longrightarrow> k' = k"
        using distinct_snd_key [OF cb(2) _ mem] by blast
      then show ?thesis using finish [OF refl assms(1,2,3) refl cu] Some False assms(2) by (simp add: addBuddy_def)
    next
      case None
      from enter_nick_ok [OF assms(1), of "ChatBuddy w i k"] assms(5) obtain s0 where
        e: "enter_nick (ChatBuddy w i k) s = Inr (next_id s, s0)" "session_ok s0"
          "nicks s0 = (nicks s)(next_id s \<mapsto> (ChatBuddy w i k)\<lparr>nk_name := fresh_nick s (nk_name (ChatBuddy w i k))\<rparr>)"
          "chans s0 = chans s" "cusers s0 = cusers s"
        by (auto simp: ChatBuddy_shape)
      have nk: "nicks s0 (next_id s) = Some ((ChatBuddy w i k)\<lparr>nk_name := fresh_nick s (nk_name (ChatBuddy w i k))\<rparr>)" using e(3) by simp
      have c0: "chans s0 c = Some ch" using e(4) assms(2) by simp
      from inv_join [OF e(2) nk c0, of w st] obtain u cu s1 where
        j: "join w (next_id s) c st s0 = Inr (u, s1)" "session_ok s1" "view s1 = view s0"
          "\<forall>x. cusers s0 u = Some x \<longrightarrow> cu_nick x = next_id s \<and> cu_chan x = c" "cusers s1 u = Some cu" "cu_chan cu = c" by auto
      obtain ch1 where ch1: "chans s1 c = Some ch1" "ch_class ch1 = ConvChan" "ch_cbuddies ch1 = ch_cbuddies ch"
        using viewD [OF j(3) c0] assms(3) by auto
      have "cusers s u = None"
      proof (rule ccontr)
        assume "cusers s u \<noteq> None"
        then obtain x where x: "cusers s u = Some x" by blast
        then have "cu_nick x = next_id s" using j(4) e(5) by simp
        then show False using net_okD(6) [OF ok(2) x] env_okD(6) [OF ok(4)] by fastforce
      qed
      then have "\<forall>(k', v)\<in>set (ch_cbuddies ch). v = u \<longrightarrow> k' = k" using me by blast
      with finish [OF j(1,2) ch1 j(5,6)] show ?thesis using False None assms(2,4) e(1) by (simp add: addBuddy_def)
    qed
  qed
qed

section \<open>Modes of a chat buddy\<close>

lemma bit_fold_or:
  "bit (foldl (\<lambda>acc i. if P i then acc OR push_bit i 1 else acc) (a :: 32 word) [0..<k]) j \<longleftrightarrow>
    bit a j \<or> (j < k \<and> j < 32 \<and> P j)"
proof (induction k)
  case 0
  then show ?case by simp
next
  case (Suc k)
  have "bit (push_bit k 1 :: 32 word) j \<longleftrightarrow> j = k \<and> j < 32"
    by (auto simp: bit_simps)
  with Suc show ?case by (auto simp: bit_or_iff less_Suc_eq)
qed

lemma status_loops:
  "status_added a b = b AND NOT a" "status_deleted a b = a AND NOT b"
proof -
  have "bit (status_added a b) j = bit (b AND NOT a) j" "bit (status_deleted a b) j = bit (a AND NOT b) j" if "j < 32" for j
    unfolding status_added_def status_deleted_def bit_fold_or using that by (auto simp: bit_simps)
  then show "status_added a b = b AND NOT a" "status_deleted a b = a AND NOT b"
    by (auto intro!: bit_word_eqI)
qed

lemma status_replaced: "((a OR (b AND NOT a)) AND NOT (a AND NOT b)) = (b :: 32 word)"
  by (rule bit_word_eqI) (auto simp: bit_simps)

lemma inv_status:
  assumes "session_ok s" and "cusers s u = Some cu" and "\<And>x. cu_nick (f x) = cu_nick x \<and> cu_chan (f x) = cu_chan x"
  shows "session_ok (upd_cuser u f s)"
  using all_ok_status [OF invD(1) [OF assms(1)] assms(2,3)] reg_ok_view [OF view_simps(2) invD(5) [OF assms(1)]]
  by (simp add: session_ok_def)

lemma updateBuddy_ok:
  assumes "session_ok s" and "chans s c = Some ch" and "map_find (ch_cbuddies ch) k = Some u"
  shows "\<exists>s' cu. updateBuddy w c k s = Inr s' \<and> session_ok s' \<and> cusers s' u = Some cu \<and> cu_status cu = w_cb_status w k"
proof -
  note ok = invD [OF assms(1)]
  obtain cu where cu: "cusers s u = Some cu" "cu_chan cu = c" using cb_okD(3) [OF ok(3) assms(2) map_of_SomeD [OF assms(3)]] by blast
  let ?a = "status_added (cu_status cu) (w_cb_status w k)" and ?d = "status_deleted (cu_status cu) (w_cb_status w k)"
  let ?e = "Some (EServer (irc_id s))"
  have live: "case ?e of Some x \<Rightarrow> ent_live s x | None \<Rightarrow> True" using env_okD(5) [OF ok(4)] by (simp add: ent_live_def)
  obtain y1 where y1: "setMode w ?e c ?a u s = Inr ((upd_cuser u (setStatus ?a) s)\<lparr>out := y1\<rparr>)" (is "_ = Inr ?s1")
    using setMode_eq [OF ok(2,4) cu(1) live] cu(2) by blast
  have inv1: "session_ok ?s1" using inv_status [OF assms(1) cu(1), of "setStatus ?a"] by (simp add: setStatus_def)
  note ok1 = invD [OF inv1]
  have cu1: "cusers ?s1 u = Some (setStatus ?a cu)" using cu(1) by (simp add: upd_cuser_def)
  have live1: "case ?e of Some x \<Rightarrow> ent_live ?s1 x | None \<Rightarrow> True"
    using env_okD(5) [OF ok(4)] by (simp add: ent_live_def upd_cuser_def)
  obtain y2 where y2: "delMode w ?e c ?d u ?s1 = Inr ((upd_cuser u (delStatus ?d) ?s1)\<lparr>out := y2\<rparr>)" (is "_ = Inr ?s2")
    using delMode_eq [OF ok1(2,4) cu1 live1] cu(2) by (auto simp: setStatus_def)
  have "session_ok ?s2" using inv_status [OF inv1 cu1, of "delStatus ?d"] by (simp add: delStatus_def)
  moreover have "cusers ?s2 u = Some (delStatus ?d (setStatus ?a cu))" using cu(1) by (simp add: upd_cuser_def)
  moreover have "cu_status (delStatus ?d (setStatus ?a cu)) = w_cb_status w k"
    using status_replaced by (simp add: delStatus_def setStatus_def status_loops)
  moreover have "updateBuddy w c k s = Inr ?s2" using assms(2,3) cu(1) y1 y2 by (simp add: updateBuddy_def Let_def)
  ultimately show ?thesis by blast
qed

section \<open>New channels\<close>

text \<open>A channel without users is put on the heap under the next number.\<close>

lemma inv_new_chan:
  assumes "session_ok s" and "ch_users ch = []" and "ch_cbuddies ch = []" and "\<not> has_space (ch_name ch)"
  shows "session_ok (s\<lparr>next_id := next_id s + 1, chans := (chans s)(next_id s \<mapsto> ch), conv_chan := f, reg_chans := r\<rparr>)" (is "session_ok ?s")
proof -
  note ok = invD [OF assms(1)] and nok = net_okD [OF invD(2) [OF assms(1)]]
  have new: "chans s (next_id s) = None" using env_okD(7) [OF ok(4), of "next_id s"] by (cases "chans s (next_id s)") auto
  have "net_ok ?s"
  proof (rule net_okI)
    show "\<exists>x. chans ?s (cu_chan cu) = Some x \<and> u \<in> set (ch_users x)" if "cusers ?s u = Some cu" for u cu
      using nok(7) [of u cu] that new by auto
    show "u < next_id ?s" if "cusers ?s u = Some cu" for u cu using nok(5) [of u] that by (simp add: less_SucI)
    show "u = v" if "cusers ?s u = Some cu" "cusers ?s v = Some cv" "cu_nick cu = cu_nick cv" "cu_chan cu = cu_chan cv" for u v cu cv
      using nok(8) [of u cu v cv] that by simp
  qed (use nok(1-4,6) assms(2) in \<open>auto split: if_splits\<close>)
  moreover have "cb_ok ?s" using ok(3) assms(3) unfolding cb_ok_def by auto
  moreover have "env_ok ?s" using ok(4) assms(4) unfolding env_ok_def by (auto simp: less_SucI)
  moreover have "reg_ok ?s" using ok(5) by (simp add: reg_ok_def)
  ultimately show ?thesis by (simp add: session_ok_def all_ok_def)
qed

lemma createChannel_ok:
  assumes "session_ok s" and "\<forall>i. getServer s (w_acc_servername w (w_conv_account w v)) = Some i \<longrightarrow> servs s i \<noteq> None"
    and "\<not> has_space (w_acc_id w (w_conv_account w v))"
  shows "\<exists>s'. createChannel w v s = Inr s' \<and> session_ok s'"
proof -
  obtain up where up: "upserver w s v = Inr up"
    using assms(2) by (cases "getServer s (w_acc_servername w (w_conv_account w v))") (auto simp: upserver_def)
  let ?ch0 = "ConversationChannel w v up" and ?c = "next_id s"
  define ch where "ch = ?ch0\<lparr>ch_name := fresh_chan s (ch_name ?ch0)\<rparr>"
  have "\<not> has_space (ch_name ?ch0)"
    using assms(3) by (auto simp: ConversationChannel_def getChanName_def normalizeIRCName_def has_space_def)
  then have ch: "ch_users ch = []" "ch_cbuddies ch = []" "\<not> has_space (ch_name ch)"
    using fresh_name_no_space by (auto simp: ch_def ConversationChannel_def fresh_chan_def)
  define s1 where "s1 = s\<lparr>next_id := ?c + 1, chans := (chans s)(?c \<mapsto> ch), conv_chan := (conv_chan s)(v \<mapsto> ?c),
    reg_chans := map_set (ch_name ch) ?c (reg_chans s)\<rparr>"
  have inv1: "session_ok s1" using inv_new_chan [OF assms(1) ch] by (simp add: s1_def)
  obtain nk where nk: "nicks s1 (user_id s1) = Some nk" using env_okD(4) [OF invD(4) [OF inv1]] by auto
  have c1: "chans s1 ?c = Some ch" by (simp add: s1_def)
  obtain u s' where "join w (user_id s1) ?c 0 s1 = Inr (u, s')" "session_ok s'" using inv_join [OF inv1 nk c1, of w 0] by blast
  moreover have "addChannel ?c (s\<lparr>next_id := ?c + 1, chans := (chans s)(?c \<mapsto> ch), conv_chan := (conv_chan s)(v \<mapsto> ?c)\<rparr>) = Inr s1"
    by (simp add: addChannel_def s1_def)
  ultimately show ?thesis using up by (simp add: createChannel_def ch_def [symmetric] Let_def)
qed

end
