(* ===== verification/Lifecycle.thy ===== *)
theory Lifecycle
  imports Channels
begin

text \<open>
  The life of a session: the \<open>IRC\<close> constructor, and the events that change who is on which
  channel, as a step relation over the operations of the other theories. Every state that can
  be reached from the constructor satisfies the invariant \<open>session_ok\<close> of the channel theories, and in
  such a state the operations return: no dangling pointer, no failed assertion.
\<close>

section \<open>The constructor\<close>

text \<open>
  \<open>IRC::IRC\<close>: the hostname is the configured one or, when that is empty or a blank, the one of
  the socket; a hostname with a space is refused. The user object is entered as \<open>*\<close>.
\<close>

definition server_hostname :: "string \<Rightarrow> string \<Rightarrow> string option" where
  "server_hostname configured sock_host =
     (if configured = [] \<or> configured = '' '' then Some sock_host
      else if has_space configured then None
      else Some configured)"

definition IRC_ctor :: "string \<Rightarrow> string \<Rightarrow> string \<Rightarrow> string \<Rightarrow> exn + net option" where
  "IRC_ctor version configured sock_host client_host =
     (case server_hostname configured sock_host of
        None \<Rightarrow> Inr None
      | Some hostname \<Rightarrow>
          let (n, s1) = new_nick (Nick CUser 0 ''*'' [] client_host []) (IRC_members version hostname)
          in bindE (addNick n s1) (\<lambda>s2.
             bindE (mk_msg ''NOTICE'' (Some (EServer 0)) None [''Minbif-IRCd initialized, please go on'']) (\<lambda>m.
             bindE (deliver n (setReceiverName ''AUTH'' m) s2) (\<lambda>s3. Inr (Some s3)))))"

lemma IRC_ctor_inv:
  assumes "IRC_ctor version configured sock_host client_host = Inr (Some s)"
  shows "session_ok s \<and> sock_open s"
proof -
  let ?nk = "Nick CUser 0 ''*'' [] client_host []"
  obtain h where h: "server_hostname configured sock_host = Some h"
    using assms by (auto simp: IRC_ctor_def split: option.splits)
  define s2 where "s2 = (IRC_members version h)\<lparr>nicks := [1 \<mapsto> ?nk], next_id := 2, reg_users := [(''*'', 1)],
    servs := [0 \<mapsto> \<lparr>sv_name = h, sv_info = version, sv_users = [1], sv_account = None\<rparr>]\<rparr>"
  have add: "addNick 1 ((IRC_members version h)\<lparr>nicks := [1 \<mapsto> ?nk], next_id := 2\<rparr>) = Inr s2"
    by (simp add: addNick_def s2_def IRC_members_def Nick_def upd_serv_def Server_addNick_def)
  have new: "new_nick ?nk (IRC_members version h) = (1, (IRC_members version h)\<lparr>nicks := [1 \<mapsto> ?nk], next_id := 2\<rparr>)"
    by (simp add: new_nick_def IRC_members_def)
  obtain m where m: "mk_msg ''NOTICE'' (Some (EServer 0)) None [''Minbif-IRCd initialized, please go on''] = Inr m"
      "msg_sender m = setEntity (Some (EServer 0))" by (simp add: mk_msg_eq)
  have "msg_live s2 (setReceiverName ''AUTH'' m)"
    using m(2) by (simp add: msg_live_def stored_live_def setReceiverName_def setName_def setEntity_def ent_live_def s2_def)
  moreover have "nicks s2 1 \<noteq> None" by (simp add: s2_def)
  ultimately obtain y where "deliver 1 (setReceiverName ''AUTH'' m) s2 = Inr (s2\<lparr>out := y\<rparr>)" using deliver_eq by blast
  then have "s = s2\<lparr>out := y\<rparr>" using assms h new add m(1) by (simp add: IRC_ctor_def)
  moreover have "session_ok s2"
    by (simp add: s2_def session_ok_def all_ok_def net_ok_def cb_ok_def env_ok_def reg_ok_def IRC_members_def Nick_def has_space_def map_wf_def)
  moreover have "sock_open s2" by (simp add: s2_def IRC_members_def)
  ultimately show ?thesis by auto
qed

section \<open>Events\<close>

text \<open>
  The status channel of an account is created empty, as a conversation channel is; both get the
  next number and a name in the registry.
\<close>

definition new_status_channel :: "string \<Rightarrow> net \<Rightarrow> net" where
  "new_status_channel nm s =
     s\<lparr>next_id := next_id s + 1, chans := (chans s)(next_id s \<mapsto> StatusChannel nm), conv_chan := conv_chan s,
       reg_chans := map_set nm (next_id s) (reg_chans s)\<rparr>"

text \<open>\<open>new RemoteServer\<close> for a connected account.\<close>

definition new_remote_server :: "string \<Rightarrow> string \<Rightarrow> im_account \<Rightarrow> net \<Rightarrow> net" where
  "new_remote_server nm info a s =
     s\<lparr>next_id := next_id s + 1,
       servs := (servs s)(next_id s \<mapsto> \<lparr>sv_name = nm, sv_info = info, sv_users = [], sv_account = Some a\<rparr>)\<rparr>"

inductive net_step :: "world \<Rightarrow> net \<Rightarrow> net \<Rightarrow> bool" for w :: world where
  step_join: "nicks s n = Some nk \<Longrightarrow> chans s c = Some ch \<Longrightarrow> join w n c st s = Inr (u, s') \<Longrightarrow> net_step w s s'"
| step_part: "nicks s n = Some nk \<Longrightarrow> chans s c = Some ch \<Longrightarrow> part n c message s = Inr s' \<Longrightarrow> net_step w s s'"
| step_quit: "nicks s n = Some nk \<Longrightarrow> stays s n \<Longrightarrow> quit_nick n message s = Inr s' \<Longrightarrow> net_step w s s'"
| step_remove: "nicks s n = Some nk \<Longrightarrow> n \<noteq> user_id s \<Longrightarrow> removeNick (nk_name nk) s = Inr s' \<Longrightarrow> net_step w s s'"
| step_buddy: "servs s i = Some sv \<Longrightarrow> enter_nick (Buddy w i b) s = Inr (n, s') \<Longrightarrow> net_step w s s'"
| step_chat_buddy: "chans s c = Some ch \<Longrightarrow> ch_class ch = ConvChan \<Longrightarrow> ch_upserver ch = Some i \<Longrightarrow> servs s i = Some sv \<Longrightarrow>
    isMe w k \<longrightarrow> (\<forall>(k', v)\<in>set (ch_cbuddies ch). \<forall>cv. cusers s v = Some cv \<and> cu_nick cv = user_id s \<longrightarrow> k' = k) \<Longrightarrow>
    addBuddy w c k st s = Inr s' \<Longrightarrow> net_step w s s'"
| step_update: "chans s c = Some ch \<Longrightarrow> map_find (ch_cbuddies ch) k = Some u \<Longrightarrow> updateBuddy w c k s = Inr s' \<Longrightarrow> net_step w s s'"
| step_channel: "\<forall>i. getServer s (w_acc_servername w (w_conv_account w v)) = Some i \<longrightarrow> servs s i \<noteq> None \<Longrightarrow>
    \<not> has_space (w_acc_id w (w_conv_account w v)) \<Longrightarrow> createChannel w v s = Inr s' \<Longrightarrow> net_step w s s'"
| step_status: "isChanName nm \<Longrightarrow> net_step w s (new_status_channel nm s)"
| step_server: "addServer (next_id s) (new_remote_server nm info a s) = Inr s' \<Longrightarrow> net_step w s s'"
| step_no_server: "map_find (reg_servers s) nm = Some i \<Longrightarrow> i \<noteq> irc_id s \<Longrightarrow> nicks s (user_id s) = Some nk \<Longrightarrow> nk_server nk \<noteq> i \<Longrightarrow>
    removeServer nm s = Inr s' \<Longrightarrow> net_step w s s'"

inductive reachable :: "world \<Rightarrow> net \<Rightarrow> bool" for w :: world where
  start: "IRC_ctor version configured sock_host client_host = Inr (Some s) \<Longrightarrow> reachable w s"
| step: "reachable w s \<Longrightarrow> net_step w s s' \<Longrightarrow> reachable w s'"

lemma net_ok_next:
  assumes "net_ok s"
  shows "net_ok (s\<lparr>next_id := Suc (next_id s)\<rparr>)"
proof (rule net_okI)
  note d = net_okD [OF assms]
  show "distinct (nk_channels nk)" if "nicks (s\<lparr>next_id := Suc (next_id s)\<rparr>) n = Some nk" for n nk
    using d(1) [of n nk] that by simp
  show "\<exists>cu. cusers (s\<lparr>next_id := Suc (next_id s)\<rparr>) u = Some cu \<and> cu_nick cu = n"
    if "nicks (s\<lparr>next_id := Suc (next_id s)\<rparr>) n = Some nk" "u \<in> set (nk_channels nk)" for n nk u
    using d(2) [of n nk u] that by simp
  show "distinct (ch_users ch)" if "chans (s\<lparr>next_id := Suc (next_id s)\<rparr>) c = Some ch" for c ch
    using d(3) [of c ch] that by simp
  show "\<exists>cu. cusers (s\<lparr>next_id := Suc (next_id s)\<rparr>) u = Some cu \<and> cu_chan cu = c"
    if "chans (s\<lparr>next_id := Suc (next_id s)\<rparr>) c = Some ch" "u \<in> set (ch_users ch)" for c ch u
    using d(4) [of c ch u] that by simp
  fix u cu
  assume u: "cusers (s\<lparr>next_id := Suc (next_id s)\<rparr>) u = Some cu"
  then show "u < next_id (s\<lparr>next_id := Suc (next_id s)\<rparr>)" using d(5) [of u cu] by simp
  show "\<exists>nk. nicks (s\<lparr>next_id := Suc (next_id s)\<rparr>) (cu_nick cu) = Some nk \<and> u \<in> set (nk_channels nk)" using d(6) [of u cu] u by simp
  show "\<exists>ch. chans (s\<lparr>next_id := Suc (next_id s)\<rparr>) (cu_chan cu) = Some ch \<and> u \<in> set (ch_users ch)" using d(7) [of u cu] u by simp
  fix v cv
  assume "cusers (s\<lparr>next_id := Suc (next_id s)\<rparr>) v = Some cv" "cu_nick cu = cu_nick cv" "cu_chan cu = cu_chan cv"
  then show "u = v" using d(8) [of u cu v cv] u by simp
qed

lemma inv_server:
  assumes "session_ok s" and "addServer (next_id s) (new_remote_server nm info a s) = Inr s'"
  shows "session_ok s'"
proof -
  have s': "s' = (new_remote_server nm info a s)\<lparr>reg_servers := map_set nm (next_id s) (reg_servers s)\<rparr>"
    using assms(2) by (simp add: addServer_def new_remote_server_def serv_of_def)
  note ok = invD [OF assms(1)]
  define s0 where "s0 = s'\<lparr>next_id := next_id s\<rparr>"
  have "skel s0 = skel s" by (simp add: s0_def s' skel_def new_remote_server_def)
  then have "net_ok s0" using net_ok_skel ok(2) by metis
  moreover have "s' = s0\<lparr>next_id := Suc (next_id s0)\<rparr>" by (simp add: s0_def s' new_remote_server_def)
  ultimately have "net_ok s'" using net_ok_next by simp
  moreover have "cb_ok s'" using ok(3) by (simp add: s' cb_ok_def new_remote_server_def)
  moreover have "env_ok s'" using ok(4) unfolding env_ok_def s' new_remote_server_def by (auto simp: less_Suc_eq)
  moreover have "reg_ok s'" using ok(5) unfolding reg_ok_def s' new_remote_server_def by auto
  ultimately show ?thesis by (simp add: session_ok_def all_ok_def)
qed

text \<open>The round of \<open>removeServer\<close> that deletes one nick.\<close>

lemma inv_delete:
  assumes "session_ok s" and "nicks s n = Some nk" and "n \<noteq> user_id s"
  shows "\<exists>s1. delete_nick n s = Inr s1 \<and> session_ok (s1\<lparr>reg_users := map_erase (nk_name nk) (reg_users s1)\<rparr>) \<and>
    nicks s1 = (nicks s)(n := None) \<and> core s1 = core s"
proof -
  note ok = invD [OF assms(1)]
  obtain s1 where s1: "delete_nick n s = Inr s1" "net_ok s1" "cb_ok s1" "nicks s1 = (nicks s)(n := None)" "core s1 = core s"
    using delete_nick_spec [OF ok(2,3) assms(2)] by blast
  let ?s = "s1\<lparr>reg_users := map_erase (nk_name nk) (reg_users s1)\<rparr>"
  have same: "reg_users s1 = reg_users s" "servs s1 = servs s" "dccs s1 = dccs s" using s1(5) by (simp_all add: core_def)
  have "net_ok ?s" using net_ok_skel [OF _ s1(2), of ?s] by (simp add: skel_def)
  moreover have "cb_ok ?s" using s1(3) by (simp add: cb_ok_def)
  moreover have "core ?s = core (s\<lparr>servs := servs ?s, reg_users := reg_users ?s, dccs := dccs ?s\<rparr>)"
    using s1(5) same by (simp add: core_def)
  ultimately have "session_ok ?s"
    by (intro inv_without [OF assms]) (simp_all add: s1(4) same)
  with s1 show ?thesis by blast
qed

lemma first_of_server_ok:
  assumes "\<forall>(nm, n)\<in>set m. \<exists>nk. nicks s n = Some nk \<and> nk_name nk = nm"
  shows "case first_of_server s i m of
      Inr None \<Rightarrow> \<forall>(nm, n)\<in>set m. \<forall>nk. nicks s n = Some nk \<longrightarrow> nk_server nk \<noteq> i
    | Inr (Some (nm, n)) \<Rightarrow> (nm, n) \<in> set m \<and> (\<exists>nk. nicks s n = Some nk \<and> nk_name nk = nm \<and> nk_server nk = i)
    | Inl _ \<Rightarrow> False"
  using assms
proof (induction m)
  case (Cons e m)
  obtain nm n where e: "e = (nm, n)" by force
  then obtain nk where nk: "nicks s n = Some nk" "nk_name nk = nm" using Cons.prems by auto
  show ?case
  proof (cases "nk_server nk = i")
    case True
    then show ?thesis using e nk by simp
  next
    case False
    have "case first_of_server s i m of
        Inr None \<Rightarrow> \<forall>(nm, n)\<in>set m. \<forall>nk. nicks s n = Some nk \<longrightarrow> nk_server nk \<noteq> i
      | Inr (Some (nm, n)) \<Rightarrow> (nm, n) \<in> set m \<and> (\<exists>nk. nicks s n = Some nk \<and> nk_name nk = nm \<and> nk_server nk = i)
      | Inl _ \<Rightarrow> False" by (rule Cons.IH) (use Cons.prems in simp)
    then show ?thesis using e nk False by (auto split: sum.splits option.splits prod.splits)
  qed
qed simp

lemma purge_server_ok:
  assumes "session_ok s" and "length (reg_users s) \<le> k" and "\<And>nk. nicks s (user_id s) = Some nk \<Longrightarrow> nk_server nk \<noteq> i"
  shows "\<exists>s'. purge_server k i s = Inr s' \<and> session_ok s' \<and>
    (\<forall>n. nicks s' n = (case nicks s n of None \<Rightarrow> None | Some nk \<Rightarrow> if nk_server nk = i then None else Some nk)) \<and>
    servs s' = servs s \<and> irc_id s' = irc_id s \<and> user_id s' = user_id s \<and> reg_servers s' = reg_servers s \<and> dccs s' = dccs s"
  using assms
proof (induction k arbitrary: s)
  case 0
  then have "nicks s n = None" for n using reg_okD(2) [OF invD(5) [OF 0(1)]] by (cases "nicks s n") auto
  then show ?case using 0 by simp
next
  case (Suc k)
  note reg = reg_okD [OF invD(5) [OF Suc.prems(1)]]
  have "\<forall>(nm, n)\<in>set (reg_users s). \<exists>nk. nicks s n = Some nk \<and> nk_name nk = nm"
    using reg(3) map_find_iff_mem [OF reg(1)] by auto
  note first = first_of_server_ok [OF this, of i]
  show ?case
  proof (cases "first_of_server s i (reg_users s)")
    case (Inr r)
    show ?thesis
    proof (cases r)
      case None
      have "nk_server nk \<noteq> i" if "nicks s n = Some nk" for n nk
        using first Inr None reg(2) [OF that] map_find_iff_mem [OF reg(1)] that by auto
      then show ?thesis using Inr None Suc.prems(1) by (auto split: option.split)
    next
      case (Some p)
      obtain nm n where p: "p = (nm, n)" by (cases p)
      then obtain nk where nk: "nicks s n = Some nk" "nk_name nk = nm" "nk_server nk = i" "(nm, n) \<in> set (reg_users s)"
        using first Inr Some by auto
      then have "n \<noteq> user_id s" using Suc.prems(3) by auto
      from inv_delete [OF Suc.prems(1) nk(1) this] obtain s1 where
        s1: "delete_nick n s = Inr s1" "session_ok (s1\<lparr>reg_users := map_erase nm (reg_users s1)\<rparr>)" "nicks s1 = (nicks s)(n := None)" "core s1 = core s"
        unfolding nk(2) by blast
      define s2 where "s2 = s1\<lparr>reg_users := map_erase nm (reg_users s1)\<rparr>"
      have same: "reg_users s1 = reg_users s" "servs s1 = servs s" "irc_id s1 = irc_id s" "user_id s1 = user_id s" "reg_servers s1 = reg_servers s"
          "dccs s1 = dccs s" using s1(4) by (simp_all add: core_def)
      have "length (map_erase nm (reg_users s)) < length (reg_users s)"
        unfolding map_erase_def using nk(4) by (intro length_filter_less) auto
      then have "length (reg_users s2) \<le> k" using Suc.prems(2) by (simp add: s2_def same)
      moreover have "nk_server x \<noteq> i" if "nicks s2 (user_id s2) = Some x" for x
        using that Suc.prems(3) by (auto simp: s2_def same s1(3) split: if_splits)
      ultimately obtain s' where s': "purge_server k i s2 = Inr s'" "session_ok s'"
          "\<forall>n. nicks s' n = (case nicks s2 n of None \<Rightarrow> None | Some nk \<Rightarrow> if nk_server nk = i then None else Some nk)"
          "servs s' = servs s2" "irc_id s' = irc_id s2" "user_id s' = user_id s2" "reg_servers s' = reg_servers s2" "dccs s' = dccs s2"
        using Suc.IH [OF s1(2) [folded s2_def]] by blast
      have "nicks s' m = (case nicks s m of None \<Rightarrow> None | Some nk \<Rightarrow> if nk_server nk = i then None else Some nk)" for m
        using s'(3) nk(1,3) by (simp add: s2_def s1(3))
      moreover have "purge_server (Suc k) i s = Inr s'" using Inr Some p s1(1) s'(1) by (simp add: s2_def)
      ultimately show ?thesis using s'(2,4-8) by (intro exI [of _ s']) (simp add: s2_def same)
    qed
  qed (use first in simp)
qed

lemma removeServer_ok:
  assumes "session_ok s" and "map_find (reg_servers s) nm = Some i" and "i \<noteq> irc_id s" and "\<And>nk. nicks s (user_id s) = Some nk \<Longrightarrow> nk_server nk \<noteq> i"
  shows "\<exists>s'. removeServer nm s = Inr s' \<and> session_ok s' \<and> servs s' = (servs s)(i := None) \<and> dccs s' = dccs s \<and>
    (\<forall>n. nicks s' n = (case nicks s n of None \<Rightarrow> None | Some nk \<Rightarrow> if nk_server nk = i then None else Some nk))"
proof -
  obtain s1 where s1: "purge_server (length (reg_users s)) i s = Inr s1" "session_ok s1"
      "\<forall>n. nicks s1 n = (case nicks s n of None \<Rightarrow> None | Some nk \<Rightarrow> if nk_server nk = i then None else Some nk)"
      "servs s1 = servs s" "irc_id s1 = irc_id s" "user_id s1 = user_id s" "reg_servers s1 = reg_servers s" "dccs s1 = dccs s"
    using purge_server_ok [OF assms(1) order_refl assms(4)] by blast
  define s2 where "s2 = s1\<lparr>servs := (servs s1)(i := None), reg_servers := map_erase nm (reg_servers s1)\<rparr>"
  note ok = invD [OF s1(2)]
  have "skel s2 = skel s1" by (simp add: s2_def skel_def)
  then have "net_ok s2" using net_ok_skel ok(2) by metis
  moreover have "cb_ok s2" using ok(3) by (simp add: s2_def cb_ok_def)
  moreover have "env_ok s2" using ok(4) assms(3) s1(5) unfolding env_ok_def s2_def by auto
  moreover have "nk_server nk \<noteq> i" if "nicks s1 n = Some nk" for n nk using s1(3) that by (auto split: option.splits if_splits)
  then have "reg_ok s2" using ok(5) unfolding reg_ok_def s2_def by auto
  ultimately have "session_ok s2" by (simp add: session_ok_def all_ok_def)
  moreover have "removeServer nm s = Inr s2" using assms(2) s1(1) by (simp add: removeServer_def s2_def)
  ultimately show ?thesis using s1(3,4,8) by (intro exI [of _ s2]) (simp add: s2_def)
qed

lemma Buddy_shape:
  "nk_server (Buddy w i b) = i" "nk_channels (Buddy w i b) = []" "nk_class (Buddy w i b) = CBuddy b"
  "\<not> has_space (nk_name (Buddy w i b))"
  by (auto simp: Buddy_def Nick_def nickize_no_space Let_def split: prod.split)

lemma step_keeps_inv: "net_step w s s' \<Longrightarrow> session_ok s \<Longrightarrow> session_ok s'"
proof (induction rule: net_step.induct)
  case (step_join s n nk c ch st u s')
  then show ?case using inv_join [of s n nk c ch w st] by auto
next
  case (step_part s n nk c ch message s')
  then show ?case using part_ok [of s n nk c ch message] by auto
next
  case (step_quit s n nk message s')
  then show ?case using quit_nick_ok [of s n nk message] by auto
next
  case (step_remove s n nk s')
  then show ?case using inv_removeNick [of s n nk] by auto
next
  case (step_buddy s i sv b n s')
  then show ?case using enter_nick_ok [of s "Buddy w i b" sv] by (auto simp: Buddy_shape)
next
  case (step_chat_buddy s c ch i sv k st s')
  then show ?case using addBuddy_ok [of s c ch i sv w k st] by auto
next
  case (step_update s c ch k u s')
  then show ?case using updateBuddy_ok [of s c ch k u w] by auto
next
  case (step_channel s v s')
  then show ?case using createChannel_ok [of s w v] by auto
next
  case (step_status nm s)
  show ?case
    unfolding new_status_channel_def using step_status
    by (intro inv_new_chan) (auto simp: StatusChannel_def isChanName_def)
next
  case (step_server s nm info a s')
  then show ?case using inv_server by blast
next
  case (step_no_server s nm i nk s')
  then show ?case using removeServer_ok [of s nm i] by auto
qed

lemma reachable_inv: "reachable w s \<Longrightarrow> session_ok s"
  by (induction rule: reachable.induct) (use IRC_ctor_inv step_keeps_inv in blast)+

section \<open>Properties\<close>

text \<open>A session right after the constructor with one status channel, for the examples.\<close>

definition sample_session :: "net \<Rightarrow> bool" where
  "sample_session s \<longleftrightarrow> (\<exists>s0. IRC_ctor ''v'' ''irc.example'' [] ''client'' = Inr (Some s0) \<and> s = new_status_channel ''&minbif'' s0)"

lemma sample_session_exists:
  "\<exists>s nk ch. sample_session s \<and> reachable w s \<and> user_id s = 1 \<and> nicks s 1 = Some nk \<and> nk_class nk = CUser \<and> nk_channels nk = [] \<and>
    chans s 2 = Some ch \<and> ch_users ch = [] \<and> cusers s = Map.empty \<and> next_id s = 3 \<and> sock_open s \<and> servs s 0 \<noteq> None"
proof -
  have "\<not> has_space ''irc.example''" by (simp add: has_space_def)
  then obtain s0 where s0: "IRC_ctor ''v'' ''irc.example'' [] ''client'' = Inr (Some s0)"
      "\<exists>nk. nicks s0 1 = Some nk \<and> nk_class nk = CUser \<and> nk_channels nk = []" "user_id s0 = 1" "next_id s0 = 2" "cusers s0 = Map.empty"
      "sock_open s0" "servs s0 0 \<noteq> None"
    by (auto simp: IRC_ctor_def server_hostname_def new_nick_def addNick_def IRC_members_def mk_msg_eq deliver_def User_send_def
        Nick_def upd_serv_def msg_live_def stored_live_def setReceiverName_def setName_def setEntity_def ent_live_def)
  have "reachable w (new_status_channel ''&minbif'' s0)"
    using start [OF s0(1)] by (rule step) (rule step_status, simp add: isChanName_def has_space_def)
  moreover have "sample_session (new_status_channel ''&minbif'' s0)" using s0(1) by (auto simp: sample_session_def)
  ultimately show ?thesis using s0(2-)
    by (intro exI [of _ "new_status_channel ''&minbif'' s0"]) (auto simp: new_status_channel_def StatusChannel_def)
qed

text \<open>
  C1: in every reachable state the three views of who is on which channel agree: each channel
  user a nick or a channel lists exists and points back at it, each channel user is listed by
  its nick and its channel, a nick has at most one channel user per channel, and every nick is
  registered under its name.
\<close>

theorem reachable_consistent:
  assumes "reachable w s"
  shows "net_ok s \<and> cb_ok s \<and> reg_ok s"
  using invD [OF reachable_inv [OF assms]] by simp

theorem reachable_consistent_witness: "\<exists>s. sample_session s \<and> net_ok s \<and> cb_ok s \<and> reg_ok s"
  using sample_session_exists [of sample_world] reachable_consistent [of sample_world] by blast



text \<open>
  C4: after \<open>join\<close> the nick is on the channel with exactly the status asked for, whether it was
  there before (with any other status) or not, and the invariant still holds.
\<close>

theorem join_sets_status:
  assumes "reachable w s" and "nicks s n = Some nk" and "chans s c = Some ch"
  shows "\<exists>u cu s'. join w n c st s = Inr (u, s') \<and> reachable w s' \<and> getChanUser s' n c = Inr (Some u)
    \<and> cusers s' u = Some cu \<and> cu_nick cu = n \<and> cu_chan cu = c \<and> cu_status cu = st"
proof -
  from inv_join [OF reachable_inv [OF assms(1)] assms(2,3), of w st] obtain u cu s' where
    j: "join w n c st s = Inr (u, s')" "session_ok s'" "cusers s' u = Some cu" "cu_nick cu = n" "cu_chan cu = c" "cu_status cu = st" by blast
  have r: "reachable w s'" using assms(1) step_join [OF assms(2,3) j(1)] by (rule step)
  note ok = invD(2) [OF j(2)]
  obtain nk' where nk': "nicks s' n = Some nk'" using net_okD(6) [OF ok j(3)] j(4) by blast
  obtain x where x: "getChanUser s' n c = Inr x" "case x of
      Some u \<Rightarrow> (\<exists>cu. cusers s' u = Some cu \<and> cu_nick cu = n \<and> cu_chan cu = c)
    | None \<Rightarrow> \<forall>u cu. cusers s' u = Some cu \<longrightarrow> \<not> (cu_nick cu = n \<and> cu_chan cu = c)"
    using getChanUser_eq [OF ok nk'] by blast
  have "x \<noteq> None"
  proof
    assume "x = None"
    then show False using x(2) j(3-5) by auto
  qed
  then obtain v cv where v: "x = Some v" "cusers s' v = Some cv" "cu_nick cv = n" "cu_chan cv = c" using x(2) by auto
  have "v = u" using net_okD(8) [OF ok v(2) j(3)] v(3,4) j(4,5) by simp
  then have "getChanUser s' n c = Inr (Some u)" using x(1) v(1) by simp
  with j r show ?thesis by blast
qed

theorem join_sets_status_witness:
  "\<exists>s u cu s'. sample_session s \<and> join sample_world 1 2 4 s = Inr (u, s') \<and> cusers s' u = Some cu \<and> cu_status cu = 4"
  using sample_session_exists [of sample_world] join_sets_status [of sample_world _ 1 _ 2] by blast

text \<open>
  After \<open>part\<close> the nick has no channel user on the channel, in the heap or in any list.
\<close>

lemma part_leaves:
  assumes "reachable w s" and "nicks s n = Some nk" and "chans s c = Some ch"
  shows "\<exists>s'. part n c message s = Inr s' \<and> reachable w s'
    \<and> (\<forall>u cu. cusers s' u = Some cu \<longrightarrow> \<not> (cu_nick cu = n \<and> cu_chan cu = c))"
proof -
  from part_ok [OF reachable_inv [OF assms(1)] assms(2,3), of message] obtain s' where
    p: "part n c message s = Inr s'" "\<forall>u cu. cusers s' u = Some cu \<longrightarrow> \<not> (cu_nick cu = n \<and> cu_chan cu = c)" by blast
  have "reachable w s'" using assms(1) step_part [OF assms(2,3) p(1)] by (rule step)
  with p show ?thesis by blast
qed

theorem part_leaves_witness: "\<exists>s s'. sample_session s \<and> part 1 2 ''bye'' s = Inr s' \<and> reachable sample_world s'"
  using sample_session_exists [of sample_world] part_leaves [of sample_world _ 1 _ 2] by blast



end
