(* ===== verification/Log_Flags.thy ===== *)
theory Log_Flags
  imports Util
begin

text \<open>
  The logger, \<open>src/src/core/log.cpp\<close> and \<open>log.h\<close>: the table of flags, the destructor of
  \<open>Log::flux\<close> that decides where a message goes, and the textual form of the set of logged
  flags that the setting \<open>log_level\<close> reads and writes.
\<close>

section \<open>Flags\<close>

definition W_DEBUG :: "32 word" where "W_DEBUG = push_bit 0 1"
definition W_PARSE :: "32 word" where "W_PARSE = push_bit 1 1"
definition W_PURPLE :: "32 word" where "W_PURPLE = push_bit 2 1"
definition W_DESYNCH :: "32 word" where "W_DESYNCH = push_bit 3 1"
definition W_WARNING :: "32 word" where "W_WARNING = push_bit 4 1"
definition W_ERR :: "32 word" where "W_ERR = push_bit 5 1"
definition W_INFO :: "32 word" where "W_INFO = push_bit 6 1"
definition W_SNO :: "32 word" where "W_SNO = push_bit 7 1"
definition W_SOCK :: "32 word" where "W_SOCK = push_bit 8 1"

lemmas W_defs = W_DEBUG_def W_PARSE_def W_PURPLE_def W_DESYNCH_def W_WARNING_def W_ERR_def W_INFO_def W_SNO_def W_SOCK_def

definition DEFAULT_LOGGED_FLAGS :: "32 word" where
  "DEFAULT_LOGGED_FLAGS = W_DESYNCH OR W_WARNING OR W_ERR OR W_INFO OR W_SNO"

datatype syslog_level = LOG_ERR | LOG_WARNING | LOG_NOTICE | LOG_DEBUG

record log_flag =
  lf_flag :: "32 word"
  lf_level :: syslog_level
  lf_name :: string
  lf_sys_log :: bool
  lf_propagate :: bool

definition all_flags :: "log_flag list" where
  "all_flags =
     [\<lparr>lf_flag = W_SNO,     lf_level = LOG_NOTICE,  lf_name = '''',        lf_sys_log = False, lf_propagate = True\<rparr>,
      \<lparr>lf_flag = W_DEBUG,   lf_level = LOG_DEBUG,   lf_name = ''DEBUG'',   lf_sys_log = False, lf_propagate = True\<rparr>,
      \<lparr>lf_flag = W_PARSE,   lf_level = LOG_DEBUG,   lf_name = ''PARSE'',   lf_sys_log = False, lf_propagate = True\<rparr>,
      \<lparr>lf_flag = W_PURPLE,  lf_level = LOG_DEBUG,   lf_name = ''PURPLE'',  lf_sys_log = False, lf_propagate = True\<rparr>,
      \<lparr>lf_flag = W_DESYNCH, lf_level = LOG_WARNING, lf_name = ''DESYNCH'', lf_sys_log = False, lf_propagate = True\<rparr>,
      \<lparr>lf_flag = W_WARNING, lf_level = LOG_WARNING, lf_name = ''WARNING'', lf_sys_log = False, lf_propagate = True\<rparr>,
      \<lparr>lf_flag = W_ERR,     lf_level = LOG_ERR,     lf_name = ''ERR'',     lf_sys_log = True,  lf_propagate = True\<rparr>,
      \<lparr>lf_flag = W_INFO,    lf_level = LOG_NOTICE,  lf_name = ''INFO'',    lf_sys_log = False, lf_propagate = True\<rparr>,
      \<lparr>lf_flag = W_SOCK,    lf_level = LOG_DEBUG,   lf_name = ''SOCK'',    lf_sys_log = False, lf_propagate = False\<rparr>]"

section \<open>Where a message goes\<close>

text \<open>
  The loops of this file run from the last entry of the table to the first. The result is the
  line for the system log, if any, and the line handed to the server poll, if any.
\<close>

definition flag_entry :: "32 word \<Rightarrow> log_flag option" where
  "flag_entry flag = find (\<lambda>e. flag AND lf_flag e \<noteq> 0) (rev all_flags)"

definition flux :: "32 word \<Rightarrow> bool \<Rightarrow> 32 word \<Rightarrow> string \<Rightarrow> (syslog_level \<times> string) option \<times> string option" where
  "flux logged to_syslog flag str =
     (if flag AND logged = 0 then (None, None)
      else case flag_entry flag of
        None \<Rightarrow> (Some (LOG_WARNING, ''Unable to find how to log this message: '' @ str), None)
      | Some e \<Rightarrow>
          ((if lf_sys_log e \<and> to_syslog then Some (lf_level e, ''['' @ lf_name e @ ''] '' @ str) else None),
           (if lf_propagate e
            then Some ((if flag AND W_SNO \<noteq> 0 then ''*** Notice -- '' else ''['' @ lf_name e @ ''] '') @ str)
            else None)))"

section \<open>The textual form\<close>

text \<open>\<open>if(!s.empty()) s += sep; s += x\<close>, an idiom of the whole program.\<close>

definition append_word :: "string \<Rightarrow> string \<Rightarrow> string \<Rightarrow> string" where
  "append_word sep s x = (if s = [] then x else s @ sep @ x)"

definition formatLoggedFlags :: "32 word \<Rightarrow> string" where
  "formatLoggedFlags logged =
     foldl (\<lambda>s e. append_word '' '' s (lf_name e)) [] (filter (\<lambda>e. logged AND lf_flag e \<noteq> 0) (rev all_flags))"

fun set_flags :: "string list \<Rightarrow> 32 word \<Rightarrow> 32 word" where
  "set_flags [] logged = logged"
| "set_flags (token # ts) logged =
     (if token = ''ALL'' then - 1
      else case find (\<lambda>e. lf_name e = token) (rev all_flags) of
        None \<Rightarrow> set_flags ts logged
      | Some e \<Rightarrow> set_flags ts (logged OR lf_flag e))"

definition setLoggedFlags :: "string \<Rightarrow> 32 word" where
  "setLoggedFlags s = set_flags (tokens s '' '') 0"

section \<open>Lemmas\<close>

lemma tokens_append_words:
  "tokens (foldl (append_word [c]) s xs) [c] = tokens s [c] @ concat (map (\<lambda>x. tokens x [c]) xs)"
proof (induction xs arbitrary: s)
  case (Cons x xs)
  have "tokens (append_word [c] s x) [c] = tokens s [c] @ tokens x [c]"
    using tokens_append_delim [of c "[c]" s x] by (simp add: append_word_def)
  then show ?case using Cons.IH by simp
qed simp

lemma foldl_append_word_map: "foldl (\<lambda>s e. append_word c s (f e)) s es = foldl (append_word c) s (map f es)"
  by (induction es arbitrary: s) simp_all

definition named_flags :: "log_flag list" where "named_flags = rev (tl all_flags)"

lemma all_flags_split: "rev all_flags = named_flags @ [hd all_flags]" "hd all_flags = \<lparr>lf_flag = W_SNO, lf_level = LOG_NOTICE, lf_name = '''', lf_sys_log = False, lf_propagate = True\<rparr>"
  by (simp_all add: named_flags_def all_flags_def)

lemma tokens_word: "x \<noteq> [] \<Longrightarrow> c \<notin> set x \<Longrightarrow> tokens x [c] = [x]"
  by (rule tokens_token(2) [where c = c]) auto

lemma named_flags_all:
  "list_all (\<lambda>e. lf_name e \<noteq> [] \<and> CHR '' '' \<notin> set (lf_name e) \<and> lf_name e \<noteq> ''ALL'' \<and>
    find (\<lambda>f. lf_name f = lf_name e) (rev all_flags) = Some e) named_flags"
  by (simp add: named_flags_def all_flags_def)

lemma named_flags_facts:
  assumes "e \<in> set named_flags"
  shows "tokens (lf_name e) '' '' = [lf_name e]" "lf_name e \<noteq> ''ALL''" "find (\<lambda>f. lf_name f = lf_name e) (rev all_flags) = Some e"
  using assms named_flags_all by (simp_all add: list_all_iff tokens_word)

lemma tokens_format:
  "tokens (formatLoggedFlags l) '' '' = map lf_name (filter (\<lambda>e. l AND lf_flag e \<noteq> 0) named_flags)"
proof -
  let ?P = "\<lambda>e. l AND lf_flag e \<noteq> 0"
  have "concat (map (\<lambda>e. tokens (lf_name e) '' '') es) = map lf_name es" if "set es \<subseteq> set named_flags" for es
    using that by (induction es) (auto simp: named_flags_facts)
  then have "concat (map (\<lambda>e. tokens (lf_name e) '' '') (filter ?P named_flags)) = map lf_name (filter ?P named_flags)" by auto
  then show ?thesis
    unfolding formatLoggedFlags_def foldl_append_word_map [of _ lf_name] tokens_append_words all_flags_split(1)
    by (simp add: all_flags_split(2) comp_def)
qed

lemma set_flags_named:
  "set es \<subseteq> set named_flags \<Longrightarrow> set_flags (map lf_name es) a = foldl (\<lambda>a e. a OR lf_flag e) a es"
  by (induction es arbitrary: a) (auto simp: named_flags_facts)

lemma set_format_fold:
  "setLoggedFlags (formatLoggedFlags l) = foldl (\<lambda>a e. a OR lf_flag e) 0 (filter (\<lambda>e. l AND lf_flag e \<noteq> 0) named_flags)"
  unfolding setLoggedFlags_def tokens_format by (rule set_flags_named) auto

lemma and_single_bit:
  "l AND push_bit k 1 \<noteq> 0 \<and> bit (push_bit k 1 :: 32 word) n \<longleftrightarrow> bit l n \<and> bit (push_bit k 1 :: 32 word) n" for l :: "32 word"
proof (cases "bit (push_bit k 1 :: 32 word) n")
  case True
  then have "n = k" "k < 32" by (auto simp: bit_simps)
  then have "bit (l AND push_bit k 1) k \<longleftrightarrow> bit l k" by (auto simp: bit_simps)
  moreover have "l AND push_bit k 1 = 0" if "\<not> bit l k" by (rule bit_word_eqI) (use that in \<open>auto simp: bit_simps\<close>)
  ultimately show ?thesis using True \<open>n = k\<close> by auto
qed simp

lemma foldl_or_bits:
  "bit (foldl (\<lambda>a e. a OR lf_flag e) a (filter P es)) n \<longleftrightarrow> bit a n \<or> (\<exists>e\<in>set es. P e \<and> bit (lf_flag e) n)" for a :: "32 word"
  by (induction es arbitrary: a) (auto simp: bit_simps)

section \<open>Properties\<close>

text \<open>
  Reading back the printed set of logged flags gives the same set, restricted to the flags
  that have a name: every flag of the table but \<open>W_SNO\<close>, whose name is the empty string, so
  writing the setting \<open>log_level\<close> with the value it shows turns the server notices off.
\<close>

lemma log_flags_roundtrip:
  "setLoggedFlags (formatLoggedFlags logged) =
     logged AND (W_DEBUG OR W_PARSE OR W_PURPLE OR W_DESYNCH OR W_WARNING OR W_ERR OR W_INFO OR W_SOCK)"
proof (rule bit_word_eqI)
  fix n assume "n < LENGTH(32)"
  have flags: "lf_flag ` set named_flags = {W_DEBUG, W_PARSE, W_PURPLE, W_DESYNCH, W_WARNING, W_ERR, W_INFO, W_SOCK}"
    by (simp add: named_flags_def all_flags_def insert_commute)
  have one: "logged AND f \<noteq> 0 \<and> bit f n \<longleftrightarrow> bit logged n \<and> bit f n" if "f \<in> lf_flag ` set named_flags" for f
    using that unfolding flags W_defs by (elim insertE emptyE) (simp_all only: and_single_bit)
  have "bit (setLoggedFlags (formatLoggedFlags logged)) n \<longleftrightarrow> (\<exists>f\<in>lf_flag ` set named_flags. logged AND f \<noteq> 0 \<and> bit f n)"
    unfolding set_format_fold foldl_or_bits by auto
  also have "\<dots> \<longleftrightarrow> bit logged n \<and> (\<exists>f\<in>lf_flag ` set named_flags. bit f n)" using one by blast
  finally show "bit (setLoggedFlags (formatLoggedFlags logged)) n =
      bit (logged AND (W_DEBUG OR W_PARSE OR W_PURPLE OR W_DESYNCH OR W_WARNING OR W_ERR OR W_INFO OR W_SOCK)) n"
    unfolding flags by (auto simp: bit_and_iff bit_or_iff)
qed

end
