(* ===== verification/Accounts.thy ===== *)
theory Accounts
  imports Channels Log_Flags
begin

text \<open>
  Protocols and accounts: \<open>src/src/im/protocol.cpp\<close>, the parts of \<open>src/src/im/account.cpp\<close> that keep
  the options, the identifier, the queue of channels to join and the reconnection timer of an
  account, and \<open>Purple::getNewAccountName\<close> of \<open>purple.cpp\<close>.

  What libpurple stores of an account is the record \<open>acct\<close>: its user name and password, the
  protocol's settings by name, and the strings and numbers minbif keeps under its own name. What
  a protocol plugin offers is the record \<open>protocol\<close>.
\<close>

section \<open>Protocols and options\<close>

datatype opt_type = OptNone | OptBool | OptStr | OptInt | OptStrList | OptAccid | OptPassword | OptStatusChannel | OptServerAliases

record popt =
  po_type :: opt_type
  po_name :: string
  po_value :: string
  po_text :: string
  po_choices :: "string list"

type_synonym options = "(string, popt) smap"

datatype pref_type = PrefBoolean | PrefString | PrefInt | PrefStringList | PrefOther

record pref_option =
  pr_type :: pref_type
  pr_setting :: string
  pr_text :: string
  pr_default_bool :: bool
  pr_default_string :: "string option"
  pr_default_int :: int
  pr_default_list :: "string option"
  pr_list :: "string list"

record protocol =
  proto_id :: string
  proto_name :: string
  proto_options :: "pref_option list"

definition Option_new :: "opt_type \<Rightarrow> string \<Rightarrow> string \<Rightarrow> string \<Rightarrow> popt" where
  "Option_new ty nm txt v = \<lparr>po_type = ty, po_name = nm, po_value = v, po_text = txt, po_choices = []\<rparr>"

definition type_of_pref :: "pref_type \<Rightarrow> opt_type" where
  "type_of_pref t = (case t of PrefBoolean \<Rightarrow> OptBool | PrefString \<Rightarrow> OptStr | PrefInt \<Rightarrow> OptInt | PrefStringList \<Rightarrow> OptStrList | PrefOther \<Rightarrow> OptNone)"

definition getValueInt :: "popt \<Rightarrow> exn + int" where
  "getValueInt op = s2t_signed 32 (po_value op)"

definition getValueBool :: "popt \<Rightarrow> bool" where
  "getValueBool op \<longleftrightarrow> po_value op = ''true'' \<or> po_value op = ''1''"

definition getID_proto :: "protocol \<Rightarrow> string" where
  "getID_proto p = (if take 5 (proto_id p) = ''prpl-'' then drop 5 (proto_id p) else proto_id p)"

text \<open>One option of the plugin with its default; an option of another type is skipped.\<close>

definition pref_popt :: "pref_option \<Rightarrow> popt option" where
  "pref_popt pr =
     (let op = Option_new (type_of_pref (pr_type pr)) (pr_setting pr) (pr_text pr) [];
          str = (\<lambda>d. case d of Some v \<Rightarrow> op\<lparr>po_value := v\<rparr> | None \<Rightarrow> op)
      in case pr_type pr of
           PrefBoolean \<Rightarrow> Some (op\<lparr>po_value := if pr_default_bool pr then ''true'' else ''false''\<rparr>)
         | PrefString \<Rightarrow> Some (str (pr_default_string pr))
         | PrefStringList \<Rightarrow> Some ((str (pr_default_list pr))\<lparr>po_choices := pr_list pr\<rparr>)
         | PrefInt \<Rightarrow> Some (op\<lparr>po_value := t2s_int (pr_default_int pr)\<rparr>)
         | PrefOther \<Rightarrow> None)"

definition own_options :: "popt list" where
  "own_options =
     [Option_new OptAccid ''accid'' ''Account ID'' [],
      Option_new OptStatusChannel ''status_channel'' ''Status Channel'' ''&minbif'',
      Option_new OptPassword ''password'' ''Account password'' [],
      Option_new OptServerAliases ''server_aliases'' ''Store aliases server-side'' ''true'']"

definition proto_getOptions :: "protocol \<Rightarrow> options" where
  "proto_getOptions p =
     foldl (\<lambda>m op. map_set (po_name op) op m) [] (List.map_filter pref_popt (proto_options p) @ own_options)"

section \<open>Accounts\<close>

record acct =
  ac_username :: string
  ac_proto :: protocol
  ac_password :: string
  ac_remember :: bool
  ac_strings :: "string \<rightharpoonup> string"
  ac_ints :: "string \<rightharpoonup> int"
  ac_bools :: "string \<rightharpoonup> bool"
  ac_id :: string
  ac_channel :: string
  ac_server_aliases :: bool
  ac_join_queue :: string
  ac_delay :: "32 word"
  ac_reconnect_id :: int
  ac_pending :: "(int \<times> 32 word) list"
  ac_enabled :: bool

definition Account_new :: "string \<Rightarrow> protocol \<Rightarrow> acct" where
  "Account_new username p =
     \<lparr>ac_username = username, ac_proto = p, ac_password = [], ac_remember = False, ac_strings = Map.empty, ac_ints = Map.empty,
      ac_bools = Map.empty, ac_id = [], ac_channel = [], ac_server_aliases = True, ac_join_queue = [], ac_delay = 15,
      ac_reconnect_id = -1, ac_pending = [], ac_enabled = False\<rparr>"

text \<open>
  \<open>Purple::getNewAccountName\<close>: the identifier of the protocol, or with the first number that no
  other account of the protocol has. A match restarts the walk over the accounts with the next
  number; \<open>ids\<close> are the identifiers of the accounts the walk does not skip.
\<close>

definition numbered :: "string \<Rightarrow> nat \<Rightarrow> string" where
  "numbered base i = base @ (if i = 0 then [] else t2s i)"

fun new_name_loop :: "nat \<Rightarrow> string \<Rightarrow> string list \<Rightarrow> nat \<Rightarrow> exn + nat" where
  "new_name_loop 0 base ids i = Inr i"
| "new_name_loop (Suc fuel) base ids i =
     (case find (\<lambda>ident. ident = numbered base i) ids of
        None \<Rightarrow> Inr i
      | Some ident \<Rightarrow>
          if i = 0 then new_name_loop fuel base ids 1
          else bindE (s2t_signed 32 (drop (length base) ident)) (\<lambda>k. new_name_loop fuel base ids (nat (k + 1))))"

definition getNewAccountName :: "protocol \<Rightarrow> im_account \<Rightarrow> (im_account \<times> acct) list \<Rightarrow> exn + string" where
  "getNewAccountName p butone accs =
     (let ids = map (\<lambda>e. ac_id (snd e)) (filter (\<lambda>(a, ac). a \<noteq> butone \<and> proto_id (ac_proto ac) = proto_id p) accs)
      in bindE (new_name_loop (Suc (length accs)) (getID_proto p) ids 0) (\<lambda>i. Inr (numbered (getID_proto p) i)))"

text \<open>\<open>getID\<close> computes a name for an account that has none and stores it.\<close>

definition getID :: "(im_account \<times> acct) list \<Rightarrow> im_account \<Rightarrow> acct \<Rightarrow> exn + string \<times> acct" where
  "getID accs a ac =
     (if ac_id ac \<noteq> [] then Inr (ac_id ac, ac)
      else bindE (getNewAccountName (ac_proto ac) a accs) (\<lambda>n. Inr (n, ac\<lparr>ac_id := n\<rparr>)))"

definition getServername :: "acct \<Rightarrow> string" where
  "getServername ac = ac_username ac @ '':'' @ ac_id ac"

section \<open>The queue of channels to join\<close>

definition enqueueChannelJoin :: "string \<Rightarrow> acct \<Rightarrow> acct" where
  "enqueueChannelJoin c ac = ac\<lparr>ac_join_queue := append_word '','' (ac_join_queue ac) c\<rparr>"

definition flushChannelJoins :: "acct \<Rightarrow> string list \<times> acct" where
  "flushChannelJoins ac = (tokens (ac_join_queue ac) '','', ac\<lparr>ac_join_queue := []\<rparr>)"

definition abortChannelJoins :: "bool \<Rightarrow> acct \<Rightarrow> net \<Rightarrow> exn + acct \<times> net" where
  "abortChannelJoins online ac s =
     bindE (if online
            then foldE (\<lambda>c. reply ''403'' [''#'' @ c @ '':'' @ ac_id ac, ''No such channel'']) (tokens (ac_join_queue ac) '','') s
            else Inr s) (\<lambda>s1. Inr (ac\<lparr>ac_join_queue := []\<rparr>, s1))"

section \<open>Reconnection\<close>

text \<open>
  \<open>delayReconnect\<close> doubles the delay and restarts the timer; \<open>new_id\<close> is the number GLib gives to the
  new timeout. The product by 1000 is an \<open>int\<close> of 32 bits. \<open>ac_pending\<close> are the timeouts of this
  account that GLib still has, with their interval in milliseconds.
\<close>

definition source_remove :: "int \<Rightarrow> acct \<Rightarrow> acct" where
  "source_remove i ac = ac\<lparr>ac_pending := filter (\<lambda>t. fst t \<noteq> i) (ac_pending ac)\<rparr>"

definition delayReconnect :: "int \<Rightarrow> acct \<Rightarrow> 32 word \<times> acct" where
  "delayReconnect new_id ac =
     (let delay = ac_delay ac * 2;
          ac1 = (if ac_reconnect_id ac \<ge> 0 then source_remove (ac_reconnect_id ac) ac else ac)
      in (delay, ac1\<lparr>ac_pending := ac_pending ac1 @ [(new_id, delay * 1000)], ac_delay := delay, ac_reconnect_id := new_id\<rparr>))"

definition removeReconnection :: "acct \<Rightarrow> acct" where
  "removeReconnection ac =
     (let ac1 = (if ac_reconnect_id ac \<ge> 0 then source_remove (ac_reconnect_id ac) ac else ac)
      in ac1\<lparr>ac_delay := 15, ac_reconnect_id := - 1\<rparr>)"

definition connect :: "acct \<Rightarrow> acct" where
  "connect ac = ac\<lparr>ac_enabled := True\<rparr>"

definition disconnect :: "acct \<Rightarrow> acct" where
  "disconnect ac = (removeReconnection ac)\<lparr>ac_enabled := False\<rparr>"

text \<open>The timeout \<open>i\<close> fires: GLib drops it, as the callback returns \<open>FALSE\<close>.\<close>

definition reconnect :: "int \<Rightarrow> acct \<Rightarrow> acct" where
  "reconnect i ac = connect ((source_remove i ac)\<lparr>ac_reconnect_id := - 1\<rparr>)"

section \<open>The status channel of an account\<close>

text \<open>
  \<open>bs\<close> are the buddies of the account, \<open>status\<close> its message for the status \<open>available\<close> and
  \<open>unset\<close> the number of libpurple's unset status.
\<close>

definition createStatusChannel :: "world \<Rightarrow> im_account \<Rightarrow> im_buddy list \<Rightarrow> string \<Rightarrow> nat \<Rightarrow> net \<Rightarrow> exn + net" where
  "createStatusChannel w a bs status unset s =
     (let channame = w_acc_status_channel w a
      in if channame = [] \<or> hd channame \<noteq> CHR ''&'' then Inr s
         else bindE (getStatusChannel w s a) (\<lambda>r.
              bindE (case r of
                  Some c \<Rightarrow> Inr (c, s)
                | None \<Rightarrow>
                    let c = next_id s; s1 = s\<lparr>next_id := c + 1, chans := (chans s)(c \<mapsto> StatusChannel channame)\<rparr>
                    in bindE (addChannel c s1) (\<lambda>s2.
                       bindE (join w (user_id s2) c (w_op w) s2) (\<lambda>(_, s3). Inr (c, s3)))) (\<lambda>(c, s1).
              bindE (chan_of s1 c) (\<lambda>ch.
              bindE (if ch_topic ch = status then Inr s1
                     else if status \<noteq> [] then bindE (setTopic w c None status s1) (\<lambda>(_, s2). Inr s2)
                     else Inr (im_do (SetStatusPrim a unset (ch_topic ch)) s1)) (\<lambda>s2.
                foldE (Channels.updated w) bs (upd_chan c (addAccount a) s2))))))"

definition leaveStatusChannel :: "world \<Rightarrow> im_account \<Rightarrow> im_buddy list \<Rightarrow> net \<Rightarrow> exn + net" where
  "leaveStatusChannel w a bs s =
     bindE (getStatusChannel w s a) (\<lambda>r. case r of
         None \<Rightarrow> Inr s
       | Some c \<Rightarrow>
           bindE (foldE (\<lambda>b s. case buddy_ui s b of
                       None \<Rightarrow> Inr s
                     | Some n \<Rightarrow> part n c ''Leaving status channel'' s) bs (upd_chan c (removeAccount a) s)) (\<lambda>s1.
           bindE (chan_of s1 c) (\<lambda>ch. if ch_accounts ch = [] then removeChannel (ch_name ch) s1 else Inr s1)))"

section \<open>Options of an account\<close>

definition stored :: "(string \<rightharpoonup> 'v) \<Rightarrow> string \<Rightarrow> 'v \<Rightarrow> 'v" where
  "stored m k d = (case m k of Some v \<Rightarrow> v | None \<Rightarrow> d)"

definition current_value :: "acct \<Rightarrow> popt \<Rightarrow> exn + string" where
  "current_value ac op =
     (let nm = po_name op
      in case po_type op of
           OptStr \<Rightarrow> Inr (stored (ac_strings ac) nm (po_value op))
         | OptStrList \<Rightarrow> Inr (stored (ac_strings ac) nm (po_value op))
         | OptInt \<Rightarrow> bindE (getValueInt op) (\<lambda>i. Inr (t2s_int (stored (ac_ints ac) nm i)))
         | OptBool \<Rightarrow> Inr (if stored (ac_bools ac) nm (getValueBool op) then ''true'' else ''false'')
         | OptAccid \<Rightarrow> Inr (ac_id ac)
         | OptStatusChannel \<Rightarrow> Inr (ac_channel ac)
         | OptPassword \<Rightarrow> Inr (ac_password ac)
         | OptServerAliases \<Rightarrow> Inr (if ac_server_aliases ac then ''true'' else ''false'')
         | OptNone \<Rightarrow> Inr (po_value op))"

fun fill_options :: "acct \<Rightarrow> options \<Rightarrow> exn + options" where
  "fill_options ac [] = Inr []"
| "fill_options ac ((k, op) # m) =
     bindE (current_value ac op) (\<lambda>v. bindE (fill_options ac m) (\<lambda>m1. Inr ((k, op\<lparr>po_value := v\<rparr>) # m1)))"

definition acct_getOptions :: "acct \<Rightarrow> exn + options" where
  "acct_getOptions ac = fill_options ac (proto_getOptions (ac_proto ac))"

text \<open>
  What \<open>setOptions\<close> needs to know besides the account: whether it is connected, all the accounts,
  and whether an account answers to a name (\<open>IM::getAccount\<close>). \<open>chan_move\<close> is the change of the
  status channel: leave the old one, store the name, create the new one.
\<close>

record opt_env =
  oe_connected :: bool
  oe_accounts :: "(im_account \<times> acct) list"
  oe_taken :: "string \<Rightarrow> bool"
  oe_buddies :: "im_buddy list"
  oe_status :: string
  oe_unset :: nat

definition chan_move :: "world \<Rightarrow> opt_env \<Rightarrow> im_account \<Rightarrow> string \<Rightarrow> acct \<times> net \<Rightarrow> exn + acct \<times> net" where
  "chan_move w e a c st =
     (case st of (ac, s) \<Rightarrow>
        bindE (leaveStatusChannel (w\<lparr>w_acc_status_channel := (w_acc_status_channel w)(a := ac_channel ac)\<rparr>) a (oe_buddies e) s) (\<lambda>s1.
        bindE (createStatusChannel (w\<lparr>w_acc_status_channel := (w_acc_status_channel w)(a := c)\<rparr>) a (oe_buddies e)
                 (oe_status e) (oe_unset e) s1) (\<lambda>s2.
          Inr (ac\<lparr>ac_channel := c\<rparr>, s2))))"

text \<open>One option: an \<open>OptionError\<close> is a text, with the state left as it was.\<close>

definition set_option :: "world \<Rightarrow> opt_env \<Rightarrow> im_account \<Rightarrow> popt \<Rightarrow> acct \<times> net \<Rightarrow> exn + string option \<times> acct \<times> net" where
  "set_option w e a op st =
     (let ac = fst st; v = po_value op; nm = po_name op; ok = (\<lambda>ac1. Inr (None, ac1, snd st))
      in case po_type op of
           OptStr \<Rightarrow> ok (ac\<lparr>ac_strings := (ac_strings ac)(nm \<mapsto> v)\<rparr>)
         | OptStrList \<Rightarrow> ok (ac\<lparr>ac_strings := (ac_strings ac)(nm \<mapsto> v)\<rparr>)
         | OptInt \<Rightarrow> bindE (getValueInt op) (\<lambda>i. ok (ac\<lparr>ac_ints := (ac_ints ac)(nm \<mapsto> i)\<rparr>))
         | OptBool \<Rightarrow> ok (ac\<lparr>ac_bools := (ac_bools ac)(nm \<mapsto> getValueBool op)\<rparr>)
         | OptAccid \<Rightarrow>
             bindE (getID (oe_accounts e) a ac) (\<lambda>(ident, ac1).
               if ident = v then ok ac1
               else if oe_connected e then Inr (Some (''Can'' @ [CHR 0x27] @ ''t change ID of a connected account''), ac1, snd st)
               else if v = [] then bindE (getNewAccountName (ac_proto ac1) a (oe_accounts e)) (\<lambda>n. ok (ac1\<lparr>ac_id := n\<rparr>))
               else if oe_taken e v then Inr (Some ''This ID is already used.'', ac1, snd st)
               else ok (ac1\<lparr>ac_id := v\<rparr>))
         | OptStatusChannel \<Rightarrow>
             if ac_channel ac = v then ok ac
             else if \<not> isChanName v \<or> v = [] \<or> hd v \<noteq> CHR ''&''
             then Inr (Some ([CHR 0x27] @ v @ [CHR 0x27] @ '' is not a valid channel name''), st)
             else bindE (chan_move w e a v st) (\<lambda>st1. Inr (None, st1))
         | OptPassword \<Rightarrow>
             if v = ac_password ac then ok ac
             else if v = [] then ok (ac\<lparr>ac_remember := False\<rparr>)
             else ok (ac\<lparr>ac_password := v, ac_remember := True\<rparr>)
         | OptServerAliases \<Rightarrow> ok (ac\<lparr>ac_server_aliases := getValueBool op\<rparr>)
         | OptNone \<Rightarrow> ok ac)"

fun setOptions :: "world \<Rightarrow> opt_env \<Rightarrow> im_account \<Rightarrow> options \<Rightarrow> acct \<times> net \<Rightarrow> exn + string option \<times> acct \<times> net" where
  "setOptions w e a [] st = Inr (None, st)"
| "setOptions w e a ((k, op) # m) st =
     bindE (set_option w e a op st) (\<lambda>(err, st1). case err of
         Some reason \<Rightarrow> Inr (Some reason, st1)
       | None \<Rightarrow> setOptions w e a m st1)"

end
