(* ===== verification/Session.thy ===== *)
theory Session
  imports Accounts
begin

text \<open>
  The session of one client: the members of \<open>IRC\<close> that are not the registries, the
  authentication mechanisms (\<open>src/src/im/auth.cpp\<close>, \<open>auth_local.cpp\<close>, \<open>auth_connection.cpp\<close>) and
  the operations of \<open>src/src/irc/irc.cpp\<close> that register, ping and close the session. The build
  modelled is the one without PAM.

  The record \<open>session\<close> holds the network state of the other theories, the password, the time of
  the last line read (\<open>None\<close> until it is set, as the constructor of \<open>User\<close> leaves it
  uninitialised), what was handed to the server poll and what was logged. The record \<open>senv\<close> is
  what the program reads from its configuration, the file system and libpurple.
\<close>

section \<open>State\<close>

datatype mechanism = AuthConnection | AuthLocal

text \<open>The preferences of libpurple that the program stores its settings in.\<close>

record prefs =
  pf_password :: string
  pf_typing_notice :: int
  pf_accept_nobuddies :: bool
  pf_send_delay :: int
  pf_voiced_buddies :: bool
  pf_server_aliases :: bool
  pf_away_idle :: bool
  pf_proxy_type :: string
  pf_proxy :: "(string option \<times> int \<times> string option \<times> string option) option"

record session =
  se_net :: net
  se_password :: string
  se_last_read :: "int option"
  se_motd :: "string list"
  se_auth :: "mechanism option"
  se_im :: bool
  se_ims :: "string list"
  se_prefs :: prefs
  se_count :: "32 word list"
  se_ipc :: "irc_msg list"
  se_kills :: nat
  se_logged :: "32 word"
  se_to_syslog :: bool
  se_syslog :: "(syslog_level \<times> string) list"
  se_accts :: "(im_account \<times> acct) list"

datatype icon_result = IconBuffer string | CacaError | CacaNotLoaded

text \<open>What \<open>purple_chat_new\<close> gives: nothing, a chat to join, or one whose conversation is still there.\<close>

datatype new_chat = NoChat | ChatToJoin | ChatPresent im_conv

record plugin =
  pl_name :: string
  pl_summary :: string
  pl_description :: string
  pl_loaded :: bool
  pl_load :: "string option"
  pl_unload :: "string option"

record senv =
  x_world :: world
  x_version :: string
  x_build :: string
  x_created :: string
  x_infotxt :: "string list"
  x_ping_freq :: int
  x_uptime :: int
  x_password :: string
  x_opers :: "(string \<times> string \<times> string) list"
  x_icons_url :: string
  x_motd :: "string option"
  x_ipc :: "irc_msg \<Rightarrow> bool"
  x_use_connection :: bool
  x_use_local :: bool
  x_exists :: "string \<Rightarrow> bool"
  x_new_im :: "string \<Rightarrow> string option"
  x_client_username :: string
  x_stored :: "string \<Rightarrow> prefs"
  x_OFFLINE :: nat
  x_AVAILABLE :: nat
  x_AWAY :: nat
  x_status :: "im_account \<Rightarrow> nat"
  x_primitives :: "(string \<times> string) list"
  x_connected :: "im_account \<Rightarrow> bool"
  x_connecting :: "im_account \<Rightarrow> bool"
  x_supports_chats :: "im_account \<Rightarrow> bool"
  x_buddy_menu :: "im_account \<Rightarrow> (im_buddy \<Rightarrow> bool) option"
  x_new_chat :: "im_account \<Rightarrow> string \<Rightarrow> (string \<times> string) list \<Rightarrow> new_chat"
  x_chat_params :: "im_account \<Rightarrow> (string, string) smap"
  x_url_decode :: "string \<Rightarrow> string"
  x_icon :: "nick \<Rightarrow> nat \<Rightarrow> icon_result"
  x_icon_path :: "im_buddy \<Rightarrow> string"
  x_username :: string
  x_buddies :: "im_account \<Rightarrow> im_buddy list"
  x_protocols :: "(string, protocol) smap"
  x_new_account :: im_account
  x_status_message :: "im_account \<Rightarrow> string"
  x_UNSET :: nat
  x_saved_status :: bool
  x_actions :: "im_account \<Rightarrow> string list"
  x_plugins :: "(string, plugin) smap"

text \<open>
  What the network theories read of their environment: the settings among it are the current
  preferences.
\<close>

definition sworld :: "senv \<Rightarrow> session \<Rightarrow> world" where
  "sworld x s = (x_world x)\<lparr>w_send_delay := pf_send_delay (se_prefs s), w_voiced_buddies := pf_voiced_buddies (se_prefs s),
     w_accept_unknown := pf_accept_nobuddies (se_prefs s),
     w_acc_id := (\<lambda>a. case map_of (se_accts s) a of Some ac \<Rightarrow> ac_id ac | None \<Rightarrow> w_acc_id (x_world x) a),
     w_acc_servername := (\<lambda>a. case map_of (se_accts s) a of Some ac \<Rightarrow> getServername ac | None \<Rightarrow> w_acc_servername (x_world x) a),
     w_acc_status_channel := (\<lambda>a. case map_of (se_accts s) a of Some ac \<Rightarrow> ac_channel ac | None \<Rightarrow> w_acc_status_channel (x_world x) a)\<rparr>"

text \<open>\<open>Purple::getAccountsList\<close>: the accounts by their identifier.\<close>

definition getAccountsList :: "session \<Rightarrow> (string, im_account) smap" where
  "getAccountsList s = foldl (\<lambda>m (a, ac). map_set (ac_id ac) a m) [] (se_accts s)"

definition upd_acct :: "im_account \<Rightarrow> (acct \<Rightarrow> acct) \<Rightarrow> session \<Rightarrow> session" where
  "upd_acct a f s = s\<lparr>se_accts := map (\<lambda>(k, ac). (k, if k = a then f ac else ac)) (se_accts s)\<rparr>"

text \<open>Running an operation of the network theories inside a session.\<close>

definition on_net :: "(net \<Rightarrow> exn + net) \<Rightarrow> session \<Rightarrow> exn + session" where
  "on_net f s = bindE (f (se_net s)) (\<lambda>n. Inr (s\<lparr>se_net := n\<rparr>))"

definition answer :: "string \<Rightarrow> string list \<Rightarrow> session \<Rightarrow> exn + session" where
  "answer code xs = on_net (reply code xs)"

definition the_user :: "session \<Rightarrow> exn + nick" where
  "the_user s = nick_of (se_net s) (user_id (se_net s))"

definition upd_user :: "(nick \<Rightarrow> nick) \<Rightarrow> session \<Rightarrow> session" where
  "upd_user f s = s\<lparr>se_net := upd_nick (user_id (se_net s)) f (se_net s)\<rparr>"

definition ipc_send :: "senv \<Rightarrow> irc_msg \<Rightarrow> session \<Rightarrow> bool \<times> session" where
  "ipc_send x m s = (x_ipc x m, s\<lparr>se_ipc := se_ipc s @ [m]\<rparr>)"

text \<open>\<open>getServerName()\<close> of the \<open>IRC\<close> object.\<close>

definition my_name :: "session \<Rightarrow> string" where
  "my_name s = ent_name (se_net s) (EServer (irc_id (se_net s)))"

section \<open>Closing, notices and the message of the day\<close>

text \<open>
  \<open>IRC::quit\<close>: the error line, then the socket is gone for the user and for the \<open>IRC\<close> object,
  and the poll is asked to stop this session.
\<close>

definition quit :: "string \<Rightarrow> session \<Rightarrow> exn + session" where
  "quit reason s =
     bindE (mk_msg ''ERROR'' None None [''Closing Link: '' @ reason]) (\<lambda>m.
     bindE (on_net (deliver (user_id (se_net s)) m) s) (\<lambda>s1.
       Inr (s1\<lparr>se_net := (se_net s1)\<lparr>sock_open := False\<rparr>, se_kills := se_kills s1 + 1\<rparr>)))"

definition talk :: "string \<Rightarrow> senv \<Rightarrow> nid \<Rightarrow> string \<Rightarrow> session \<Rightarrow> exn + session" where
  "talk cmd x n msg =
     foldE (\<lambda>tmp s.
       bindE (mk_msg cmd (Some (EServer (irc_id (se_net s)))) (Some (ENick (user_id (se_net s)))) [tmp]) (\<lambda>m.
         on_net (send (sworld x s) n m) s))
       (tokens msg [CHR 0x0A, CHR 0x0D])"

definition notice :: "senv \<Rightarrow> nid \<Rightarrow> string \<Rightarrow> session \<Rightarrow> exn + session" where
  "notice x n msg = talk ''NOTICE'' x n msg"

definition privmsg :: "senv \<Rightarrow> nid \<Rightarrow> string \<Rightarrow> session \<Rightarrow> exn + session" where
  "privmsg x n msg = talk ''PRIVMSG'' x n msg"

definition notice_user :: "senv \<Rightarrow> string \<Rightarrow> session \<Rightarrow> exn + session" where
  "notice_user x msg s = notice x (user_id (se_net s)) msg s"

text \<open>
  \<open>fp.getline(buf, 511)\<close> until the stream fails: at most 510 characters are stored, a longer line
  sets the fail bit, and so does the attempt that finds the end of the file before a character.
  Every attempt is stored, the failing one too.
\<close>

function getlines :: "string \<Rightarrow> string list" where
  "getlines content =
     (let line = takeWhile (\<lambda>c. c \<noteq> CHR 0x0A) content;
          rest = dropWhile (\<lambda>c. c \<noteq> CHR 0x0A) content
      in if content = [] then [[]]
         else if length line > 510 then [take 510 line]
         else line # getlines (tl rest))"
  by pat_completeness auto
termination
proof (relation "measure length")
  fix content :: string and line rest
  assume "rest = dropWhile (\<lambda>c. c \<noteq> CHR 0x0A) content" "content \<noteq> []"
  then show "(tl rest, content) \<in> measure length"
    by (cases rest) (simp, metis in_measure length_dropWhile_le length_tl less_le_trans list.distinct(1) diff_less length_greater_0_conv less_one)
qed simp

declare getlines.simps [simp del]

section \<open>Logging\<close>

text \<open>
  \<open>ServerPoll::log\<close> of both polls sends the lines to the user; \<open>b_log[flag] << str\<close> ends in the
  destructor of \<open>Log::flux\<close>, which hands the line to the poll.
\<close>

definition poll_log :: "senv \<Rightarrow> 32 word \<Rightarrow> string \<Rightarrow> session \<Rightarrow> exn + session" where
  "poll_log x level msg s =
     talk (if level AND W_DEBUG \<noteq> 0 then ''PRIVMSG'' else ''NOTICE'') x (user_id (se_net s)) msg s"

definition b_log :: "senv \<Rightarrow> 32 word \<Rightarrow> string \<Rightarrow> session \<Rightarrow> exn + session" where
  "b_log x flag str s =
     (let (sys, line) = flux (se_logged s) (se_to_syslog s) flag str;
          s1 = s\<lparr>se_syslog := se_syslog s @ (case sys of None \<Rightarrow> [] | Some l \<Rightarrow> [l])\<rparr>
      in case line of None \<Rightarrow> Inr s1 | Some msg \<Rightarrow> poll_log x flag msg s1)"

definition setMotd :: "senv \<Rightarrow> session \<Rightarrow> exn + session" where
  "setMotd x s =
     (case x_motd x of
        None \<Rightarrow> b_log x W_WARNING ''Unable to read MOTD'' s
      | Some content \<Rightarrow> Inr (s\<lparr>se_motd := getlines content\<rparr>))"

definition rehash :: "senv \<Rightarrow> bool \<Rightarrow> session \<Rightarrow> exn + session" where
  "rehash x verbose s =
     bindE (setMotd x s) (\<lambda>s1. if verbose then b_log x (W_INFO OR W_SNO) ''Server configuration rehashed.'' s1 else Inr s1)"

text \<open>\<open>m_motd\<close>, the handler of \<open>MOTD\<close>, is also called by \<open>sendWelcome\<close>.\<close>

definition m_motd :: "irc_msg \<Rightarrow> session \<Rightarrow> exn + session" where
  "m_motd m s =
     bindE (answer ''375'' [''- '' @ my_name s @ '' Message Of The Day -''] s) (\<lambda>s1.
     bindE (foldE (\<lambda>l. answer ''372'' [''- '' @ l]) (se_motd s1) s1) (\<lambda>s2.
       answer ''376'' [''End of /MOTD command.''] s2))"

section \<open>Authentication\<close>

text \<open>
  An \<open>IMError\<close> carries a reason and leaves the state as it was when it was thrown, so a result
  is a reason or a value, with the state. \<open>create\<close> may also throw \<open>UnableToCreate\<close>.
\<close>

type_synonym 'a im_result = "exn + (string + 'a) \<times> session"

datatype create_error = IMError string | UnableToCreate string

text \<open>\<open>new im::IM(irc, username)\<close> loads the preferences of the user, or throws.\<close>

definition new_im :: "senv \<Rightarrow> string \<Rightarrow> session \<Rightarrow> (string + unit) \<times> session" where
  "new_im x username s =
     (case x_new_im x username of
        Some reason \<Rightarrow> (Inl reason, s)
      | None \<Rightarrow> (Inr (), s\<lparr>se_prefs := x_stored x username, se_ims := se_ims s @ [username]\<rparr>))"

definition getMechanisms :: "senv \<Rightarrow> mechanism list" where
  "getMechanisms x = (if x_use_connection x then [AuthConnection] else []) @ (if x_use_local x then [AuthLocal] else [])"

definition mech_exists :: "senv \<Rightarrow> mechanism \<Rightarrow> string \<Rightarrow> bool" where
  "mech_exists x m username = (case m of AuthConnection \<Rightarrow> True | AuthLocal \<Rightarrow> x_exists x username)"

definition authenticate :: "senv \<Rightarrow> mechanism \<Rightarrow> string \<Rightarrow> string \<Rightarrow> session \<Rightarrow> bool im_result" where
  "authenticate x m username password s =
     (if \<not> x_exists x username then Inr (Inr False, s)
      else case m of
        AuthConnection \<Rightarrow>
          bindE (b_log x W_DEBUG (''Authenticating user '' @ username @ '' using connection information'') s) (\<lambda>s1.
            if x_client_username x = username
            then case new_im x username s1 of (Inl e, s2) \<Rightarrow> Inr (Inl e, s2) | (Inr _, s2) \<Rightarrow> Inr (Inr True, s2)
            else Inr (Inr False, s1))
      | AuthLocal \<Rightarrow>
          (case new_im x username s of
             (Inl e, s1) \<Rightarrow> Inr (Inl e, s1)
           | (Inr _, s1) \<Rightarrow>
               bindE (b_log x W_DEBUG (''Authenticating user '' @ username @ '' using local database'') s1) (\<lambda>s2.
                 Inr (Inr (pf_password (se_prefs s2) = password), s2))))"

fun validate_loop :: "senv \<Rightarrow> string \<Rightarrow> string \<Rightarrow> mechanism list \<Rightarrow> mechanism option \<Rightarrow> session \<Rightarrow> mechanism option im_result" where
  "validate_loop x username password [] mech_ok s = Inr (Inr mech_ok, s)"
| "validate_loop x username password (m # ms) mech_ok s =
     (if mech_ok = None \<and> mech_exists x m username
      then bindE (authenticate x m username password s) (\<lambda>(r, s1). case r of
             Inl e \<Rightarrow> Inr (Inl e, s1)
           | Inr ok \<Rightarrow> validate_loop x username password ms (if ok then Some m else None) s1)
      else validate_loop x username password ms mech_ok s)"

definition validate :: "senv \<Rightarrow> string \<Rightarrow> string \<Rightarrow> session \<Rightarrow> mechanism option im_result" where
  "validate x username password s =
     (if getMechanisms x = [] then Inr (Inl ''Login disabled (please consult your administrator)'', s)
      else validate_loop x username password (getMechanisms x) None s)"

text \<open>\<open>setPassword\<close> and \<open>getPassword\<close> of the mechanisms.\<close>

definition setPassword :: "senv \<Rightarrow> mechanism \<Rightarrow> string \<Rightarrow> session \<Rightarrow> exn + bool \<times> session" where
  "setPassword x m password s =
     (case m of
        AuthConnection \<Rightarrow>
          bindE (b_log x W_ERR ''PAM: Password change failed: you are not authenticated using a password '' s) (\<lambda>s1. Inr (False, s1))
      | AuthLocal \<Rightarrow>
          if has_space password \<or> length password < 8
          then bindE (notice_user x ''Password must be at least 8 characters, and cannot contain whitespaces.'' s) (\<lambda>s1. Inr (False, s1))
          else Inr (True, s\<lparr>se_prefs := (se_prefs s)\<lparr>pf_password := password\<rparr>\<rparr>))"

definition getPassword :: "senv \<Rightarrow> mechanism \<Rightarrow> session \<Rightarrow> exn + string \<times> session" where
  "getPassword x m s =
     (case m of
        AuthConnection \<Rightarrow>
          bindE (b_log x W_WARNING ''Cannot fetch current password, you are not authenticated using a password'' s) (\<lambda>s1. Inr ([], s1))
      | AuthLocal \<Rightarrow> Inr (pf_password (se_prefs s), s))"

definition Auth_create :: "senv \<Rightarrow> mechanism \<Rightarrow> string \<Rightarrow> string \<Rightarrow> session \<Rightarrow> exn + (create_error + unit) \<times> session" where
  "Auth_create x m username password s =
     (if mech_exists x m username then Inr (Inl (UnableToCreate ''Already exists.''), s)
      else bindE (b_log x W_DEBUG (''Creating user '' @ username) s) (\<lambda>s1.
        case new_im x username s1 of
          (Inl reason, s2) \<Rightarrow> Inr (Inl (IMError reason), s2)
        | (Inr _, s2) \<Rightarrow> bindE (setPassword x m password s2) (\<lambda>(_, s3). Inr (Inr (), s3))))"

definition create :: "senv \<Rightarrow> mechanism \<Rightarrow> string \<Rightarrow> string \<Rightarrow> session \<Rightarrow> exn + (create_error + unit) \<times> session" where
  "create x m username password s =
     (case m of
        AuthConnection \<Rightarrow>
          if x_client_username x \<noteq> username then Inr (Inl (IMError ''No connection authentication''), s)
          else Auth_create x m username password s
      | AuthLocal \<Rightarrow>
          if password = [] then Inr (Inl (UnableToCreate ''Please set a password for this new account''), s)
          else Auth_create x m username password s)"

fun generate_loop :: "senv \<Rightarrow> string \<Rightarrow> string \<Rightarrow> mechanism list \<Rightarrow> mechanism option \<Rightarrow> string \<Rightarrow> session
    \<Rightarrow> (mechanism option \<times> string) im_result" where
  "generate_loop x username password [] mech_ok err s = Inr (Inr (mech_ok, err), s)"
| "generate_loop x username password (m # ms) mech_ok err s =
     (if mech_ok = None
      then bindE (create x m username password s) (\<lambda>(r, s1). case r of
             Inl (UnableToCreate reason) \<Rightarrow> generate_loop x username password ms None reason s1
           | Inl (IMError reason) \<Rightarrow> Inr (Inl reason, s1)
           | Inr _ \<Rightarrow> generate_loop x username password ms (Some m) err s1)
      else generate_loop x username password ms mech_ok err s)"

definition generate :: "senv \<Rightarrow> string \<Rightarrow> string \<Rightarrow> session \<Rightarrow> mechanism option im_result" where
  "generate x username password s =
     (if getMechanisms x = [] then Inr (Inl ''Private server: account creation disabled'', s)
      else bindE (generate_loop x username password (getMechanisms x) None [] s) (\<lambda>(r, s1). case r of
             Inl e \<Rightarrow> Inr (Inl e, s1)
           | Inr (mech_ok, err) \<Rightarrow>
               if mech_ok = None \<and> err \<noteq> [] then Inr (Inl (''Unable to create account: '' @ err), s1)
               else Inr (Inr mech_ok, s1)))"

section \<open>The instant-messaging side\<close>

text \<open>
  \<open>IM::isAway\<close> and \<open>IM::setStatus\<close>; the calls of \<open>Account::setStatus\<close> are recorded. The accounts
  come in the order of their identifiers.
\<close>

definition im_do_s :: "im_call \<Rightarrow> session \<Rightarrow> session" where
  "im_do_s a s = s\<lparr>se_net := im_do a (se_net s)\<rparr>"

definition IM_isAway :: "senv \<Rightarrow> session \<Rightarrow> bool \<times> session" where
  "IM_isAway x s =
     (let accs = map snd (getAccountsList s);
          prim = foldl (\<lambda>p a. if x_status x a > x_AVAILABLE x then x_status x a else p) (x_AVAILABLE x) accs
      in (prim \<noteq> x_AVAILABLE x,
          foldl (\<lambda>s a. if x_status x a \<noteq> x_OFFLINE x \<and> x_status x a \<le> x_AVAILABLE x
                       then im_do_s (SetStatusPrim a prim []) s else s) s accs))"

text \<open>An away message that names a status, by its name or its identifier, selects that status.\<close>

fun find_primitive :: "string \<Rightarrow> (string \<times> string) list \<Rightarrow> nat \<Rightarrow> nat option" where
  "find_primitive l [] i = None"
| "find_primitive l ((ident, nm) # ps) i = (if strlower nm = l \<or> ident = l then Some i else find_primitive l ps (i + 1))"

definition IM_setStatus :: "senv \<Rightarrow> string \<Rightarrow> session \<Rightarrow> bool \<times> session" where
  "IM_setStatus x away s =
     (let (prim, message) =
        (if away = [] then (x_AVAILABLE x, away)
         else case find_primitive (strlower away) (x_primitives x) 0 of
                None \<Rightarrow> (x_AWAY x, away)
              | Some i \<Rightarrow> (i, []))
      in (True, foldl (\<lambda>s a. im_do_s (SetStatusPrim a prim message) s) s (map snd (getAccountsList s))))"

definition IM_getAccount :: "senv \<Rightarrow> session \<Rightarrow> string \<Rightarrow> im_account option" where
  "IM_getAccount x s name =
     find (\<lambda>a. w_acc_servername (sworld x s) a = name \<or> w_acc_id (sworld x s) a = name) (map snd (getAccountsList s))"

definition IM_getAccountFromChannel :: "senv \<Rightarrow> session \<Rightarrow> string \<Rightarrow> im_account option" where
  "IM_getAccountFromChannel x s name = find (\<lambda>a. w_acc_status_channel (sworld x s) a = name) (map snd (getAccountsList s))"

section \<open>Registration\<close>

text \<open>
  \<open>Account::joinChat\<close>: an account whose protocol has no chats looks for the entry of the menu of the
  buddy that opens one, \<open>x_buddy_menu\<close>; otherwise the parameters \<open>key=value\<close> go to the new chat.
\<close>

definition chat_parameters :: "string \<Rightarrow> (string \<times> string) list" where
  "chat_parameters params = filter (\<lambda>(k, v). k \<noteq> []) (map (\<lambda>p. stringtok p ''='') (tokens params '';''))"

definition joinChat :: "senv \<Rightarrow> im_account \<Rightarrow> string \<Rightarrow> string \<Rightarrow> session \<Rightarrow> exn + bool \<times> session" where
  "joinChat x a nm parameters s =
     (if \<not> x_connected x a then bindE (b_log x (W_SNO OR W_INFO) ''Not connected'' s) (\<lambda>s1. Inr (False, s1))
      else if \<not> x_supports_chats x a
      then case x_buddy_menu x a of
             None \<Rightarrow> Inr (False, s)
           | Some initiate \<Rightarrow> (case getNick (se_net s) nm False of
                 None \<Rightarrow> Inr (False, s)
               | Some n \<Rightarrow> bindE (nick_of (se_net s) n) (\<lambda>nk. case nk_class nk of
                     CBuddy b \<Rightarrow> if initiate b then Inr (True, im_do_s (InitiateChat b) s) else Inr (False, s)
                   | _ \<Rightarrow> Inr (False, s)))
      else let comps = chat_parameters parameters in
           case x_new_chat x a nm comps of
             NoChat \<Rightarrow> Inr (False, s)
           | ChatToJoin \<Rightarrow> Inr (True, im_do_s (JoinChat a nm comps) s)
           | ChatPresent v \<Rightarrow> Inr (True, im_do_s (Present v) s))"

definition UMODES :: string where "UMODES = ''o''"
definition CHMODES :: string where "CHMODES = ''qohvb''"

text \<open>The part of \<open>sendWelcome\<close> after an \<open>Auth\<close> object is there.\<close>

definition greet :: "senv \<Rightarrow> mechanism \<Rightarrow> session \<Rightarrow> exn + session" where
  "greet x mech s =
     (let s1 = upd_user (setFlag REGISTERED) (s\<lparr>se_auth := Some mech, se_im := True\<rparr>)
      in bindE (the_user s1) (\<lambda>u.
         bindE (mk_msg ''USER'' None None [nk_name u]) (\<lambda>m.
         bindE (seqE
           [answer ''001'' [''Welcome to the Minbif IRC gateway, '' @ nk_name u @ ''!''],
            answer ''002'' [''Your host is '' @ my_name s1 @ '', running '' @ x_version x],
            answer ''003'' [''This server was created '' @ x_created x],
            answer ''004'' [my_name s1, x_version x, UMODES, CHMODES],
            answer ''005'' [''CMDS=MAP'', ''CHANTYPES=#&'', ''PREFIX=(qohv)~@%+'', ''STATUSMSG=~@%+'', ''are supported by this server''],
            m_motd (Message [])]
           (snd (ipc_send x m s1))) (\<lambda>s2.
         let (away, s3) = IM_isAway x (im_do_s RestoreStatuses s2)
         in if away then answer ''306'' [''You have been marked as being away''] (upd_user (\<lambda>u. u\<lparr>nk_away := ''Away''\<rparr>) s3)
            else Inr s3))))"

definition sendWelcome :: "senv \<Rightarrow> session \<Rightarrow> exn + session" where
  "sendWelcome x s =
     bindE (the_user s) (\<lambda>u.
       if hasFlag REGISTERED u \<or> nk_name u = ''*'' \<or> nk_ident u = [] then Inr s
       else bindE (validate x (nk_name u) (se_password s) s) (\<lambda>(r, s1). case r of
           Inl reason \<Rightarrow> quit (''Unable to initialize IM: '' @ reason) s1
         | Inr (Some mech) \<Rightarrow> greet x mech s1
         | Inr None \<Rightarrow>
             let s2 = s1\<lparr>se_auth := None\<rparr>
             in if x_exists x (nk_name u) then quit ''Incorrect credentials'' s2
                else if x_password x \<noteq> '' '' \<and> se_password s2 \<noteq> x_password x
                then quit ''This server is protected by a global private password.  Ask administrator.'' s2
                else bindE (generate x (nk_name u) (se_password s2) s2) (\<lambda>(r, s3). case r of
                    Inl reason \<Rightarrow> quit (''Unable to initialize IM: '' @ reason) s3
                  | Inr (Some mech) \<Rightarrow> greet x mech s3
                  | Inr None \<Rightarrow> bindE (quit ''Creation of new account failed'' s3) (\<lambda>_. Inl NullPointer))))"

section \<open>Keeping the connection alive\<close>

text \<open>
  The timer callback \<open>IRC::ping\<close>: the result is whether the timer goes on. \<open>now\<close> is the clock.
\<close>

definition ping :: "senv \<Rightarrow> int \<Rightarrow> session \<Rightarrow> exn + bool \<times> session" where
  "ping x now s =
     (case se_last_read s of
        None \<Rightarrow> Inl Indeterminate
      | Some t \<Rightarrow>
          if t + x_ping_freq x > now then Inr (True, s)
          else bindE (the_user s) (\<lambda>u.
            if \<not> hasFlag REGISTERED u \<or> hasFlag PING u
            then bindE (quit ''Ping timeout'' s) (\<lambda>s1. Inr (False, s1))
            else let s1 = upd_user (setFlag PING) s
                 in bindE (mk_msg ''PING'' None None [my_name s1]) (\<lambda>m.
                    bindE (on_net (deliver (user_id (se_net s1)) m) s1) (\<lambda>s2. Inr (True, s2)))))"

definition setLastReadNow :: "int \<Rightarrow> session \<Rightarrow> session" where
  "setLastReadNow now s = s\<lparr>se_last_read := Some now\<rparr>"

section \<open>File transfers\<close>

text \<open>\<open>IRC::updateDCC\<close> drops the finished transfers and updates the ones of the file transfer \<open>ft\<close>.\<close>

definition updateDCC :: "nat \<Rightarrow> bool \<Rightarrow> int \<Rightarrow> string option \<Rightarrow> net \<Rightarrow> net" where
  "updateDCC ft destroy now content s =
     s\<lparr>dccs := map (\<lambda>d. case d of
                  Server sv \<Rightarrow> if getFileTransfert d = Some ft then Server (Dcc.updated destroy now content sv) else d
                | Get g \<Rightarrow> d)
              (filter (\<lambda>d. \<not> isFinished d) (dccs s))\<rparr>"

section \<open>Frames of the session operations\<close>

text \<open>
  The user object and the \<open>IRC\<close> object exist: all that the replies need. Replies, notices and log
  lines then change nothing but what was written to the client and to the system log.
\<close>

definition host_ok :: "net \<Rightarrow> bool" where
  "host_ok n \<longleftrightarrow> (\<exists>u. nicks n (user_id n) = Some u \<and> nk_class u = CUser) \<and> servs n (irc_id n) \<noteq> None"

lemma host_ok_out [simp]: "host_ok (n\<lparr>out := y\<rparr>) = host_ok n"
  by (simp add: host_ok_def)

lemma session_host: "session_ok n \<Longrightarrow> host_ok n"
  using invD(4) [of n] by (auto simp: env_ok_def host_ok_def)

definition only_out :: "session \<Rightarrow> session \<Rightarrow> bool" where
  "only_out s s' \<longleftrightarrow> (\<exists>y z. s' = s\<lparr>se_net := (se_net s)\<lparr>out := y\<rparr>, se_syslog := z\<rparr>)"

lemma only_outI: "only_out s (s\<lparr>se_net := (se_net s)\<lparr>out := y\<rparr>\<rparr>)"
  unfolding only_out_def by (rule exI [of _ y], rule exI [of _ "se_syslog s"]) simp

lemma only_out_refl [simp]: "only_out s s"
  using only_outI [of s "out (se_net s)"] by simp

lemma only_out_trans: "only_out s s1 \<Longrightarrow> only_out s1 s2 \<Longrightarrow> only_out s s2"
  unfolding only_out_def by force

lemma only_outD:
  assumes "only_out s s'"
  shows "nicks (se_net s') = nicks (se_net s)" "user_id (se_net s') = user_id (se_net s)" "host_ok (se_net s') = host_ok (se_net s)"
    "sock_open (se_net s') = sock_open (se_net s)" "se_prefs s' = se_prefs s" "se_password s' = se_password s" "se_auth s' = se_auth s"
    "se_im s' = se_im s" "se_ims s' = se_ims s" "se_kills s' = se_kills s" "se_last_read s' = se_last_read s" "se_logged s' = se_logged s"
    "the_user s' = the_user s" "session_ok (se_net s') = session_ok (se_net s)" "se_accts s' = se_accts s"
  using assms by (auto simp: only_out_def the_user_def)

lemma tell_user:
  assumes "host_ok (se_net s)" and "msg_live (se_net s) m"
  shows "on_net (deliver (user_id (se_net s)) m) s =
    Inr (s\<lparr>se_net := (se_net s)\<lparr>out := out (se_net s) @ (if sock_open (se_net s) then [line_of (se_net s) m] else [])\<rparr>\<rparr>)"
  using assms by (auto simp: on_net_def host_ok_def deliver_def User_send_def line_of_def)

lemma live_none: "msg_live n \<lparr>msg_cmd = c, msg_sender = setEntity None, msg_receiver = setEntity None, msg_args = xs\<rparr>"
  by (simp add: msg_live_setEntity)

lemma live_reply:
  assumes "host_ok n"
  shows "msg_live n \<lparr>msg_cmd = c, msg_sender = setEntity (Some (EServer (irc_id n))), msg_receiver = setEntity (Some (ENick (user_id n))), msg_args = xs\<rparr>"
  using assms by (auto simp: msg_live_setEntity host_ok_def ent_live_def)

lemma answer_eq:
  assumes "host_ok (se_net s)"
  shows "answer code xs s =
    (if \<exists>x\<in>set (butlast xs). has_space x then Inl MalformedMessage
     else Inr (s\<lparr>se_net := (se_net s)\<lparr>out := out (se_net s) @ (if sock_open (se_net s) then
       [line_of (se_net s) \<lparr>msg_cmd = code, msg_sender = setEntity (Some (EServer (irc_id (se_net s)))),
         msg_receiver = setEntity (Some (ENick (user_id (se_net s)))), msg_args = xs\<rparr>] else [])\<rparr>\<rparr>))"
  using tell_user [OF assms live_reply [OF assms, of code xs]]
  by (auto simp: answer_def reply_def on_net_def mk_msg_eq)

lemma answer_only_out: "host_ok (se_net s) \<Longrightarrow> answer code xs s = Inr s' \<Longrightarrow> only_out s s'"
  by (auto simp: answer_eq intro: only_outI split: if_splits)

lemma answer_1 [simp]: "host_ok (se_net s) \<Longrightarrow> \<exists>s'. answer code [a] s = Inr s' \<and> only_out s s'"
  by (auto simp: answer_eq intro: only_outI)

text \<open>A talk to the user has one argument per message and always succeeds.\<close>

lemma talk_user:
  assumes "host_ok (se_net s)"
  shows "\<exists>s'. talk cmd x (user_id (se_net s)) msg s = Inr s' \<and> only_out s s'"
proof -
  let ?n = "user_id (se_net s)"
  have "\<exists>s'. foldE (\<lambda>tmp s. bindE (mk_msg cmd (Some (EServer (irc_id (se_net s)))) (Some (ENick (user_id (se_net s)))) [tmp])
      (\<lambda>m. on_net (send (sworld x s) ?n m) s)) ts s1 = Inr s' \<and> only_out s s'" if "only_out s s1" for ts s1
    using that
  proof (induction ts arbitrary: s1)
    case (Cons t ts)
    note o = only_outD [OF Cons.prems]
    let ?m = "\<lparr>msg_cmd = cmd, msg_sender = setEntity (Some (EServer (irc_id (se_net s1)))),
      msg_receiver = setEntity (Some (ENick (user_id (se_net s1)))), msg_args = [t]\<rparr>"
    have h: "host_ok (se_net s1)" using o(3) assms by simp
    have eq: "send w ?n ?m n = deliver ?n ?m n" if "n = se_net s1" for w n
      using h o(2) that by (auto simp: send_def deliver_def host_ok_def nick_of_def)
    obtain y where "on_net (send (sworld x s1) ?n ?m) s1 = Inr (s1\<lparr>se_net := (se_net s1)\<lparr>out := y\<rparr>\<rparr>)"
      using tell_user [OF h live_reply [OF h, of cmd "[t]"]] eq o(2) by (auto simp: on_net_def)
    moreover have "only_out s (s1\<lparr>se_net := (se_net s1)\<lparr>out := y\<rparr>\<rparr>)" using only_out_trans [OF Cons.prems only_outI] .
    ultimately show ?case using Cons.IH by (auto simp: mk_msg_eq)
  qed simp
  from this [OF only_out_refl] show ?thesis by (simp add: talk_def)
qed

lemma notice_user_ok: "host_ok (se_net s) \<Longrightarrow> \<exists>s'. notice_user x msg s = Inr s' \<and> only_out s s'"
  using talk_user by (simp add: notice_user_def notice_def)

lemma b_log_ok:
  assumes "host_ok (se_net s)"
  shows "\<exists>s'. b_log x flag str s = Inr s' \<and> only_out s s'"
proof -
  obtain sys line where f: "flux (se_logged s) (se_to_syslog s) flag str = (sys, line)" by force
  define s1 where "s1 = s\<lparr>se_syslog := se_syslog s @ (case sys of None \<Rightarrow> [] | Some l \<Rightarrow> [l])\<rparr>"
  have "only_out s s1" unfolding only_out_def s1_def
    by (rule exI [of _ "out (se_net s)"], rule exI [of _ "se_syslog s @ (case sys of None \<Rightarrow> [] | Some l \<Rightarrow> [l])"]) simp
  moreover have "host_ok (se_net s1)" using assms by (simp add: s1_def)
  then obtain s2 where "poll_log x flag (the line) s1 = Inr s2" "only_out s1 s2" using talk_user unfolding poll_log_def by blast
  ultimately show ?thesis using only_out_trans f by (cases line) (auto simp: b_log_def Let_def s1_def)
qed

lemma quit_eq:
  assumes "host_ok (se_net s)"
  shows "\<exists>y. quit reason s = Inr (s\<lparr>se_net := (se_net s)\<lparr>out := y, sock_open := False\<rparr>, se_kills := se_kills s + 1\<rparr>)"
proof -
  obtain y where "on_net (deliver (user_id (se_net s)) \<lparr>msg_cmd = ''ERROR'', msg_sender = setEntity None, msg_receiver = setEntity None,
      msg_args = [''Closing Link: '' @ reason]\<rparr>) s = Inr (s\<lparr>se_net := (se_net s)\<lparr>out := y\<rparr>\<rparr>)"
    using tell_user [OF assms live_none] by blast
  then show ?thesis by (intro exI [of _ y]) (simp add: quit_def mk_msg_eq)
qed

end
