(* ===== verification/Settings.thy ===== *)
theory Settings
  imports Session
begin

text \<open>
  The settings of the command \<open>ADMIN\<close>, \<open>src/src/irc/settings.cpp\<close>: one constructor per class
  derived from \<open>SettingBase\<close>, with \<open>getValue\<close> and \<open>setValue\<close> by case distinction, and the setters
  of \<open>im::IM\<close> they call.
\<close>

section \<open>Settings\<close>

datatype setting = SettingPassword | SettingTypingNotice | SettingAcceptNoBuddiesMessages | SettingSendDelay
  | SettingVoicedBuddies | SettingServerAliases | SettingAwayIdle | SettingLogLevel | SettingProxy | SettingProxyHost
  | SettingProxyPort | SettingProxyUsername | SettingProxyPassword | SettingMinbif

definition bool_text :: "bool \<Rightarrow> string" where
  "bool_text b = (if b then ''true'' else ''false'')"

definition bool_value :: "string \<Rightarrow> bool option" where
  "bool_value v = (if v = ''1'' \<or> v = ''true'' then Some True else if v = ''0'' \<or> v = ''false'' then Some False else None)"

definition getValue :: "senv \<Rightarrow> setting \<Rightarrow> session \<Rightarrow> exn + string \<times> session" where
  "getValue x st s =
     (let pf = se_prefs s in case st of
        SettingPassword \<Rightarrow> (case se_auth s of None \<Rightarrow> Inl NullPointer | Some m \<Rightarrow> getPassword x m s)
      | SettingTypingNotice \<Rightarrow> Inr (bool_text (pf_typing_notice pf \<noteq> 0), s)
      | SettingAcceptNoBuddiesMessages \<Rightarrow> Inr (bool_text (pf_accept_nobuddies pf), s)
      | SettingSendDelay \<Rightarrow> Inr (t2s_int (pf_send_delay pf), s)
      | SettingVoicedBuddies \<Rightarrow> Inr (bool_text (pf_voiced_buddies pf), s)
      | SettingServerAliases \<Rightarrow> Inr (bool_text (pf_server_aliases pf), s)
      | SettingAwayIdle \<Rightarrow> Inr (bool_text (pf_away_idle pf), s)
      | SettingLogLevel \<Rightarrow> Inr (formatLoggedFlags (se_logged s), s)
      | SettingProxy \<Rightarrow> Inr (pf_proxy_type pf, s)
      | SettingProxyHost \<Rightarrow> Inr (case pf_proxy pf of Some (Some h, _) \<Rightarrow> h | _ \<Rightarrow> [], s)
      | SettingProxyPort \<Rightarrow> Inr (case pf_proxy pf of Some (_, port, _) \<Rightarrow> t2s_int port | None \<Rightarrow> [], s)
      | SettingProxyUsername \<Rightarrow> Inr (case pf_proxy pf of Some (_, _, Some u, _) \<Rightarrow> u | _ \<Rightarrow> [], s)
      | SettingProxyPassword \<Rightarrow> Inr (case pf_proxy pf of Some (_, _, _, Some p) \<Rightarrow> p | _ \<Rightarrow> [], s)
      | SettingMinbif \<Rightarrow> Inr (''Minbif Is Not Bitlbee Fool'', s))"

definition upd_prefs :: "(prefs \<Rightarrow> prefs) \<Rightarrow> session \<Rightarrow> session" where
  "upd_prefs f s = s\<lparr>se_prefs := f (se_prefs s)\<rparr>"

text \<open>
  The four settings that take a boolean and only store it, and \<open>IM::setVoicedBuddies\<close>, which
  updates every buddy of every account when the value changes.
\<close>

definition set_bool :: "senv \<Rightarrow> (bool \<Rightarrow> session \<Rightarrow> exn + session) \<Rightarrow> string \<Rightarrow> session \<Rightarrow> exn + bool \<times> session" where
  "set_bool x f v s =
     (case bool_value v of
        Some b \<Rightarrow> bindE (f b s) (\<lambda>s1. Inr (True, s1))
      | None \<Rightarrow> bindE (notice_user x (''Value must be 'true' or 'false'' @ [CHR 0x27]) s) (\<lambda>s1. Inr (False, s1)))"

definition updatedAllBuddies :: "senv \<Rightarrow> im_account \<Rightarrow> session \<Rightarrow> exn + session" where
  "updatedAllBuddies x a s = foldE (\<lambda>b s. on_net (Channels.updated (sworld x s) b) s) (x_buddies x a) s"

definition setVoicedBuddies :: "senv \<Rightarrow> bool \<Rightarrow> session \<Rightarrow> exn + session" where
  "setVoicedBuddies x enabled s =
     (if pf_voiced_buddies (se_prefs s) = enabled then Inr s
      else foldE (updatedAllBuddies x) (map snd (getAccountsList s)) (upd_prefs (\<lambda>p. p\<lparr>pf_voiced_buddies := enabled\<rparr>) s))"

text \<open>The four proxy settings write into the global proxy information, when there is one.\<close>

definition set_proxy :: "(string option \<times> int \<times> string option \<times> string option
    \<Rightarrow> string option \<times> int \<times> string option \<times> string option) \<Rightarrow> session \<Rightarrow> bool \<times> session" where
  "set_proxy f s =
     (case pf_proxy (se_prefs s) of
        None \<Rightarrow> (False, s)
      | Some pi \<Rightarrow> (True, upd_prefs (\<lambda>p. p\<lparr>pf_proxy := Some (f pi)\<rparr>) s))"

definition setValue :: "senv \<Rightarrow> setting \<Rightarrow> string \<Rightarrow> session \<Rightarrow> exn + bool \<times> session" where
  "setValue x st v s =
     (case st of
        SettingPassword \<Rightarrow> (case se_auth s of None \<Rightarrow> Inl NullPointer | Some m \<Rightarrow> setPassword x m v s)
      | SettingTypingNotice \<Rightarrow> set_bool x (\<lambda>b s. Inr (upd_prefs (\<lambda>p. p\<lparr>pf_typing_notice := if b then 1 else 0\<rparr>) s)) v s
      | SettingAcceptNoBuddiesMessages \<Rightarrow> set_bool x (\<lambda>b s. Inr (upd_prefs (\<lambda>p. p\<lparr>pf_accept_nobuddies := b\<rparr>) s)) v s
      | SettingSendDelay \<Rightarrow> bindE (s2t_signed 32 v) (\<lambda>i. Inr (True, upd_prefs (\<lambda>p. p\<lparr>pf_send_delay := i\<rparr>) s))
      | SettingVoicedBuddies \<Rightarrow> set_bool x (setVoicedBuddies x) v s
      | SettingServerAliases \<Rightarrow> set_bool x (\<lambda>b s. Inr (upd_prefs (\<lambda>p. p\<lparr>pf_server_aliases := b\<rparr>) s)) v s
      | SettingAwayIdle \<Rightarrow> set_bool x (\<lambda>b s. Inr (upd_prefs (\<lambda>p. p\<lparr>pf_away_idle := b\<rparr>) s)) v s
      | SettingLogLevel \<Rightarrow> Inr (True, s\<lparr>se_logged := setLoggedFlags v\<rparr>)
      | SettingProxy \<Rightarrow>
          if v \<in> {''none'', ''sock4'', ''sock5'', ''http'', ''envvar''} then Inr (True, upd_prefs (\<lambda>p. p\<lparr>pf_proxy_type := v\<rparr>) s)
          else bindE (notice_user x ''Available values are: none, sock4, sock5, http, envvar'' s) (\<lambda>s1. Inr (False, s1))
      | SettingProxyHost \<Rightarrow> Inr (set_proxy (\<lambda>(h, port, u, pw). (Some v, port, u, pw)) s)
      | SettingProxyPort \<Rightarrow>
          (case pf_proxy (se_prefs s) of
             None \<Rightarrow> Inr (False, s)
           | Some _ \<Rightarrow> bindE (s2t_signed 32 v) (\<lambda>i. Inr (set_proxy (\<lambda>(h, port, u, pw). (h, i, u, pw)) s)))
      | SettingProxyUsername \<Rightarrow> Inr (set_proxy (\<lambda>(h, port, u, pw). (h, port, Some v, pw)) s)
      | SettingProxyPassword \<Rightarrow> Inr (set_proxy (\<lambda>(h, port, u, pw). (h, port, u, Some v)) s)
      | SettingMinbif \<Rightarrow> bindE (notice_user x ''Wilmer, I see you!'' s) (\<lambda>s1. Inr (False, s1)))"

end
