(* ===== verification/Commands_User.thy ===== *)
theory Commands_User
  imports Settings
begin

text \<open>
  The handlers of \<open>src/src/irc/cmds.cpp\<close>: registration, the operator commands, settings, modes,
  away and statistics, with \<open>Channel::m_mode\<close>, \<open>Nick::m_mode\<close> and \<open>User::m_mode\<close>. A handler takes the
  parsed message; the arguments the command table guarantees are read with \<open>getArg\<close>.
\<close>

section \<open>Ping and registration\<close>

definition m_ping :: "irc_msg \<Rightarrow> session \<Rightarrow> exn + session" where
  "m_ping message s =
     bindE (setCommand ''PONG'' message) (\<lambda>m.
       let me = EServer (irc_id (se_net s))
       in on_net (deliver (user_id (se_net s)) (setReceiver me (setSender me m))) s)"

definition m_pong :: "irc_msg \<Rightarrow> session \<Rightarrow> exn + session" where
  "m_pong message s = Inr (upd_user (delFlag PING) s)"

definition m_nick :: "senv \<Rightarrow> irc_msg \<Rightarrow> session \<Rightarrow> exn + session" where
  "m_nick x message s =
     (if countArgs message < 1 then answer ''431'' [''No nickname given''] s
      else bindE (the_user s) (\<lambda>u.
        if hasFlag REGISTERED u then answer ''438'' [''The hand of the deity is upon thee, thy nick may not change''] s
        else bindE (getArg message 0) (\<lambda>nickname.
          if \<not> isValidNickname nickname then answer ''432'' [''This nick contains invalid characters''] s
          else bindE (on_net (renameNick (user_id (se_net s)) nickname) s) (sendWelcome x))))"

definition m_user :: "senv \<Rightarrow> irc_msg \<Rightarrow> session \<Rightarrow> exn + session" where
  "m_user x message s =
     bindE (the_user s) (\<lambda>u.
       if hasFlag REGISTERED u then answer ''462'' [''Please register only once per session''] s
       else bindE (getArg message 0) (\<lambda>ident.
            bindE (getArg message 3) (\<lambda>real.
              sendWelcome x (upd_user (\<lambda>u. u\<lparr>nk_ident := ident_chars ident, nk_real := real\<rparr>) s))))"

definition m_pass :: "irc_msg \<Rightarrow> session \<Rightarrow> exn + session" where
  "m_pass message s =
     bindE (getArg message 0) (\<lambda>password.
     bindE (the_user s) (\<lambda>u.
       if hasFlag REGISTERED u then answer ''462'' [''Please register only once per session''] s
       else if length password < 8 then quit ''Password is too short (at least 8 characters)'' s
       else if has_space password then quit ''Password may not contain spaces'' s
       else Inr (s\<lparr>se_password := password\<rparr>)))"

definition m_quit :: "irc_msg \<Rightarrow> session \<Rightarrow> exn + session" where
  "m_quit message s =
     bindE (if countArgs message \<ge> 1 then getArg message 0 else Inr ''Leaving...'') (\<lambda>reason. quit (''Quit: '' @ reason) s)"

section \<open>Information\<close>

definition m_version :: "senv \<Rightarrow> irc_msg \<Rightarrow> session \<Rightarrow> exn + session" where
  "m_version x message s = answer ''351'' [x_version x, my_name s, x_build x] s"

definition m_info :: "senv \<Rightarrow> irc_msg \<Rightarrow> session \<Rightarrow> exn + session" where
  "m_info x message s =
     bindE (foldE (\<lambda>l. answer ''371'' [l]) (x_infotxt x) s) (answer ''374'' [''End of /INFO list.''])"

definition admin_settings :: "(string \<times> bool \<times> setting) list" where
  "admin_settings =
     [(''password'', True, SettingPassword), (''typing_notice'', True, SettingTypingNotice),
      (''accept_nobuddies_messages'', True, SettingAcceptNoBuddiesMessages), (''send_delay'', True, SettingSendDelay),
      (''voiced_buddies'', True, SettingVoicedBuddies), (''server_aliases'', True, SettingServerAliases),
      (''away_idle'', True, SettingAwayIdle), (''log_level'', True, SettingLogLevel), (''proxy'', True, SettingProxy),
      (''proxy_host'', True, SettingProxyHost), (''proxy_port'', True, SettingProxyPort), (''proxy_user'', True, SettingProxyUsername),
      (''proxy_pass'', True, SettingProxyPassword), (''minbif'', False, SettingMinbif)]"

definition show_setting :: "senv \<Rightarrow> string \<Rightarrow> setting \<Rightarrow> session \<Rightarrow> exn + session" where
  "show_setting x key st s =
     bindE (getValue x st s) (\<lambda>(v, s1). answer ''256'' [''- '' @ key @ '' = '' @ v] s1)"

definition m_admin :: "senv \<Rightarrow> irc_msg \<Rightarrow> session \<Rightarrow> exn + session" where
  "m_admin x message s =
     (if \<not> se_im s then Inl AssertionFailed
      else case msg_args message of
        [] \<Rightarrow> foldE (\<lambda>(key, display, st) s. if display then show_setting x key st s else Inr s) admin_settings s
      | key # args \<Rightarrow>
          (case find (\<lambda>e. fst e = key) admin_settings of
             None \<Rightarrow> notice_user x (''Key '' @ key @ '' does not exist.'') s
           | Some (_, _, st) \<Rightarrow>
               if args = [] then show_setting x key st s
               else bindE (setValue x st (foldl (append_word '' '') [] args) s) (\<lambda>(_, s1). show_setting x key st s1)))"

section \<open>Modes\<close>

text \<open>
  \<open>Channel::m_mode\<close> walks over the mode letters with the remaining arguments; only \<open>b\<close> does
  something. \<open>User::m_mode\<close> shows the modes, every other nick refuses.
\<close>

fun mode_loop :: "world \<Rightarrow> cid \<Rightarrow> nid \<Rightarrow> string \<Rightarrow> string list \<Rightarrow> bool \<Rightarrow> net \<Rightarrow> exn + net" where
  "mode_loop w c n [] args add s = Inr s"
| "mode_loop w c n (ch # modes) args add s =
     (if ch = CHR ''+'' then mode_loop w c n modes args True s
      else if ch = CHR ''-'' then mode_loop w c n modes args False s
      else if ch = CHR ''b'' then
        (case args of
           [] \<Rightarrow> bindE (showBanList w c n s) (mode_loop w c n modes [] add)
         | arg # rest \<Rightarrow> bindE (processBan w c n arg add s) (mode_loop w c n modes rest add))
      else mode_loop w c n modes args add s)"

definition Channel_m_mode :: "world \<Rightarrow> cid \<Rightarrow> nid \<Rightarrow> string list \<Rightarrow> net \<Rightarrow> exn + net" where
  "Channel_m_mode w c n args s =
     bindE (chan_of s c) (\<lambda>ch. case args of
         [] \<Rightarrow>
           bindE (mk_msg ''324'' (Some (EServer (irc_id s))) (Some (ENick n)) [ch_name ch, ''+'']) (\<lambda>m1.
           bindE (deliver n m1 s) (\<lambda>s1.
           bindE (mk_msg ''329'' (Some (EServer (irc_id s))) (Some (ENick n)) [ch_name ch, ''1212313'']) (\<lambda>m2. deliver n m2 s1)))
       | modes # rest \<Rightarrow> mode_loop w c n modes rest True s)"

definition getModes :: "nick \<Rightarrow> string" where
  "getModes nk = ''+'' @ (if hasFlag OPER nk then ''o'' else [])"

definition Nick_m_mode :: "nid \<Rightarrow> nid \<Rightarrow> string list \<Rightarrow> net \<Rightarrow> exn + net" where
  "Nick_m_mode target n args s =
     bindE (nick_of s target) (\<lambda>nk.
       if nk_class nk = CUser
       then if args = []
            then bindE (mk_msg ''221'' (Some (EServer (nk_server nk))) (Some (ENick n)) [getModes nk]) (\<lambda>m. deliver n m s)
            else Inr s
       else bindE (mk_msg ''481'' (Some (EServer (nk_server nk))) (Some (ENick n))
                     [''Permission Denied: Insufficient privileges'']) (\<lambda>m. deliver n m s))"

definition m_mode :: "senv \<Rightarrow> irc_msg \<Rightarrow> session \<Rightarrow> exn + session" where
  "m_mode x message s =
     bindE (getArg message 0) (\<lambda>target.
     bindE (mk_msg (msg_cmd message) (Some (ENick (user_id (se_net s)))) None (tl (msg_args message))) (\<lambda>relayed.
       if isChanName target
       then case getChannel (se_net s) target of
              None \<Rightarrow> answer ''403'' [target, ''No suck channel''] s
            | Some c \<Rightarrow> on_net (Channel_m_mode (sworld x s) c (user_id (se_net s)) (msg_args relayed)) s
       else case getNick (se_net s) target False of
              None \<Rightarrow> answer ''401'' [target, ''No suck nick''] s
            | Some n \<Rightarrow> on_net (Nick_m_mode n (user_id (se_net s)) (msg_args relayed)) s))"

section \<open>Away and the operator commands\<close>

definition m_away :: "senv \<Rightarrow> irc_msg \<Rightarrow> session \<Rightarrow> exn + session" where
  "m_away x message s =
     bindE (if countArgs message \<noteq> 0 then getArg message 0 else Inr []) (\<lambda>away.
       if \<not> se_im s then Inl NullPointer
       else let (ok, s1) = IM_setStatus x away s
            in if ok then
                 let s2 = upd_user (\<lambda>u. u\<lparr>nk_away := away\<rparr>) s1
                 in if away = [] then answer ''305'' [''You are no longer marked as being away''] s2
                    else answer ''306'' [''You have been marked as being away''] s2
               else Inr s1)"

definition m_oper :: "senv \<Rightarrow> irc_msg \<Rightarrow> session \<Rightarrow> exn + session" where
  "m_oper x message s =
     bindE (the_user s) (\<lambda>u.
       if hasFlag OPER u then answer ''381'' [''You are already an IRC Operator''] s
       else bindE (getArg message 0) (\<lambda>login.
            bindE (getArg message 1) (\<lambda>password.
              if \<exists>(l, p, e)\<in>set (x_opers x). l = login \<and> p = password
              then let s1 = upd_user (setFlag OPER) s; me = ENick (user_id (se_net s))
                   in bindE (mk_msg ''MODE'' (Some me) (Some me) [''+o'']) (\<lambda>m.
                      bindE (on_net (deliver (user_id (se_net s)) m) s1) (\<lambda>s2.
                      bindE (answer ''381'' [''You are now an IRC Operator''] s2) (\<lambda>s3.
                      bindE (mk_msg ''OPER'' None None [nk_name u]) (\<lambda>m2. Inr (snd (ipc_send x m2 s3))))))
              else answer ''464'' [''Password incorrect''] s)))"

definition m_wallops :: "senv \<Rightarrow> irc_msg \<Rightarrow> session \<Rightarrow> exn + session" where
  "m_wallops x message s =
     bindE (the_user s) (\<lambda>u.
     bindE (getArg message 0) (\<lambda>txt.
     bindE (mk_msg ''WALLOPS'' None None [nk_name u, txt]) (\<lambda>m.
       let (ok, s1) = ipc_send x m s in if ok then Inr s1 else b_log x W_ERR (''You'' @ [CHR 0x27] @ ''re alone!'') s1)))"

definition m_rehash :: "senv \<Rightarrow> irc_msg \<Rightarrow> session \<Rightarrow> exn + session" where
  "m_rehash x message s = bindE (answer ''382'' [''Rehashing''] s) (rehash x True)"

definition m_die :: "senv \<Rightarrow> irc_msg \<Rightarrow> session \<Rightarrow> exn + session" where
  "m_die x message s =
     bindE (the_user s) (\<lambda>u.
     bindE (getArg message 0) (\<lambda>txt.
     bindE (mk_msg ''DIE'' None None [nk_name u, txt]) (\<lambda>m.
       let (ok, s1) = ipc_send x m s
       in if ok then Inr s1
          else bindE (b_log x (W_INFO OR W_SNO) (''This instance of MinBif is dying... Reason: '' @ txt) s1)
                 (quit (''Shutdown requested: '' @ txt)))))"

section \<open>Statistics\<close>

text \<open>
  The table of commands with the number of arguments each needs and the flag of the user it
  needs; the number of uses is \<open>se_count\<close>, in the same order. \<open>CONNECT\<close> has two names.
\<close>

definition command_table :: "(string \<times> nat \<times> 32 word) list" where
  "command_table =
     [(''NICK'', 0, 0), (''USER'', 4, 0), (''PASS'', 1, 0), (''QUIT'', 0, 0),
      (''CMD'', 2, REGISTERED), (''PRIVMSG'', 2, REGISTERED), (''PING'', 0, REGISTERED), (''PONG'', 1, REGISTERED),
      (''VERSION'', 0, REGISTERED), (''INFO'', 0, REGISTERED), (''WHO'', 0, REGISTERED), (''WHOIS'', 1, REGISTERED),
      (''WHOWAS'', 1, REGISTERED), (''STATS'', 0, REGISTERED), (''CONNECT'', 1, REGISTERED), (''SCONNECT'', 1, REGISTERED),
      (''SQUIT'', 1, REGISTERED), (''MAP'', 0, REGISTERED), (''ADMIN'', 0, REGISTERED), (''JOIN'', 1, REGISTERED),
      (''PART'', 1, REGISTERED), (''NAMES'', 1, REGISTERED), (''TOPIC'', 1, REGISTERED), (''LIST'', 0, REGISTERED),
      (''MODE'', 1, REGISTERED), (''ISON'', 1, REGISTERED), (''INVITE'', 2, REGISTERED), (''KICK'', 2, REGISTERED),
      (''KILL'', 1, REGISTERED), (''SVSNICK'', 2, REGISTERED), (''AWAY'', 0, REGISTERED), (''MOTD'', 0, REGISTERED),
      (''OPER'', 2, REGISTERED), (''WALLOPS'', 1, OPER), (''REHASH'', 0, OPER), (''DIE'', 1, OPER)]"

text \<open>\<open>%02d\<close>, and the uptime line of \<open>STATS u\<close>; \<open>now\<close> is an \<open>unsigned\<close>.\<close>

definition pad2 :: "nat \<Rightarrow> string" where
  "pad2 n = (if n < 10 then ''0'' @ t2s n else t2s n)"

definition uptime_line :: "nat \<Rightarrow> string" where
  "uptime_line now = ''Server Up '' @ t2s (now div 86400) @ '' days, '' @ t2s ((now div 3600) mod 24) @ '':'' @
     pad2 ((now div 60) mod 60) @ '':'' @ pad2 (now mod 60)"

definition stats_plugin :: "senv \<Rightarrow> string list \<Rightarrow> session \<Rightarrow> exn + session" where
  "stats_plugin x args s =
     (case args of
        _ # ident # rest \<Rightarrow>
          (case map_find (x_plugins x) ident of
             None \<Rightarrow> notice_user x (ident @ '': No such plugin'') s
           | Some pl \<Rightarrow>
               (case rest of
                  [] \<Rightarrow> seqE [notice_user x (''-- Information about '' @ ident), notice_user x ''Description: '',
                              notice_user x (pl_description pl),
                              notice_user x (''Loaded: '' @ (if pl_loaded pl then ''true'' else ''false''))] s
                | cmd # _ \<Rightarrow>
                    let q = [CHR 0x27] in
                    (case cmd of
                       CHR ''l'' # _ \<Rightarrow>
                         let s1 = im_do_s (LoadPlugin ident) s
                         in notice_user x (case pl_load pl of None \<Rightarrow> ''Plugin '' @ q @ ident @ q @ '' loaded.'' | Some e \<Rightarrow> e) s1
                     | CHR ''u'' # _ \<Rightarrow>
                         let s1 = im_do_s (UnloadPlugin ident) s
                         in notice_user x (case pl_unload pl of None \<Rightarrow> ''Plugin '' @ q @ ident @ q @ '' unloaded.'' | Some e \<Rightarrow> e) s1
                     | _ \<Rightarrow> notice_user x (''No suck command: '' @ cmd) s)))
      | _ \<Rightarrow>
          foldE (\<lambda>(ident, pl). notice_user x (''['' @ (if pl_loaded pl then ''+'' else '' '') @ ''] '' @ ident @ '' ('' @
                    pl_name pl @ '': '' @ pl_summary pl @ '')'')) (x_plugins x) s)"

definition stats_help :: "string list" where
  "stats_help =
     [''a (aways) - List all away messages availables'', ''c (chat params) - List all chat parameters for a specific account'',
      ''m (commands) - List all IRC commands'', ''o (opers) - List all opers accounts'', ''p (protocols) - List all protocols'',
      ''P (plugins) - List, load and configure plugins'', ''u (uptime) - Display the server uptime'']"

definition m_stats :: "senv \<Rightarrow> irc_msg \<Rightarrow> session \<Rightarrow> exn + session" where
  "m_stats x message s =
     (let args = msg_args message;
          arg = (case args of [] \<Rightarrow> ''*'' | a # _ \<Rightarrow> a);
          letter = (case arg of [] \<Rightarrow> CHR 0x00 | c # _ \<Rightarrow> c);
          fin = (\<lambda>a. answer ''219'' [a, ''End of /STATS report''])
      in if letter = CHR ''a''
         then bindE (foldE (\<lambda>(ident, nm). notice_user x (ident @ '': '' @ nm)) (x_primitives x) s) (fin arg)
         else if letter = CHR ''c''
         then let accid = (case args of _ # a # _ \<Rightarrow> a | _ \<Rightarrow> [])
              in if \<not> se_im s then Inl NullPointer
                 else bindE (case IM_getAccount x s accid of
                        Some a \<Rightarrow>
                          if x_connected x a
                          then foldE (\<lambda>(k, v). notice_user x (k @ '' = '' @ v)) (x_chat_params x a) s
                          else answer ''403'' [accid, ''No such account''] s
                      | None \<Rightarrow> answer ''403'' [accid, ''No such account''] s) (fin arg)
         else if letter = CHR ''m''
         then bindE (foldE (\<lambda>((cmd, _, _), n). answer ''212'' [cmd, t2s (unat n), ''0'']) (zip command_table (se_count s)) s) (fin arg)
         else if letter = CHR ''o''
         then bindE (foldE (\<lambda>(login, _, email). answer ''243'' [''O'', email, ''*'', login]) (x_opers x) s) (fin arg)
         else if letter = CHR ''p''
         then if \<not> se_im s then Inl NullPointer else bindE (foldE (\<lambda>(_, p). notice_user x (getID_proto p @ '': '' @ proto_name p)) (x_protocols x) s) (fin arg)
         else if letter = CHR ''P''
         then if \<not> se_im s then Inl NullPointer else bindE (stats_plugin x args s) (fin arg)
         else if letter = CHR ''u''
         then bindE (answer ''242'' [uptime_line (nat ((w_now (x_world x) - x_uptime x) mod 2 ^ 32))] s) (fin arg)
         else bindE (foldE (notice_user x) stats_help s) (fin ''*''))"

end
