(* ===== verification/Commands_Channels.thy ===== *)
theory Commands_Channels
  imports Commands_User
begin

text \<open>
  The handlers of \<open>src/src/irc/cmds_channels.cpp\<close>: queries about users and channels, messages,
  joining and leaving, and the commands on buddies, with the virtual methods of nicks and
  channels they call.
\<close>

section \<open>Virtual methods of nicks and channels\<close>

definition getRealName :: "world \<Rightarrow> nick \<Rightarrow> string" where
  "getRealName w nk = (case nk_class nk of
       CBuddy b \<Rightarrow> w_buddy_realname w b @ '' [Group: '' @ w_buddy_group w b @ '']''
     | CChatBuddy k \<Rightarrow> w_cb_name w k
     | CUnknownBuddy \<Rightarrow> (case nk_conv nk of Some v \<Rightarrow> w_conv_name w v | None \<Rightarrow> [])
     | _ \<Rightarrow> nk_real nk)"

definition getAwayMessage :: "world \<Rightarrow> nick \<Rightarrow> string" where
  "getAwayMessage w nk = (case nk_class nk of
       CBuddy b \<Rightarrow> if w_buddy_online w b then w_buddy_status w b else ''User is offline''
     | CChatBuddy k \<Rightarrow> []
     | CUnknownBuddy \<Rightarrow> []
     | _ \<Rightarrow> nk_away nk)"

definition getStatusMessage :: "world \<Rightarrow> bool \<Rightarrow> nick \<Rightarrow> string" where
  "getStatusMessage w away nk = (case nk_class nk of
       CBuddy b \<Rightarrow> if \<not> away \<and> isAway w nk then [] else w_buddy_status w b
     | _ \<Rightarrow> [])"

definition retrieveInfo :: "nick \<Rightarrow> net \<Rightarrow> bool \<times> net" where
  "retrieveInfo nk s = (case nk_class nk of CBuddy b \<Rightarrow> (True, im_do (RetrieveInfo b) s) | _ \<Rightarrow> (False, s))"

definition conv_sendCommand :: "world \<Rightarrow> im_conv \<Rightarrow> string \<Rightarrow> net \<Rightarrow> cmd_status \<times> net" where
  "conv_sendCommand w v cmd s = (w_command w v cmd, im_do (DoCommand v cmd) s)"

definition Nick_sendCommand :: "world \<Rightarrow> nid \<Rightarrow> string \<Rightarrow> net \<Rightarrow> exn + cmd_status \<times> net" where
  "Nick_sendCommand w n cmd s =
     bindE (nick_of s n) (\<lambda>nk. case nk_class nk of
         CBuddy b \<Rightarrow>
           bindE (check_conv w n b s) (\<lambda>s1.
           bindE (nick_of s1 n) (\<lambda>nk1. case nk_conv nk1 of
               Some v \<Rightarrow> Inr (conv_sendCommand w v cmd s1)
             | None \<Rightarrow> Inl NullPointer))
       | _ \<Rightarrow> Inr (CmdWrongType, s))"

definition Channel_sendCommand :: "world \<Rightarrow> cid \<Rightarrow> string \<Rightarrow> net \<Rightarrow> exn + cmd_status \<times> net" where
  "Channel_sendCommand w c cmd s =
     bindE (chan_of s c) (\<lambda>ch. Inr (case ch_class ch of
         ConvChan \<Rightarrow> conv_sendCommand w (ch_conv ch) cmd s
       | StatusChan \<Rightarrow> (CmdWrongType, s)))"

text \<open>
  \<open>StatusChannel::invite\<close> adds a buddy, to the account named after the colon or to the account of
  the channel; \<open>Account::addBuddy\<close> asserts that the name is not empty.
\<close>

definition invite :: "senv \<Rightarrow> cid \<Rightarrow> nid \<Rightarrow> string \<Rightarrow> string \<Rightarrow> session \<Rightarrow> exn + bool \<times> session" where
  "invite x c n nickname message s =
     bindE (chan_of (se_net s) c) (\<lambda>ch. case ch_class ch of
         ConvChan \<Rightarrow> Inr (True, im_do_s (Invite (ch_conv ch) nickname message) s)
       | StatusChan \<Rightarrow>
           let (username, acc) = stringtok nickname '':'';
               account = (if acc = [] then IM_getAccountFromChannel x s (ch_name ch) else IM_getAccount x s acc)
           in case account of
                None \<Rightarrow>
                  bindE (mk_msg ''403'' (Some (EServer (irc_id (se_net s)))) (Some (ENick n)) [nickname, ''No such channel'']) (\<lambda>m.
                  bindE (on_net (deliver n m) s) (\<lambda>s1. Inr (False, s1)))
              | Some a \<Rightarrow>
                  if username = [] then Inl AssertionFailed
                  else Inr (True, im_do_s (AddBuddy a username ''minbif'') s))"

section \<open>Queries\<close>

fun who_flags :: "string \<Rightarrow> bool \<Rightarrow> bool \<Rightarrow> bool" where
  "who_flags [] add status = status"
| "who_flags (c # cs) add status =
     (if c = CHR ''+'' then who_flags cs True status
      else if c = CHR ''-'' then who_flags cs False status
      else if c = CHR ''s'' then who_flags cs add add
      else who_flags cs add status)"

text \<open>The last argument that does not start with a sign; an empty argument counts as flags.\<close>

definition who_args :: "string list \<Rightarrow> string \<times> bool" where
  "who_args args =
     foldl (\<lambda>(arg, status) a. if a \<noteq> [] \<and> hd a \<notin> {CHR ''+'', CHR ''-''} then (a, status) else (arg, who_flags a True status))
       ([], False) args"

fun contains :: "string \<Rightarrow> string \<Rightarrow> bool" where
  "contains pat [] \<longleftrightarrow> pat = []"
| "contains pat (c # cs) \<longleftrightarrow> take (length pat) (c # cs) = pat \<or> contains pat cs"

definition first_channel :: "net \<Rightarrow> nick \<Rightarrow> exn + string" where
  "first_channel s nk = (case nk_channels nk of
       [] \<Rightarrow> Inr ''*''
     | u # _ \<Rightarrow> bindE (cuser_of s u) (\<lambda>cu. bindE (chan_of s (cu_chan cu)) (\<lambda>ch. Inr (ch_name ch))))"

text \<open>The channel to show for one user, or \<open>None\<close> when the user is left out.\<close>

definition who_channel :: "world \<Rightarrow> string \<Rightarrow> cid option \<Rightarrow> nid \<Rightarrow> nick \<Rightarrow> string \<Rightarrow> net \<Rightarrow> exn + string option" where
  "who_channel w arg chan n nk servername s =
     (if arg = [] \<or> arg = ''*'' \<or> arg = ''0'' \<or> contains arg servername \<or> w_fnmatch w arg (nk_name nk)
      then bindE (first_channel s nk) (\<lambda>nm. Inr (Some nm))
      else case chan of
        Some c \<Rightarrow> bindE (isOn s n c) (\<lambda>on. Inr (if on then Some arg else None))
      | None \<Rightarrow> Inr None)"

definition who_line :: "senv \<Rightarrow> string \<Rightarrow> bool \<Rightarrow> cid option \<Rightarrow> string \<times> nid \<Rightarrow> session \<Rightarrow> exn + session" where
  "who_line x arg status chan e s =
     (let w = sworld x s; n = snd e in
      bindE (nick_of (se_net s) n) (\<lambda>nk.
      bindE (serv_of (se_net s) (nk_server nk)) (\<lambda>sv.
      bindE (who_channel w arg chan n nk (sv_name sv) (se_net s)) (\<lambda>r. case r of
          None \<Rightarrow> Inr s
        | Some channame \<Rightarrow>
            answer ''352'' [channame, nk_ident nk, nk_host nk, sv_name sv, nk_name nk, if isAway w nk then ''G'' else ''H'',
                ''0 '' @ (if status then getStatusMessage w True nk else getRealName w nk)] s))))"

definition m_who :: "senv \<Rightarrow> irc_msg \<Rightarrow> session \<Rightarrow> exn + session" where
  "m_who x message s =
     (let (arg, status) = who_args (msg_args message);
          chan = (if arg = [] \<or> \<not> isChanName arg then None else getChannel (se_net s) arg)
      in bindE (if arg = [] \<or> \<not> isChanName arg \<or> chan \<noteq> None
                then foldE (who_line x arg status chan) (reg_users (se_net s)) s else Inr s)
           (answer ''315'' [if arg \<noteq> [] then arg else ''**'', ''End of /WHO list'']))"

definition chan_names :: "net \<Rightarrow> uid list \<Rightarrow> exn + string" where
  "chan_names s us =
     foldE (\<lambda>u acc. bindE (cuser_of s u) (\<lambda>cu. bindE (chan_of s (cu_chan cu)) (\<lambda>ch. Inr (append_word '' '' acc (ch_name ch))))) us []"

definition whois_icon :: "senv \<Rightarrow> bool \<Rightarrow> nick \<Rightarrow> session \<Rightarrow> exn + session" where
  "whois_icon x extended nk s =
     (case x_icon x nk (if extended then 15 else 10) of
        IconBuffer buf \<Rightarrow>
          bindE (answer ''320'' [nk_name nk, ''Icon:''] s)
            (foldE (\<lambda>line. answer ''320'' [nk_name nk, line]) (tokens buf [CHR 0x0D, CHR 0x0A]))
      | CacaError \<Rightarrow> answer ''320'' [nk_name nk, ''No icon''] s
      | CacaNotLoaded \<Rightarrow> answer ''320'' [nk_name nk, ''libcaca and imlib2 are required to display icon''] s)"

definition whois_icon_url :: "senv \<Rightarrow> nick \<Rightarrow> session \<Rightarrow> exn + session" where
  "whois_icon_url x nk s =
     (let path = (case nk_class nk of CBuddy b \<Rightarrow> x_icon_path x b | _ \<Rightarrow> [])
      in if x_icons_url x = '' '' \<or> path = [] then Inr s
         else if \<not> se_im s then Inl NullPointer
         else if length path < length (w_user_path (x_world x)) then Inl OutOfRange
         else answer ''320'' [nk_name nk, ''Icon URL: '' @ x_icons_url x @ x_username x @ drop (length (w_user_path (x_world x))) path] s)"

definition m_whois :: "senv \<Rightarrow> irc_msg \<Rightarrow> session \<Rightarrow> exn + session" where
  "m_whois x message s =
     bindE (getArg message 0) (\<lambda>target. case getNick (se_net s) target False of
         None \<Rightarrow> answer ''401'' [target, ''Nick does not exist''] s
       | Some n \<Rightarrow>
           bindE (nick_of (se_net s) n) (\<lambda>nk.
             let extended = countArgs message > 1; w = sworld x s in
             bindE (answer ''311'' [nk_name nk, nk_ident nk, nk_host nk, ''*'', getRealName w nk] s) (\<lambda>s1.
             bindE (chan_names (se_net s1) (nk_channels nk)) (\<lambda>chns.
             bindE (if chns = [] then Inr s1 else answer ''319'' [nk_name nk, chns] s1) (\<lambda>s2.
             bindE (serv_of (se_net s2) (nk_server nk)) (\<lambda>sv.
             bindE (seqE
               [answer ''312'' [nk_name nk, sv_name sv, sv_info sv],
                (\<lambda>s. if isAway w nk then answer ''301'' [nk_name nk, getAwayMessage w nk] s else Inr s),
                (\<lambda>s. if getStatusMessage w False nk \<noteq> [] then answer ''320'' [nk_name nk, getStatusMessage w False nk] s else Inr s),
                (\<lambda>s. if hasFlag OPER nk then answer ''313'' [nk_name nk, ''is an IRC Operator''] s else Inr s),
                whois_icon x extended nk, whois_icon_url x nk] s2) (\<lambda>s3.
             let (ret, net1) = (if extended then retrieveInfo nk (se_net s3) else (False, se_net s3))
             in if ret then Inr (s3\<lparr>se_net := net1\<rparr>)
                else answer ''318'' [nk_name nk, ''End of /WHOIS list''] (s3\<lparr>se_net := net1\<rparr>))))))))"

definition m_whowas :: "irc_msg \<Rightarrow> session \<Rightarrow> exn + session" where
  "m_whowas message s =
     bindE (getArg message 0) (\<lambda>nm.
     bindE (answer ''406'' [nm, ''Nick does not exist''] s) (answer ''369'' [nm, ''End of WHOWAS'']))"

definition m_list :: "senv \<Rightarrow> irc_msg \<Rightarrow> session \<Rightarrow> exn + session" where
  "m_list x message s =
     (case msg_args message of
        [] \<Rightarrow>
          bindE (answer ''321'' [''Channel'', ''Users  Name''] s) (\<lambda>s1.
          bindE (foldE (\<lambda>(_, c) s. bindE (chan_of (se_net s) c) (\<lambda>ch. answer ''322'' [ch_name ch, t2s (length (ch_users ch))] s))
                   (reg_chans (se_net s1)) s1) (answer ''323'' [''End of /LIST'']))
      | a # _ \<Rightarrow>
          if \<not> se_im s then Inl NullPointer
          else case IM_getAccount x s a of
            Some acc \<Rightarrow> if x_connected x acc then Inr (im_do_s (DisplayRoomList acc) s) else answer ''323'' [''End of /LIST''] s
          | None \<Rightarrow> answer ''323'' [''End of /LIST''] s)"

definition m_ison :: "senv \<Rightarrow> irc_msg \<Rightarrow> session \<Rightarrow> exn + session" where
  "m_ison x message s =
     bindE (foldE (\<lambda>nm acc. case getNick (se_net s) nm False of
               None \<Rightarrow> Inr acc
             | Some n \<Rightarrow> bindE (nick_of (se_net s) n) (\<lambda>nk.
                 Inr (if isOnline (sworld x s) nk then append_word '' '' acc (nk_name nk) else acc)))
             (msg_args message) []) (\<lambda>l. answer ''303'' [l] s)"

definition with_channel :: "string \<Rightarrow> (cid \<Rightarrow> session \<Rightarrow> exn + session) \<Rightarrow> session \<Rightarrow> exn + session" where
  "with_channel nm f s =
     (case getChannel (se_net s) nm of None \<Rightarrow> answer ''403'' [nm, ''No such channel''] s | Some c \<Rightarrow> f c s)"

definition m_names :: "senv \<Rightarrow> irc_msg \<Rightarrow> session \<Rightarrow> exn + session" where
  "m_names x message s =
     bindE (getArg message 0) (\<lambda>nm. with_channel nm (\<lambda>c s. on_net (sendNames (sworld x s) c (user_id (se_net s))) s) s)"

section \<open>Messages\<close>

text \<open>
  \<open>PRIVMSG\<close> reuses one message object for all the targets and adds the text to it once more per
  target.
\<close>

fun privmsg_loop :: "senv \<Rightarrow> string \<Rightarrow> string list \<Rightarrow> irc_msg \<Rightarrow> session \<Rightarrow> exn + session" where
  "privmsg_loop x txt [] relayed s = Inr s"
| "privmsg_loop x txt (target # ts) relayed s =
     (let me = user_id (se_net s); w = sworld x s in
      bindE (addArg txt (setSender (ENick me) relayed)) (\<lambda>r.
        if isChanName target
        then case getChannel (se_net s) target of
               None \<Rightarrow> answer ''403'' [target, ''No suck channel''] s
             | Some c \<Rightarrow>
                 let r1 = setReceiver (EChan c) r
                 in bindE (on_net (broadcast w c r1 (Some me)) s) (privmsg_loop x txt ts r1)
        else case getNick (se_net s) target False of
               None \<Rightarrow> answer ''401'' [target, ''No suck nick''] s
             | Some n \<Rightarrow>
                 let r1 = setReceiver (ENick n) r
                 in bindE (on_net (send w n r1) s) (\<lambda>s1.
                    bindE (nick_of (se_net s1) n) (\<lambda>nk.
                    bindE (if isAway w nk then answer ''301'' [nk_name nk, getAwayMessage w nk] s1 else Inr s1)
                      (privmsg_loop x txt ts r1)))))"

definition m_privmsg :: "senv \<Rightarrow> irc_msg \<Rightarrow> session \<Rightarrow> exn + session" where
  "m_privmsg x message s =
     bindE (getArg message 0) (\<lambda>targets.
     bindE (getArg message 1) (\<lambda>txt.
       privmsg_loop x txt (tokens targets '','') (Message (msg_cmd message)) s))"

section \<open>Joining and leaving\<close>

definition no_such_channel :: "string \<Rightarrow> session \<Rightarrow> exn + session" where
  "no_such_channel nm = answer ''403'' [nm, ''No such channel'']"

text \<open>Joining a conversation: the text before the colon names it, the rest the account.\<close>

definition join_conv :: "senv \<Rightarrow> string \<Rightarrow> string \<Rightarrow> session \<Rightarrow> exn + session" where
  "join_conv x channame param s =
     (let (cn, accid) = stringtok (tl channame) '':''; convname = x_url_decode x cn
      in if accid = [] \<or> convname = [] then no_such_channel channame s
         else if \<not> se_im s then Inl NullPointer
         else case IM_getAccount x s accid of
           None \<Rightarrow> no_such_channel channame s
         | Some a \<Rightarrow>
             if \<not> x_connected x a then Inr (upd_acct a (enqueueChannelJoin convname) s)
             else bindE (joinChat x a convname param s) (\<lambda>(joined, s1).
                  if \<not> joined then no_such_channel channame s1
                  else Inr (s1\<lparr>se_net := (se_net s1)\<lparr>timers := timers (se_net s1) @ [JoinCheck channame]\<rparr>\<rparr>)))"

fun join_loop :: "senv \<Rightarrow> string list \<Rightarrow> string \<Rightarrow> session \<Rightarrow> exn + session" where
  "join_loop x [] parameters s = Inr s"
| "join_loop x (channame # names) parameters s =
     (if \<not> isChanName channame then bindE (no_such_channel channame s) (join_loop x names parameters)
      else if hd channame = CHR ''&''
      then case getChannel (se_net s) channame of
             None \<Rightarrow> bindE (no_such_channel channame s) (join_loop x names parameters)
           | Some c \<Rightarrow>
               bindE (on_net (\<lambda>n. bindE (join (sworld x s) (user_id n) c (w_op (x_world x)) n) (\<lambda>(_, n1). Inr n1)) s)
                 (join_loop x names parameters)
      else if hd channame = CHR ''#''
      then case getChannel (se_net s) channame of
             Some _ \<Rightarrow> join_loop x names parameters s
           | None \<Rightarrow>
               let (p, parameters1) = stringtok parameters '',''
               in bindE (join_conv x channame (x_url_decode x p) s) (join_loop x names parameters1)
      else bindE (no_such_channel channame s) (join_loop x names parameters))"

definition m_join :: "senv \<Rightarrow> irc_msg \<Rightarrow> session \<Rightarrow> exn + session" where
  "m_join x message s =
     bindE (getArg message 0) (\<lambda>names.
     bindE (if countArgs message > 1 then getArg message 1 else Inr []) (\<lambda>parameters.
       join_loop x (tokens names '','') parameters s))"

definition check_channel_join :: "string \<Rightarrow> session \<Rightarrow> exn + bool \<times> session" where
  "check_channel_join nm s =
     bindE (case getChannel (se_net s) nm of None \<Rightarrow> no_such_channel nm s | Some _ \<Rightarrow> Inr s) (\<lambda>s1. Inr (False, s1))"

definition m_part :: "irc_msg \<Rightarrow> session \<Rightarrow> exn + session" where
  "m_part message s =
     bindE (getArg message 0) (\<lambda>channame.
     bindE (if countArgs message > 1 then getArg message 1 else Inr []) (\<lambda>reason.
       with_channel channame (\<lambda>c s. on_net (part (user_id (se_net s)) c reason) s) s))"

section \<open>Channel commands\<close>

definition m_topic :: "senv \<Rightarrow> irc_msg \<Rightarrow> session \<Rightarrow> exn + session" where
  "m_topic x message s =
     bindE (getArg message 0) (\<lambda>nm. with_channel nm (\<lambda>c s.
       bindE (chan_of (se_net s) c) (\<lambda>ch.
         if countArgs message < 2
         then (let topic = getTopic (sworld x s) ch
               in if topic = [] then answer ''331'' [ch_name ch, ''No topic set.''] s
                  else answer ''332'' [ch_name ch, topic] s)
         else bindE (getArg message 1) (\<lambda>topic.
              bindE (setTopic (sworld x s) c (Some (ENick (user_id (se_net s)))) topic (se_net s)) (\<lambda>(ok, net1).
                if ok then Inr (s\<lparr>se_net := net1\<rparr>)
                else answer ''482'' [ch_name ch, ''You have no rights to change this channel topic!''] (s\<lparr>se_net := net1\<rparr>))))) s)"

definition m_invite :: "senv \<Rightarrow> irc_msg \<Rightarrow> session \<Rightarrow> exn + session" where
  "m_invite x message s =
     bindE (getArg message 1) (\<lambda>nm. with_channel nm (\<lambda>c s.
       bindE (getArg message 0) (\<lambda>who.
       bindE (invite x c (user_id (se_net s)) who [] s) (\<lambda>(ok, s1).
         if ok then bindE (chan_of (se_net s1) c) (\<lambda>ch. answer ''341'' [who, ch_name ch] s1) else Inr s1))) s)"

definition m_kick :: "senv \<Rightarrow> irc_msg \<Rightarrow> session \<Rightarrow> exn + session" where
  "m_kick x message s =
     bindE (getArg message 0) (\<lambda>nm. with_channel nm (\<lambda>c s.
       bindE (chan_of (se_net s) c) (\<lambda>ch.
       bindE (getChanUser (se_net s) (user_id (se_net s)) c) (\<lambda>r. case r of
           None \<Rightarrow> answer ''442'' [ch_name ch, ''You'' @ [CHR 0x27] @ ''re not on that channel''] s
         | Some from \<Rightarrow>
             bindE (getArg message 1) (\<lambda>who.
             bindE (getChanUser_name (sworld x s) (se_net s) c who) (\<lambda>v. case v of
                 None \<Rightarrow> answer ''401'' [who, ''No such nick''] s
               | Some victim \<Rightarrow>
                   bindE (if countArgs message > 2 then getArg message 2 else Inr []) (\<lambda>reason.
                     on_net (kick (sworld x s) c from victim reason) s)))))) s)"

section \<open>Commands on buddies\<close>

definition m_kill :: "senv \<Rightarrow> irc_msg \<Rightarrow> session \<Rightarrow> exn + session" where
  "m_kill x message s =
     bindE (getArg message 0) (\<lambda>who. case getNick (se_net s) who False of
         None \<Rightarrow> answer ''401'' [who, ''No such nick''] s
       | Some n \<Rightarrow>
           bindE (nick_of (se_net s) n) (\<lambda>nk. case nk_class nk of
               CBuddy b \<Rightarrow>
                 bindE (serv_of (se_net s) (nk_server nk)) (\<lambda>sv. case sv_account sv of
                     None \<Rightarrow> notice_user x (nk_name nk @ '' is not on a remote server'') s
                   | Some a \<Rightarrow>
                       bindE (the_user s) (\<lambda>u.
                         let reason = ''Removed from buddy list'' @
                               (case msg_args message of _ # r # _ \<Rightarrow> (if r = [] then [] else '': '' @ r) | _ \<Rightarrow> [])
                         in bindE (notice_user x (''Received KILL message for '' @ nk_name nk @ '': '' @ reason) s) (\<lambda>s1.
                            bindE (on_net (quit_nick n (''Killed by '' @ nk_name u @ '' ('' @ reason @ '')'')) s1) (\<lambda>s2.
                              Inr (im_do_s (RemoveBuddy a b) s2)))))
             | _ \<Rightarrow> answer ''481'' [''Permission denied: you can only kill a buddy''] s))"

definition m_svsnick :: "senv \<Rightarrow> irc_msg \<Rightarrow> session \<Rightarrow> exn + session" where
  "m_svsnick x message s =
     bindE (getArg message 0) (\<lambda>who.
     bindE (getArg message 1) (\<lambda>newnick. case getNick (se_net s) who False of
         None \<Rightarrow> answer ''401'' [who, ''No such nick''] s
       | Some n \<Rightarrow>
           bindE (nick_of (se_net s) n) (\<lambda>nk. case nk_class nk of
               CBuddy b \<Rightarrow>
                 if \<not> isValidNickname newnick then answer ''432'' [''This nick contains invalid characters''] s
                 else if getNick (se_net s) newnick False \<notin> {None, Some n}
                 then answer ''433'' [newnick, ''Nickname is already in use''] s
                 else bindE (mk_msg ''NICK'' (Some (ENick n)) None [newnick]) (\<lambda>m.
                      bindE (on_net (deliver (user_id (se_net s)) m) s) (\<lambda>s1.
                      bindE (on_net (renameNick n newnick) s1) (\<lambda>s2.
                        Inr (im_do_s (SetAlias b newnick True) s2))))
             | _ \<Rightarrow> answer ''481'' [''Permission denied: you can only change buddy nickname''] s)))"

definition cmd_reply :: "cmd_status \<Rightarrow> string \<Rightarrow> session \<Rightarrow> exn + session" where
  "cmd_reply ret a1 s = (case ret of
       CmdOk \<Rightarrow> Inr s
     | CmdNotFound \<Rightarrow> answer ''421'' [a1, ''Unknown command''] s
     | CmdWrongArgs \<Rightarrow> answer ''461'' [a1, ''Not enough parameters''] s
     | CmdFailed \<Rightarrow> answer ''461'' [a1, ''Command failed.''] s
     | CmdWrongType \<Rightarrow> answer ''481'' [''Permission Denied: This command doesn'' @ [CHR 0x27] @ ''t work on this kind of target''] s
     | CmdWrongPrpl \<Rightarrow> answer ''481'' [''Permission Denied: That command doesn'' @ [CHR 0x27] @ ''t work on this protocol.''] s)"

definition m_cmd :: "senv \<Rightarrow> irc_msg \<Rightarrow> session \<Rightarrow> exn + session" where
  "m_cmd x message s =
     bindE (getArg message 0) (\<lambda>target.
     bindE (getArg message 1) (\<lambda>a1.
       let cmd = foldl (append_word '' '') [] (tl (msg_args message)); w = sworld x s in
       if isChanName target
       then case getChannel (se_net s) target of
              None \<Rightarrow> answer ''403'' [target, ''No suck channel''] s
            | Some c \<Rightarrow> bindE (Channel_sendCommand w c cmd (se_net s)) (\<lambda>(ret, n1). cmd_reply ret a1 (s\<lparr>se_net := n1\<rparr>))
       else case getNick (se_net s) target False of
              None \<Rightarrow> answer ''401'' [target, ''No suck nick''] s
            | Some n \<Rightarrow> bindE (Nick_sendCommand w n cmd (se_net s)) (\<lambda>(ret, n1). cmd_reply ret a1 (s\<lparr>se_net := n1\<rparr>))))"

end
