(* ===== verification/Commands_Accounts.thy ===== *)
theory Commands_Accounts
  imports Commands_Channels
begin

text \<open>
  The handlers of \<open>src/src/irc/cmds_accounts.cpp\<close>: \<open>CONNECT\<close>, \<open>SQUIT\<close> and \<open>MAP\<close> with its subcommands,
  and \<open>Purple::addAccount\<close>.
\<close>

section \<open>Connecting\<close>

definition matching_accounts :: "senv \<Rightarrow> string \<Rightarrow> session \<Rightarrow> im_account list" where
  "matching_accounts x target s =
     filter (\<lambda>a. target = ''*'' \<or> w_acc_id (sworld x s) a = target \<or> w_acc_servername (sworld x s) a = target)
       (map snd (getAccountsList s))"

definition unknown_account :: "senv \<Rightarrow> string \<Rightarrow> session \<Rightarrow> exn + session" where
  "unknown_account x nm = notice_user x (''Error: Account '' @ nm @ '' is unknown'')"

definition connect_one :: "senv \<Rightarrow> im_account \<Rightarrow> session \<Rightarrow> exn + session" where
  "connect_one x a s =
     (let s1 = im_do_s (Connect a) (upd_acct a connect s)
      in bindE (getStatusChannel (sworld x s1) (se_net s1) a) (\<lambda>r. case r of
           None \<Rightarrow> Inr s1
         | Some c \<Rightarrow> on_net (\<lambda>n. bindE (join (sworld x s1) (user_id n) c (w_op (x_world x)) n) (\<lambda>(_, n1). Inr n1)) s1))"

definition m_connect :: "senv \<Rightarrow> irc_msg \<Rightarrow> session \<Rightarrow> exn + session" where
  "m_connect x message s =
     bindE (getArg message 0) (\<lambda>target.
       if \<not> se_im s then Inl NullPointer
       else let accs = matching_accounts x target s
            in bindE (foldE (connect_one x) accs s) (\<lambda>s1.
                 if accs = [] \<and> target \<noteq> ''*'' then unknown_account x target s1 else Inr s1))"

text \<open>\<open>Account::disconnect\<close>, which reports a reconnection it aborts.\<close>

definition account_disconnect :: "senv \<Rightarrow> im_account \<Rightarrow> session \<Rightarrow> exn + session" where
  "account_disconnect x a s =
     (case map_of (se_accts s) a of
        None \<Rightarrow> Inl Dangling
      | Some ac \<Rightarrow>
          bindE (if ac_reconnect_id ac \<ge> 0
                 then b_log x (W_INFO OR W_SNO) (''Abort auto-reconnection to '' @ getServername ac) s else Inr s) (\<lambda>s1.
            Inr (im_do_s (Disconnect a) (upd_acct a disconnect s1))))"

definition m_squit :: "senv \<Rightarrow> irc_msg \<Rightarrow> session \<Rightarrow> exn + session" where
  "m_squit x message s =
     bindE (getArg message 0) (\<lambda>target.
       if \<not> se_im s then Inl NullPointer
       else let accs = matching_accounts x target s
            in bindE (foldE (account_disconnect x) accs s) (\<lambda>s1.
                 if accs = [] \<and> target \<noteq> ''*'' then unknown_account x target s1 else Inr s1))"

section \<open>Adding an account\<close>

definition opt_env_of :: "senv \<Rightarrow> im_account \<Rightarrow> session \<Rightarrow> opt_env" where
  "opt_env_of x a s =
     \<lparr>oe_connected = x_connected x a, oe_accounts = se_accts s, oe_taken = (\<lambda>nm. IM_getAccount x s nm \<noteq> None),
      oe_buddies = x_buddies x a, oe_status = x_status_message x a, oe_unset = x_UNSET x\<rparr>"

definition Purple_addAccount :: "senv \<Rightarrow> protocol \<Rightarrow> string \<Rightarrow> options \<Rightarrow> bool \<Rightarrow> session \<Rightarrow> exn + (string + im_account) \<times> session" where
  "Purple_addAccount x p username opts register s =
     (let a = x_new_account x
      in bindE (setOptions (sworld x s) (opt_env_of x a s) a opts (Account_new username p, se_net s)) (\<lambda>(err, ac, n1).
           let s1 = s\<lparr>se_net := n1\<rparr>
           in case err of
                Some reason \<Rightarrow> Inr (Inl reason, s1)
              | None \<Rightarrow>
                  let s2 = (if register then im_do_s (RegisterAccount a) s1 else s1);
                      s3 = s2\<lparr>se_accts := se_accts s2 @ [(a, ac)]\<rparr>
                  in Inr (Inr a, if x_saved_status x then im_do_s (Connect a) (upd_acct a connect s3) else s3)))"

definition option_usage :: "popt \<Rightarrow> string" where
  "option_usage op =
     ''[-'' @ (case po_type op of
         OptServerAliases \<Rightarrow> ''[!]'' @ po_name op
       | OptBool \<Rightarrow> ''[!]'' @ po_name op
       | OptStrList \<Rightarrow> po_name op @ '' ['' @ foldl (append_word ''|'') [] (po_choices op) @ '']''
       | OptInt \<Rightarrow> po_name op @ '' int''
       | OptNone \<Rightarrow> []
       | _ \<Rightarrow> po_name op @ '' value'') @ '']''"

definition set_value :: "string \<Rightarrow> string \<Rightarrow> options \<Rightarrow> options" where
  "set_value k v m = map (\<lambda>(j, op). (j, if j = k then op\<lparr>po_value := v\<rparr> else op)) m"

text \<open>
  The words after the protocol: the first non-empty one is the user name, \<open>-option\<close> takes the next
  word as its value unless the option is a boolean, the other words are the password and then
  the status channel.
\<close>

function add_args :: "(string \<Rightarrow> string) \<Rightarrow> string list \<Rightarrow> string \<Rightarrow> options \<Rightarrow> string + string \<times> options" where
  "add_args decode [] username opts = Inr (username, opts)"
| "add_args decode (a # as) username opts =
     (let q = [CHR 0x27] in
      if username = [] then add_args decode as (decode a) opts
      else if a \<noteq> [] \<and> hd a = CHR ''-''
      then let neg = (length a > 1 \<and> a ! 1 = CHR ''!''); nm = drop (if neg then 2 else 1) a
           in case map_find opts nm of
                None \<Rightarrow> Inl (''Error: Option '' @ q @ a @ q @ '' does not exist'')
              | Some op \<Rightarrow>
                  if po_type op \<in> {OptBool, OptServerAliases}
                  then add_args decode as username (set_value nm (if neg then ''false'' else ''true'') opts)
                  else (case as of
                          [] \<Rightarrow> Inl (''Error: Option '' @ q @ a @ q @ '' needs a value'')
                        | v # as1 \<Rightarrow> add_args decode as1 username (set_value nm v opts))
      else if (case map_find opts ''password'' of Some op \<Rightarrow> po_value op = [] | None \<Rightarrow> True)
      then add_args decode as username (set_value ''password'' a opts)
      else add_args decode as username (set_value ''status_channel'' a opts))"
  by pat_completeness auto
termination by (relation "measure (\<lambda>(d, as, u, m). length as)") auto

definition m_map_registeradd :: "senv \<Rightarrow> string list \<Rightarrow> bool \<Rightarrow> session \<Rightarrow> exn + bool \<times> im_account option \<times> session" where
  "m_map_registeradd x args0 register s =
     bindE (rebuildWithQuotes args0) (\<lambda>args.
     let failed = (\<lambda>r. bindE r (\<lambda>s1. Inr (False, None, s1))); q = [CHR 0x27]
     in case args of
          _ # protoname # rest \<Rightarrow>
            if \<not> se_im s then Inl NullPointer
            else (case map_find (x_protocols x) protoname of
               None \<Rightarrow> failed (notice_user x (''Error: Protocol '' @ protoname @ '' is unknown. Try '' @ q @ ''/STATS p'' @ q @ '' to list protocols.'') s)
             | Some p \<Rightarrow>
                 let opts = proto_getOptions p
                 in if rest = []
                    then failed (notice_user x (''Usage: /MAP add '' @ getID_proto p @ '' USERNAME '' @
                           foldl (append_word '' '') [] (map (\<lambda>e. option_usage (snd e)) opts)) s)
                    else (case add_args (x_url_decode x) rest [] opts of
                       Inl err \<Rightarrow> failed (notice_user x err s)
                     | Inr (username, opts1) \<Rightarrow>
                         bindE (Purple_addAccount x p username opts1 register s) (\<lambda>(r, s1). case r of
                             Inl reason \<Rightarrow> failed (notice_user x (''Error: '' @ reason) s1)
                           | Inr a \<Rightarrow> Inr (True, Some a, s1))))
        | _ \<Rightarrow> failed (seqE [notice_user x ''Usage: /MAP add PROTO USERNAME [OPTIONS]'',
                             notice_user x ''To display available options: /MAP add PROTO'',
                             notice_user x (''Use '' @ q @ ''/STATS p'' @ q @ '' to show all available protocols'')] s))"

section \<open>The other subcommands\<close>

definition edit_show :: "senv \<Rightarrow> acct \<Rightarrow> options \<Rightarrow> session \<Rightarrow> exn + session" where
  "edit_show x ac opts s =
     bindE (notice_user x (''-- Parameters of account '' @ getServername ac @ '' --'') s)
       (foldE (\<lambda>(_, op). notice_user x (po_name op @ '' = '' @ (if po_type op = OptPassword then ''*******'' else po_value op))) opts)"

definition edit_set :: "senv \<Rightarrow> im_account \<Rightarrow> acct \<Rightarrow> options \<Rightarrow> string \<Rightarrow> popt \<Rightarrow> string \<Rightarrow> session \<Rightarrow> exn + session" where
  "edit_set x a ac opts key op v s =
     (let q = [CHR 0x27] in
      if po_type op = OptBool \<and> v \<noteq> ''true'' \<and> v \<noteq> ''false''
      then notice_user x (''Error: Option '' @ q @ po_name op @ q @ '' is a boolean ('' @ q @ ''true'' @ q @ '' or '' @ q @ ''false'' @ q @ '')'') s
      else bindE (if po_type op = OptInt
                  then bindE (getValueInt (op\<lparr>po_value := v\<rparr>)) (\<lambda>i. notice_user x (po_name op @ '' = '' @ t2s_int i) s)
                  else notice_user x (po_name op @ '' = '' @ v) s) (\<lambda>s1.
           bindE (setOptions (sworld x s1) (opt_env_of x a s1) a (set_value key v opts) (ac, se_net s1)) (\<lambda>(err, ac1, n1).
             let s2 = upd_acct a (\<lambda>_. ac1) (s1\<lparr>se_net := n1\<rparr>)
             in case err of None \<Rightarrow> Inr s2 | Some reason \<Rightarrow> notice_user x (''Error: '' @ reason) s2)))"

definition m_map_edit :: "senv \<Rightarrow> string list \<Rightarrow> session \<Rightarrow> exn + session" where
  "m_map_edit x args s =
     (case args of
        _ # acc # rest \<Rightarrow>
          if \<not> se_im s then Inl NullPointer
          else (case IM_getAccount x s acc of
             None \<Rightarrow> unknown_account x acc s
           | Some a \<Rightarrow>
               (case map_of (se_accts s) a of
                  None \<Rightarrow> Inl Dangling
                | Some ac \<Rightarrow>
                    bindE (acct_getOptions ac) (\<lambda>opts. case rest of
                        [] \<Rightarrow> edit_show x ac opts s
                      | key # vals \<Rightarrow>
                          (case find (\<lambda>e. po_name (snd e) = key) opts of
                             None \<Rightarrow> notice_user x (''Key '' @ key @ '' does not exist.'') s
                           | Some (k, op) \<Rightarrow>
                               if vals = [] then notice_user x (po_name op @ '' = '' @ po_value op) s
                               else edit_set x a ac opts k op (foldl (append_word '' '') [] vals) s))))
      | _ \<Rightarrow> notice_user x ''Usage: /MAP edit ACCOUNT [KEY [VALUE]]'' s)"

definition m_map_delete :: "senv \<Rightarrow> string list \<Rightarrow> session \<Rightarrow> exn + bool \<times> session" where
  "m_map_delete x args s =
     (case args of
        [_, acc] \<Rightarrow>
          if \<not> se_im s then Inl NullPointer
          else (case IM_getAccount x s acc of
             None \<Rightarrow> bindE (unknown_account x acc s) (\<lambda>s1. Inr (False, s1))
           | Some a \<Rightarrow>
               (case map_of (se_accts s) a of
                  None \<Rightarrow> Inl Dangling
                | Some ac \<Rightarrow>
                    bindE (notice_user x (''Removing account '' @ ac_username ac) s) (\<lambda>s1.
                      Inr (True, im_do_s (DelAccount a) (s1\<lparr>se_accts := filter (\<lambda>e. fst e \<noteq> a) (se_accts s1)\<rparr>)))))
      | _ \<Rightarrow> bindE (notice_user x ''Usage: /MAP delete ACCOUNT'' s) (\<lambda>s1. Inr (False, s1)))"

text \<open>\<open>x_actions\<close> are the labels of the actions the protocol plugin of the account offers.\<close>

definition getCommandsList :: "senv \<Rightarrow> im_account \<Rightarrow> string list" where
  "getCommandsList x a = map (nickize (w_translit (x_world x))) (x_actions x a)"

definition callCommand :: "senv \<Rightarrow> im_account \<Rightarrow> string \<Rightarrow> session \<Rightarrow> bool \<times> session" where
  "callCommand x a cmd s =
     (case find (\<lambda>l. nickize (w_translit (x_world x)) l = cmd) (x_actions x a) of
        None \<Rightarrow> (False, s)
      | Some l \<Rightarrow> (True, im_do_s (CallCommand a l) s))"

definition m_map_command :: "senv \<Rightarrow> string list \<Rightarrow> session \<Rightarrow> exn + session" where
  "m_map_command x args s =
     (case args of
        _ # acc # rest \<Rightarrow>
          if \<not> se_im s then Inl NullPointer
          else (case IM_getAccount x s acc of
             None \<Rightarrow> unknown_account x acc s
           | Some a \<Rightarrow>
               if \<not> x_connected x a then notice_user x (''Error: Account '' @ acc @ '' is not connected'') s
               else (case rest of
                  [] \<Rightarrow> bindE (notice_user x (''Commands available for '' @ acc @ '':'') s)
                          (foldE (\<lambda>c. notice_user x (''  '' @ c)) (getCommandsList x a))
                | cmd # _ \<Rightarrow>
                    let (ok, s1) = callCommand x a cmd s
                    in if ok then Inr s1 else notice_user x (''Command '' @ cmd @ '' is unknown'') s1))
      | _ \<Rightarrow> notice_user x ''Usage: /MAP cmd ACCOUNT [command]'' s)"

definition map_help_lines :: "string list" where
  "map_help_lines =
     [''add PROTO USERNAME PASSWD [CHANNEL] [options]   add an account'',
      ''reg PROTO USERNAME PASSWD [CHANNEL] [options]   add an account and register it on server'',
      ''edit ACCOUNT [KEY [VALUE]]                      edit an account'',
      ''cmd ACCOUNT [COMMAND]                           run a command on an account'',
      ''delete ACCOUNT                                  remove ACCOUNT from your accounts'',
      ''help                                            display this message'',
      ''Usage: /MAP add|register|edit|command|delete|help [...]'']"

definition m_map_help :: "senv \<Rightarrow> session \<Rightarrow> exn + session" where
  "m_map_help x = foldE (notice_user x) map_help_lines"

section \<open>The map\<close>

definition map_line :: "senv \<Rightarrow> im_account option \<Rightarrow> im_account \<Rightarrow> bool \<Rightarrow> session \<Rightarrow> exn + session" where
  "map_line x added a is_last s =
     (let w = sworld x s; nm = (if is_last then ''`'' else ''|'') @
            (if added = Some a then ''-+'' else if x_connecting x a then ''-*'' else if x_connected x a then ''-'' else '' '') @ w_acc_servername w a
      in if \<not> x_connected x a then answer ''015'' [nm] s
         else case getServer (se_net s) (w_acc_servername w a) of
           None \<Rightarrow> Inl NullPointer
         | Some i \<Rightarrow>
             bindE (serv_of (se_net s) i) (\<lambda>sv.
             bindE (countOnlineNicks w (se_net s) i) (\<lambda>on.
               answer ''015'' [nm @ ''  ['' @ t2s on @ ''/'' @ t2s (countNicks sv) @ '']''] s)))"

fun map_lines :: "senv \<Rightarrow> im_account option \<Rightarrow> im_account list \<Rightarrow> session \<Rightarrow> exn + session" where
  "map_lines x added [] s = Inr s"
| "map_lines x added (a # as) s = bindE (map_line x added a (as = []) s) (map_lines x added as)"

definition show_map :: "senv \<Rightarrow> im_account option \<Rightarrow> session \<Rightarrow> exn + session" where
  "show_map x added s =
     bindE (answer ''015'' [my_name s] s) (\<lambda>s1.
     bindE (map_lines x added (map snd (getAccountsList s1)) s1) (answer ''017'' [''End of /MAP'']))"

definition map_commands :: "string list" where
  "map_commands = [''register'', ''add'', ''edit'', ''delete'', ''command'', ''cmd'', ''help'']"

definition m_map :: "senv \<Rightarrow> irc_msg \<Rightarrow> session \<Rightarrow> exn + session" where
  "m_map x message s =
     (let args = msg_args message in case args of
        [] \<Rightarrow> if \<not> se_im s then Inl NullPointer else show_map x None s
      | arg # _ \<Rightarrow>
          (case find (\<lambda>nm. take (length arg) nm = arg) map_commands of
             None \<Rightarrow> m_map_help x s
           | Some nm \<Rightarrow>
               if nm \<in> {''register'', ''add''}
               then bindE (m_map_registeradd x args (nm = ''register'') s) (\<lambda>(ok, added, s1). if ok then show_map x added s1 else Inr s1)
               else if nm = ''edit'' then m_map_edit x args s
               else if nm = ''delete'' then bindE (m_map_delete x args s) (\<lambda>(ok, s1). if ok then show_map x None s1 else Inr s1)
               else if nm = ''help'' then m_map_help x s
               else m_map_command x args s))"

end
