(* ===== verification/Dispatch.thy ===== *)
theory Dispatch
  imports Commands_Accounts
begin

text \<open>
  \<open>IRC::readIO\<close> of \<open>src/src/irc/irc.cpp\<close>: the bytes read are cut into lines, each line is parsed,
  looked up in the table of commands and run when the number of arguments and the flags of the
  user allow it.
\<close>

section \<open>Handlers\<close>

definition handlers :: "senv \<Rightarrow> (irc_msg \<Rightarrow> session \<Rightarrow> exn + session) list" where
  "handlers x =
     [m_nick x, m_user x, m_pass, m_quit, m_cmd x, m_privmsg x, m_ping, m_pong, m_version x, m_info x, m_who x, m_whois x,
      m_whowas, m_stats x, m_connect x, m_connect x, m_squit x, m_map x, m_admin x, m_join x, m_part, m_names x, m_topic x,
      m_list x, m_mode x, m_ison x, m_invite x, m_kick x, m_kill x, m_svsnick x, m_away x, m_motd, m_oper x, m_wallops x,
      m_rehash x, m_die x]"

text \<open>The position of the first command with that name.\<close>

fun command_index :: "string \<Rightarrow> (string \<times> nat \<times> 32 word) list \<Rightarrow> nat option" where
  "command_index c [] = None"
| "command_index c ((nm, _) # t) = (if nm = c then Some 0 else map_option Suc (command_index c t))"

section \<open>Reading\<close>

definition run_command :: "senv \<Rightarrow> irc_msg \<Rightarrow> session \<Rightarrow> exn + session" where
  "run_command x m s =
     (case command_index (msg_cmd m) command_table of
        None \<Rightarrow> answer ''421'' [msg_cmd m, ''Unknown command''] s
      | Some i \<Rightarrow>
          (case command_table ! i of (_, minargs, flags) \<Rightarrow>
             if countArgs m < minargs then answer ''461'' [msg_cmd m, ''Not enough parameters''] s
             else bindE (the_user s) (\<lambda>u.
               if flags \<noteq> 0 \<and> \<not> hasFlag flags u
               then if \<not> hasFlag REGISTERED u then answer ''451'' [''Register first''] s
                    else answer ''481'' [''Permission Denied: Insufficient privileges''] s
               else (handlers x ! i) m (s\<lparr>se_count := (se_count s)[i := se_count s ! i + 1]\<rparr>))))"

definition read_line :: "senv \<Rightarrow> string \<Rightarrow> session \<Rightarrow> exn + session" where
  "read_line x line s =
     bindE (parse line) (\<lambda>m.
     bindE (b_log x W_PARSE (''<< '' @ line) s) (\<lambda>s1.
       run_command x m (setLastReadNow (w_now (x_world x)) s1)))"

text \<open>\<open>Read\<close> of the socket wrapper gives the bytes, or throws a \<open>SockError\<close> with a reason.\<close>

definition readIO :: "senv \<Rightarrow> string + string \<Rightarrow> session \<Rightarrow> exn + bool \<times> session" where
  "readIO x input s =
     (if \<not> sock_open (se_net s) then Inl NullPointer
      else bindE (case input of
             Inl reason \<Rightarrow> quit reason s
           | Inr sbuf \<Rightarrow> foldE (read_line x) (tokens sbuf [CHR 0x0D, CHR 0x0A]) s) (\<lambda>s1. Inr (True, s1)))"

end
