(* ===== verification/Session_Props.thy ===== *)
theory Session_Props
  imports Session
begin

text \<open>
  What the registration and the keep-alive of a session guarantee: who gets registered, that the
  authentication always comes to a decision, and that a silent client is closed while one that
  answers is kept.
\<close>

section \<open>Flags\<close>

lemma hasFlag_set [simp]:
  "hasFlag REGISTERED (setFlag PING u) = hasFlag REGISTERED u" "hasFlag PING (setFlag PING u)"
  "hasFlag REGISTERED (setFlag REGISTERED u)" "hasFlag OPER (setFlag OPER u)" "hasFlag OPER (setFlag REGISTERED u) = hasFlag OPER u"
  "hasFlag OPER (setFlag PING u) = hasFlag OPER u"
  by (simp_all add: hasFlag_def setFlag_def REGISTERED_def PING_def OPER_def bit.conj_disj_distrib2)

lemma hasFlag_del [simp]:
  "\<not> hasFlag PING (delFlag PING u)" "hasFlag REGISTERED (delFlag PING u) = hasFlag REGISTERED u" "hasFlag OPER (delFlag PING u) = hasFlag OPER u"
  by (simp_all add: hasFlag_def delFlag_def REGISTERED_def PING_def OPER_def and.assoc)

lemma flag_class [simp]: "nk_class (setFlag f u) = nk_class u" "nk_class (delFlag f u) = nk_class u" "nk_name (setFlag f u) = nk_name u"
  by (simp_all add: setFlag_def delFlag_def)

lemma host_ok_upd_user: "host_ok (se_net (upd_user f s)) = host_ok (se_net s)" if "\<And>u. nk_class (f u) = nk_class u"
  by (auto simp: host_ok_def upd_user_def upd_nick_def that)

lemma the_user_upd [simp]: "the_user s = Inr u \<Longrightarrow> the_user (upd_user f s) = Inr (f u)"
  by (simp add: the_user_def upd_user_def upd_nick_def nick_of_def split: option.splits)

section \<open>Authentication\<close>

text \<open>The mechanisms change the preferences and the instant-messaging object, and what was written.\<close>

definition only_auth :: "session \<Rightarrow> session \<Rightarrow> bool" where
  "only_auth s s' \<longleftrightarrow> (\<exists>y z p i. s' = s\<lparr>se_net := (se_net s)\<lparr>out := y\<rparr>, se_syslog := z, se_prefs := p, se_ims := i\<rparr>)"

lemma only_authI: "only_out s s' \<Longrightarrow> only_auth s s'"
proof -
  assume "only_out s s'"
  then obtain y z where "s' = s\<lparr>se_net := (se_net s)\<lparr>out := y\<rparr>, se_syslog := z, se_prefs := se_prefs s, se_ims := se_ims s\<rparr>"
    by (auto simp: only_out_def)
  then show ?thesis unfolding only_auth_def by blast
qed

lemma only_auth_refl [simp]: "only_auth s s"
  by (simp add: only_authI)

lemma only_auth_trans: "only_auth s s1 \<Longrightarrow> only_auth s1 s2 \<Longrightarrow> only_auth s s2"
  unfolding only_auth_def by force

lemma only_authD:
  assumes "only_auth s s'"
  shows "host_ok (se_net s') = host_ok (se_net s)" "the_user s' = the_user s" "se_password s' = se_password s" "se_kills s' = se_kills s"
    "sock_open (se_net s') = sock_open (se_net s)" "my_name s' = my_name s"
  using assms by (auto simp: only_auth_def the_user_def my_name_def)

lemma only_auth_auth:
  assumes "only_auth s s1"
  shows "only_auth (s\<lparr>se_auth := a\<rparr>) (s1\<lparr>se_auth := a\<rparr>)"
proof -
  obtain y z p i where "s1 = s\<lparr>se_net := (se_net s)\<lparr>out := y\<rparr>, se_syslog := z, se_prefs := p, se_ims := i\<rparr>"
    using assms unfolding only_auth_def by blast
  then have "s1\<lparr>se_auth := a\<rparr> = (s\<lparr>se_auth := a\<rparr>)\<lparr>se_net := (se_net (s\<lparr>se_auth := a\<rparr>))\<lparr>out := y\<rparr>, se_syslog := z, se_prefs := p, se_ims := i\<rparr>"
    by (cases s) simp
  then show ?thesis unfolding only_auth_def by blast
qed

lemma new_im_cases:
  obtains (failed) reason where "x_new_im x u = Some reason" "new_im x u s = (Inl reason, s)"
  | (created) s' where "new_im x u s = (Inr (), s')" "only_auth s s'" "pf_password (se_prefs s') = pf_password (x_stored x u)" "host_ok (se_net s') = host_ok (se_net s)"
proof (cases "x_new_im x u")
  case None
  let ?s = "s\<lparr>se_prefs := x_stored x u, se_ims := se_ims s @ [u]\<rparr>"
  have eq: "?s = s\<lparr>se_net := (se_net s)\<lparr>out := out (se_net s)\<rparr>, se_syslog := se_syslog s, se_prefs := x_stored x u, se_ims := se_ims s @ [u]\<rparr>" by simp
  have "only_auth s ?s" unfolding only_auth_def by (subst eq) blast
  then show ?thesis using None created [of ?s] by (simp add: new_im_def)
qed (use failed in \<open>simp add: new_im_def\<close>)

text \<open>Authenticating always returns; it says yes only for the right reason.\<close>

lemma authenticate_ok:
  assumes "host_ok (se_net s)"
  shows "\<exists>r s'. authenticate x m u pw s = Inr (r, s') \<and> only_auth s s' \<and>
    (r = Inr True \<longrightarrow> x_exists x u \<and> (case m of AuthConnection \<Rightarrow> x_client_username x = u | AuthLocal \<Rightarrow> pf_password (x_stored x u) = pw))"
proof (cases "x_exists x u")
  case True
  show ?thesis
  proof (cases m)
    case AuthConnection
    obtain s1 where s1: "b_log x W_DEBUG (''Authenticating user '' @ u @ '' using connection information'') s = Inr s1" "only_out s s1"
      using b_log_ok [OF assms] by blast
    show ?thesis
      by (cases rule: new_im_cases [of x u s1])
        (use True AuthConnection s1 only_authI [OF s1(2)] in \<open>auto simp: authenticate_def intro: only_auth_trans\<close>)
  next
    case AuthLocal
    show ?thesis
    proof (cases rule: new_im_cases [of x u s])
      case (created s1)
      then obtain s2 where s2: "b_log x W_DEBUG (''Authenticating user '' @ u @ '' using local database'') s1 = Inr s2" "only_out s1 s2"
        using b_log_ok assms by blast
      have "authenticate x m u pw s = Inr (Inr (pf_password (se_prefs s2) = pw), s2)"
        using True AuthLocal created(1) s2(1) by (simp add: authenticate_def)
      moreover have "se_prefs s2 = se_prefs s1" using only_outD(5) [OF s2(2)] .
      ultimately show ?thesis using AuthLocal True created(2,3) only_authI [OF s2(2)] only_auth_trans by fastforce
    qed (use True AuthLocal in \<open>auto simp: authenticate_def\<close>)
  qed
qed (simp add: authenticate_def)

definition entitled :: "senv \<Rightarrow> mechanism \<Rightarrow> string \<Rightarrow> string \<Rightarrow> bool" where
  "entitled x m u pw = (case m of AuthConnection \<Rightarrow> x_client_username x = u | AuthLocal \<Rightarrow> pf_password (x_stored x u) = pw)"

lemma validate_loop_ok:
  assumes "host_ok (se_net s)"
  shows "\<exists>r s'. validate_loop x u pw ms ok s = Inr (r, s') \<and> only_auth s s' \<and>
    (\<forall>m. r = Inr (Some m) \<longrightarrow> ok = Some m \<or> m \<in> set ms \<and> x_exists x u \<and> entitled x m u pw)"
  using assms
proof (induction ms arbitrary: ok s)
  case (Cons m ms)
  show ?case
  proof (cases "ok = None \<and> mech_exists x m u")
    case True
    obtain r s1 where a: "authenticate x m u pw s = Inr (r, s1)" "only_auth s s1"
        "r = Inr True \<longrightarrow> x_exists x u \<and> entitled x m u pw"
      using authenticate_ok [OF Cons.prems] unfolding entitled_def by blast
    show ?thesis
    proof (cases r)
      case (Inr b)
      have "host_ok (se_net s1)" using Cons.prems only_authD(1) [OF a(2)] by simp
      from Cons.IH [OF this, of "if b then Some m else None"] obtain r2 s2 where
        "validate_loop x u pw ms (if b then Some m else None) s1 = Inr (r2, s2)" "only_auth s1 s2"
        "\<forall>m'. r2 = Inr (Some m') \<longrightarrow> (if b then Some m else None) = Some m' \<or> m' \<in> set ms \<and> x_exists x u \<and> entitled x m' u pw" by blast
      then show ?thesis using True a Inr only_auth_trans by (fastforce split: if_splits)
    qed (use True a in auto)
  next
    case False
    then show ?thesis using Cons.IH [OF Cons.prems, of ok] by auto
  qed
qed auto

lemma validate_ok:
  assumes "host_ok (se_net s)"
  shows "\<exists>r s'. validate x u pw s = Inr (r, s') \<and> only_auth s s' \<and>
    (\<forall>m. r = Inr (Some m) \<longrightarrow> m \<in> set (getMechanisms x) \<and> x_exists x u \<and> entitled x m u pw)"
  using validate_loop_ok [OF assms, of x u pw "getMechanisms x" None] by (auto simp: validate_def)

text \<open>Creating an account: only the local mechanism can, and it always says why not.\<close>

lemma create_ok:
  assumes "host_ok (se_net s)" and "\<not> x_exists x u"
  shows "\<exists>r s'. create x m u pw s = Inr (r, s') \<and> only_auth s s' \<and>
    (r = Inr () \<longrightarrow> m = AuthLocal \<and> pw \<noteq> []) \<and> (\<forall>e. r = Inl (UnableToCreate e) \<longrightarrow> e \<noteq> [])"
proof (cases m)
  case AuthLocal
  obtain s1 where s1: "b_log x W_DEBUG (''Creating user '' @ u) s = Inr s1" "only_out s s1" using b_log_ok [OF assms(1)] by blast
  show ?thesis
  proof (cases rule: new_im_cases [of x u s1])
    case (created s2)
    have h: "host_ok (se_net s2)" using created(4) s1(2) only_outD(3) assms(1) by simp
    have "\<exists>b s3. setPassword x AuthLocal pw s2 = Inr (b, s3) \<and> only_auth s2 s3"
    proof (cases "has_space pw \<or> length pw < 8")
      case True
      obtain s3 where "notice_user x ''Password must be at least 8 characters, and cannot contain whitespaces.'' s2 = Inr s3" "only_out s2 s3"
        using notice_user_ok [OF h] by blast
      with True show ?thesis using only_authI by (auto simp: setPassword_def)
    next
      case False
      let ?s = "s2\<lparr>se_prefs := (se_prefs s2)\<lparr>pf_password := pw\<rparr>\<rparr>"
      have eq: "?s = s2\<lparr>se_net := (se_net s2)\<lparr>out := out (se_net s2)\<rparr>, se_syslog := se_syslog s2,
        se_prefs := (se_prefs s2)\<lparr>pf_password := pw\<rparr>, se_ims := se_ims s2\<rparr>" by simp
      have "only_auth s2 ?s" unfolding only_auth_def by (subst eq) blast
      then show ?thesis using False by (auto simp: setPassword_def)
    qed
    then obtain b s3 where s3: "setPassword x AuthLocal pw s2 = Inr (b, s3)" "only_auth s2 s3" by blast
    have "create x m u pw s = (if pw = [] then Inr (Inl (UnableToCreate ''Please set a password for this new account''), s) else Inr (Inr (), s3))"
      using AuthLocal assms(2) s1(1) created(1) s3(1) by (simp add: create_def Auth_create_def mech_exists_def)
    moreover have "only_auth s s3" using only_auth_trans [OF only_auth_trans [OF only_authI [OF s1(2)] created(2)] s3(2)] .
    ultimately show ?thesis using AuthLocal by (cases "pw = []") auto
  qed (use AuthLocal assms(2) s1 only_authI in \<open>auto simp: create_def Auth_create_def mech_exists_def\<close>)
qed (auto simp: create_def Auth_create_def mech_exists_def)

lemma generate_loop_ok:
  assumes "host_ok (se_net s)" and "\<not> x_exists x u" and "ms \<noteq> [] \<or> ok \<noteq> None \<or> err \<noteq> []" and "ok = Some AuthLocal \<longrightarrow> pw \<noteq> []" and "ok \<noteq> Some AuthConnection"
  shows "\<exists>r s'. generate_loop x u pw ms ok err s = Inr (r, s') \<and> only_auth s s' \<and>
    (\<forall>m e. r = Inr (m, e) \<longrightarrow> (m = None \<longrightarrow> e \<noteq> []) \<and> (m = None \<or> m = Some AuthLocal \<and> pw \<noteq> [] \<and> (ok = Some AuthLocal \<or> AuthLocal \<in> set ms)))"
  using assms
proof (induction ms arbitrary: ok err s)
  case Nil
  then show ?case by (cases ok; cases "the ok") auto
next
  case (Cons m ms)
  show ?case
  proof (cases ok)
    case None
    obtain r s1 where c: "create x m u pw s = Inr (r, s1)" "only_auth s s1" "r = Inr () \<longrightarrow> m = AuthLocal \<and> pw \<noteq> []"
        "\<And>e. r = Inl (UnableToCreate e) \<Longrightarrow> e \<noteq> []" using create_ok [OF Cons.prems(1,2)] by blast
    have h: "host_ok (se_net s1)" using only_authD(1) [OF c(2)] Cons.prems(1) by simp
    consider (im) e where "r = Inl (IMError e)" | (un) e where "r = Inl (UnableToCreate e)" | (ok) "r = Inr ()"
      by (cases r; cases "projl r") auto
    then show ?thesis
    proof cases
      case (un e)
      from Cons.IH [OF h Cons.prems(2), of None e] c(4) [OF un] show ?thesis
        using None c(1,2) un only_auth_trans by fastforce
    next
      case ok
      from Cons.IH [OF h Cons.prems(2), of "Some m" err] c(3) ok show ?thesis
        using None c(1,2) only_auth_trans by fastforce
    qed (use None c in auto)
  next
    case (Some m')
    then show ?thesis using Cons.IH [OF Cons.prems(1,2), of ok err] Cons.prems(4,5) by auto
  qed
qed

lemma generate_ok:
  assumes "host_ok (se_net s)" and "\<not> x_exists x u"
  shows "\<exists>r s'. generate x u pw s = Inr (r, s') \<and> only_auth s s' \<and>
    (\<forall>m. r = Inr m \<longrightarrow> m = Some AuthLocal \<and> pw \<noteq> [] \<and> x_use_local x)"
proof (cases "getMechanisms x = []")
  case False
  then obtain r s' where g: "generate_loop x u pw (getMechanisms x) None [] s = Inr (r, s')" "only_auth s s'"
      "\<And>m e. r = Inr (m, e) \<Longrightarrow> (m = None \<longrightarrow> e \<noteq> []) \<and> (m = None \<or> m = Some AuthLocal \<and> pw \<noteq> [] \<and> AuthLocal \<in> set (getMechanisms x))"
    using generate_loop_ok [OF assms, of "getMechanisms x" None "[]" pw] by auto
  moreover have "AuthLocal \<in> set (getMechanisms x) \<longleftrightarrow> x_use_local x" by (simp add: getMechanisms_def)
  ultimately show ?thesis using False
    by (cases r) (auto simp: generate_def split: prod.splits)
qed (simp add: generate_def)

section \<open>The greeting\<close>

text \<open>A sequence of operations that only write only writes.\<close>

lemma seqE_only_out:
  assumes "\<And>f s'. f \<in> set fs \<Longrightarrow> only_out s s' \<Longrightarrow> \<exists>s''. f s' = Inr s'' \<and> only_out s' s''"
  shows "\<exists>s'. seqE fs s = Inr s' \<and> only_out s s'"
  using assms
proof (induction fs arbitrary: s)
  case (Cons f fs)
  obtain s1 where s1: "f s = Inr s1" "only_out s s1" using Cons.prems [of f s] by auto
  have "\<exists>s'. seqE fs s1 = Inr s' \<and> only_out s1 s'"
    using Cons.prems only_out_trans [OF s1(2)] by (intro Cons.IH) auto
  then show ?case using s1 only_out_trans by auto
qed simp

lemma foldE_only_out:
  assumes "\<And>a s'. a \<in> set as \<Longrightarrow> only_out s s' \<Longrightarrow> \<exists>s''. f a s' = Inr s'' \<and> only_out s' s''"
  shows "\<exists>s'. foldE f as s = Inr s' \<and> only_out s s'"
  using assms
proof (induction as arbitrary: s)
  case (Cons a as)
  obtain s1 where s1: "f a s = Inr s1" "only_out s s1" using Cons.prems [of a s] by auto
  have "\<exists>s'. foldE f as s1 = Inr s' \<and> only_out s1 s'"
    using Cons.prems only_out_trans [OF s1(2)] by (intro Cons.IH) auto
  then show ?case using s1 only_out_trans by auto
qed simp

lemma m_motd_ok:
  assumes "host_ok (se_net s)"
  shows "\<exists>s'. m_motd m s = Inr s' \<and> only_out s s'"
proof -
  obtain s1 where s1: "answer ''375'' [''- '' @ my_name s @ '' Message Of The Day -''] s = Inr s1" "only_out s s1"
    using answer_1 [OF assms] by blast
  have h: "host_ok (se_net s')" if "only_out s s'" for s' using that only_outD(3) assms by blast
  obtain s2 where s2: "foldE (\<lambda>l. answer ''372'' [''- '' @ l]) (se_motd s1) s1 = Inr s2" "only_out s1 s2"
    using foldE_only_out [of "se_motd s1" s1 "\<lambda>l. answer ''372'' [''- '' @ l]"] answer_1 h only_out_trans [OF s1(2)] by blast
  obtain s3 where "answer ''376'' [''End of /MOTD command.''] s2 = Inr s3" "only_out s2 s3"
    using answer_1 h only_out_trans [OF s1(2) s2(2)] by blast
  then have "m_motd m s = Inr s3" "only_out s s3"
    using s1(1) s2(1) only_out_trans [OF only_out_trans [OF s1(2) s2(2)]] by (simp_all add: m_motd_def)
  then show ?thesis by blast
qed

lemma answer_words: "host_ok (se_net s) \<Longrightarrow> \<forall>a\<in>set (butlast xs). \<not> has_space a \<Longrightarrow> \<exists>s'. answer code xs s = Inr s' \<and> only_out s s'"
  by (auto simp: answer_eq intro: only_outI)

lemma the_user_im_do [simp]: "the_user (im_do_s c s) = the_user s" "host_ok (se_net (im_do_s c s)) = host_ok (se_net s)"
  "se_im (im_do_s c s) = se_im s" "se_auth (im_do_s c s) = se_auth s" "se_ipc (im_do_s c s) = se_ipc s"
  by (simp_all add: the_user_def im_do_s_def im_do_def nick_of_def host_ok_def)

lemma foldl_frame: "(\<And>s a. g (f s a) = g s) \<Longrightarrow> g (foldl f s as) = g s"
  by (induction as arbitrary: s) simp_all

lemma IM_isAway_frame:
  "the_user (snd (IM_isAway x s)) = the_user s" "host_ok (se_net (snd (IM_isAway x s))) = host_ok (se_net s)"
  "se_im (snd (IM_isAway x s)) = se_im s" "se_auth (snd (IM_isAway x s)) = se_auth s" "se_ipc (snd (IM_isAway x s)) = se_ipc s"
  unfolding IM_isAway_def Let_def snd_conv by (rule foldl_frame, simp)+

lemma greet_ok:
  assumes "host_ok (se_net s)" and "the_user s = Inr u" and "\<not> has_space (my_name s)" and "\<not> has_space (x_version x)"
  shows "\<exists>s' u'. greet x mech s = Inr s' \<and> the_user s' = Inr u' \<and> hasFlag REGISTERED u' \<and> hasFlag OPER u' = hasFlag OPER u \<and>
    se_im s' \<and> se_auth s' = Some mech \<and> map msg_args (se_ipc s') = map msg_args (se_ipc s) @ [[nk_name u]]"
proof -
  define s1 where "s1 = upd_user (setFlag REGISTERED) (s\<lparr>se_auth := Some mech, se_im := True\<rparr>)"
  let ?m = "\<lparr>msg_cmd = ''USER'', msg_sender = setEntity None, msg_receiver = setEntity None, msg_args = [nk_name u]\<rparr> :: irc_msg"
  define s2 where "s2 = s1\<lparr>se_ipc := se_ipc s1 @ [?m]\<rparr>"
  have u1: "the_user s1 = Inr (setFlag REGISTERED u)"
    unfolding s1_def by (rule the_user_upd) (use assms(2) in \<open>simp add: the_user_def\<close>)
  have h1: "host_ok (se_net s1)" unfolding s1_def using assms(1) by (subst host_ok_upd_user) simp_all
  have n1: "my_name s1 = my_name s" by (simp add: s1_def upd_user_def upd_nick_def my_name_def ent_name_def)
  have h2: "host_ok (se_net s2)" "the_user s2 = Inr (setFlag REGISTERED u)" using h1 u1 by (simp_all add: s2_def the_user_def)
  define fs where "fs =
      [answer ''001'' [''Welcome to the Minbif IRC gateway, '' @ nk_name u @ ''!''],
       answer ''002'' [''Your host is '' @ my_name s1 @ '', running '' @ x_version x],
       answer ''003'' [''This server was created '' @ x_created x],
       answer ''004'' [my_name s1, x_version x, UMODES, CHMODES],
       answer ''005'' [''CMDS=MAP'', ''CHANTYPES=#&'', ''PREFIX=(qohv)~@%+'', ''STATUSMSG=~@%+'', ''are supported by this server''],
       m_motd (Message [])]"
  have rest: "\<exists>s''. f s' = Inr s'' \<and> only_out s' s''" if "f \<in> set fs" and "only_out s2 s'" for f s'
  proof -
    have "host_ok (se_net s')" using only_outD(3) [OF that(2)] h2(1) by simp
    then show ?thesis using that(1) assms(3,4) n1
      by (auto simp: fs_def UMODES_def CHMODES_def has_space_def intro!: answer_words m_motd_ok)
  qed
  obtain s3 where s3: "seqE fs s2 = Inr s3" "only_out s2 s3"
    using seqE_only_out [of fs s2] rest by blast
  obtain away s4 where s4: "IM_isAway x (im_do_s RestoreStatuses s3) = (away, s4)" by force
  have f4: "the_user s4 = the_user s3" "host_ok (se_net s4) = host_ok (se_net s3)" "se_im s4 = se_im s3" "se_auth s4 = se_auth s3" "se_ipc s4 = se_ipc s3"
    using IM_isAway_frame [of x "im_do_s RestoreStatuses s3"] s4 by simp_all
  have f3: "the_user s3 = Inr (setFlag REGISTERED u)" "host_ok (se_net s3)" "se_im s3" "se_auth s3 = Some mech" "se_ipc s3 = se_ipc s @ [?m]"
    using only_outD [OF s3(2)] h2 s3(2) by (auto simp: s2_def s1_def upd_user_def only_out_def)
  have eq: "greet x mech s = (if away then answer ''306'' [''You have been marked as being away''] (upd_user (\<lambda>u. u\<lparr>nk_away := ''Away''\<rparr>) s4) else Inr s4)"
    using u1 s3(1) [unfolded fs_def] s4 by (simp add: greet_def Let_def s1_def [symmetric] mk_msg_eq ipc_send_def s2_def)
  show ?thesis
  proof (cases away)
    case False
    then show ?thesis using eq f3 f4 by auto
  next
    case True
    let ?s5 = "upd_user (\<lambda>u. u\<lparr>nk_away := ''Away''\<rparr>) s4"
    have "host_ok (se_net ?s5)" using f3(2) f4(2) by (subst host_ok_upd_user) simp_all
    then obtain s6 where s6: "answer ''306'' [''You have been marked as being away''] ?s5 = Inr s6" "only_out ?s5 s6" using answer_1 by blast
    have "the_user ?s5 = Inr ((setFlag REGISTERED u)\<lparr>nk_away := ''Away''\<rparr>)" using the_user_upd f3(1) f4(1) by simp
    moreover have "hasFlag f (v\<lparr>nk_away := a\<rparr>) = hasFlag f v" for f v a by (simp add: hasFlag_def)
    ultimately show ?thesis using eq True s6 f3 f4 only_outD [OF s6(2)] s6(2)
      by (auto simp: only_out_def upd_user_def the_user_def)
  qed
qed

section \<open>The decision\<close>

text \<open>
  Who may be admitted: a known user by the client name of the connection or by the stored
  password, a new user by the password of the server, if it has one, and with a password of
  their own.
\<close>

definition admitted :: "senv \<Rightarrow> string \<Rightarrow> string \<Rightarrow> bool" where
  "admitted x u pw \<longleftrightarrow>
     (if x_exists x u
      then x_use_connection x \<and> x_client_username x = u \<or> x_use_local x \<and> pf_password (x_stored x u) = pw
      else (x_password x = '' '' \<or> pw = x_password x) \<and> x_use_local x \<and> pw \<noteq> [])"

definition closed :: "session \<Rightarrow> session \<Rightarrow> bool" where
  "closed s s' \<longleftrightarrow> \<not> sock_open (se_net s') \<and> se_kills s' = se_kills s + 1 \<and> the_user s' = the_user s"

lemma quit_closed:
  assumes "only_auth s s1" and "host_ok (se_net s)"
  shows "\<exists>s'. quit reason s1 = Inr s' \<and> closed s s'"
proof -
  have "host_ok (se_net s1)" using only_authD(1) [OF assms(1)] assms(2) by simp
  then obtain y where "quit reason s1 = Inr (s1\<lparr>se_net := (se_net s1)\<lparr>out := y, sock_open := False\<rparr>, se_kills := se_kills s1 + 1\<rparr>)"
    using quit_eq by blast
  then show ?thesis using only_authD(2,4) [OF assms(1)] by (simp add: closed_def the_user_def nick_of_def)
qed

lemma sendWelcome_cases:
  assumes "host_ok (se_net s)" and "the_user s = Inr u" and "\<not> hasFlag REGISTERED u" and "nk_name u \<noteq> ''*''" and "nk_ident u \<noteq> []"
  obtains (refused) s' where "sendWelcome x s = Inr s'" "closed s s'"
  | (greeted) mech s1 a where "sendWelcome x s = greet x mech s1" "only_auth s (s1\<lparr>se_auth := a\<rparr>)" "admitted x (nk_name u) (se_password s)"
proof -
  obtain r s1 where v: "validate x (nk_name u) (se_password s) s = Inr (r, s1)" "only_auth s s1"
      "\<And>m. r = Inr (Some m) \<Longrightarrow> m \<in> set (getMechanisms x) \<and> x_exists x (nk_name u) \<and> entitled x m (nk_name u) (se_password s)"
    using validate_ok [OF assms(1)] by blast
  have start: "sendWelcome x s = (case r of
           Inl reason \<Rightarrow> quit (''Unable to initialize IM: '' @ reason) s1
         | Inr (Some mech) \<Rightarrow> greet x mech s1
         | Inr None \<Rightarrow>
             let s2 = s1\<lparr>se_auth := None\<rparr>
             in if x_exists x (nk_name u) then quit ''Incorrect credentials'' s2
                else if x_password x \<noteq> '' '' \<and> se_password s2 \<noteq> x_password x
                then quit ''This server is protected by a global private password.  Ask administrator.'' s2
                else bindE (generate x (nk_name u) (se_password s2) s2) (\<lambda>(r, s3). case r of
                    Inl reason \<Rightarrow> quit (''Unable to initialize IM: '' @ reason) s3
                  | Inr (Some mech) \<Rightarrow> greet x mech s3
                  | Inr None \<Rightarrow> bindE (quit ''Creation of new account failed'' s3) (\<lambda>_. Inl NullPointer)))"
    using assms v(1) by (simp add: sendWelcome_def)
  consider (err) reason where "r = Inl reason" | (some) m where "r = Inr (Some m)" | (none) "r = Inr None"
    by (cases r; cases "projr r") auto
  then show thesis
  proof cases
    case (err reason)
    then show thesis using start refused quit_closed [OF v(2) assms(1)] by auto
  next
    case (some m)
    have "admitted x (nk_name u) (se_password s)"
      using v(3) [OF some] by (auto simp: admitted_def getMechanisms_def entitled_def split: if_splits mechanism.splits)
    then show thesis using start some greeted [of m s1 "se_auth s1"] v(2) by simp
  next
    case none
    define s2 where "s2 = s1\<lparr>se_auth := None\<rparr>"
    let ?s0 = "s\<lparr>se_auth := None\<rparr>"
    have a2: "only_auth ?s0 s2" unfolding s2_def by (rule only_auth_auth [OF v(2)])
    have h0: "host_ok (se_net ?s0)" using assms(1) by simp
    have c0: "closed s s'" if "closed ?s0 s'" for s' using that by (simp add: closed_def the_user_def)
    have pw: "se_password s2 = se_password s" using only_authD(3) [OF a2] by simp
    consider "x_exists x (nk_name u)" | "\<not> x_exists x (nk_name u)" "x_password x \<noteq> '' ''" "se_password s \<noteq> x_password x"
      | (new) "\<not> x_exists x (nk_name u)" "x_password x = '' '' \<or> se_password s = x_password x" by blast
    then show thesis
    proof cases
      case new
      have "host_ok (se_net s2)" using only_authD(1) [OF a2] h0 by simp
      then obtain r3 s3 where g: "generate x (nk_name u) (se_password s) s2 = Inr (r3, s3)" "only_auth s2 s3"
          "\<And>m. r3 = Inr m \<Longrightarrow> m = Some AuthLocal \<and> se_password s \<noteq> [] \<and> x_use_local x"
        using generate_ok [OF _ new(1)] by blast
      have a3: "only_auth ?s0 s3" using only_auth_trans [OF a2 g(2)] .
      have eq: "sendWelcome x s = (case r3 of Inl reason \<Rightarrow> quit (''Unable to initialize IM: '' @ reason) s3
                  | Inr (Some mech) \<Rightarrow> greet x mech s3
                  | Inr None \<Rightarrow> bindE (quit ''Creation of new account failed'' s3) (\<lambda>_. Inl NullPointer))"
        using start none new g(1) pw by (auto simp: s2_def [symmetric] Let_def)
      show thesis
      proof (cases r3)
        case (Inl reason)
        then show thesis using eq quit_closed [OF a3 h0] c0 refused by auto
      next
        case (Inr m)
        have "only_auth s (s3\<lparr>se_auth := se_auth s\<rparr>)" using only_auth_auth [OF a3, of "se_auth s"] by simp
        moreover have "admitted x (nk_name u) (se_password s)" using g(3) [OF Inr] new by (simp add: admitted_def)
        ultimately show thesis using eq Inr g(3) [OF Inr] greeted by simp
      qed
    qed (use start none quit_closed [OF a2 h0] c0 refused pw in \<open>auto simp: s2_def [symmetric] Let_def\<close>)
  qed
qed

section \<open>Properties\<close>

text \<open>A session of a client that has sent \<open>NICK\<close> and \<open>USER\<close>, and an environment with local accounts, for examples.\<close>

definition sample_prefs :: prefs where
  "sample_prefs = \<lparr>pf_password = ''secret12'', pf_typing_notice = 0, pf_accept_nobuddies = True, pf_send_delay = 0, pf_voiced_buddies = True,
     pf_server_aliases = True, pf_away_idle = False, pf_proxy_type = ''none'', pf_proxy = None\<rparr>"

definition sample_user :: nick where
  "sample_user = sample_buddy\<lparr>nk_name := ''alice'', nk_ident := ''al'', nk_class := CUser, nk_conv := None\<rparr>"

definition sample_net :: net where
  "sample_net = (IRC_members ''v'' ''irc.example'')\<lparr>nicks := [1 \<mapsto> sample_user], next_id := 2, reg_users := [(''alice'', 1)]\<rparr>"

definition sample_state :: session where
  "sample_state = \<lparr>se_net = sample_net, se_password = ''secret12'', se_last_read = Some 0, se_motd = [], se_auth = None, se_im = False,
     se_ims = [], se_prefs = sample_prefs, se_count = replicate 36 0, se_ipc = [], se_kills = 0, se_logged = DEFAULT_LOGGED_FLAGS,
     se_to_syslog = False, se_syslog = [], se_accts = []\<rparr>"

definition sample_env :: senv where
  "sample_env = \<lparr>x_world = sample_world, x_version = ''minbif-1'', x_build = ''b'', x_created = ''now'', x_infotxt = [], x_ping_freq = 60, x_uptime = 0,
     x_password = '' '', x_opers = [(''root'', ''toor'', ''r@x'')], x_icons_url = '' '', x_motd = None, x_ipc = (\<lambda>_. True),
     x_use_connection = False, x_use_local = True, x_exists = (\<lambda>u. u = ''alice''), x_new_im = (\<lambda>_. None), x_client_username = [],
     x_stored = (\<lambda>_. sample_prefs), x_OFFLINE = 1, x_AVAILABLE = 2, x_AWAY = 5, x_status = (\<lambda>_. 2), x_primitives = [],
     x_connected = (\<lambda>_. False), x_connecting = (\<lambda>_. False), x_supports_chats = (\<lambda>_. True), x_buddy_menu = (\<lambda>_. None), x_new_chat = (\<lambda>_ _ _. NoChat), x_chat_params = (\<lambda>_. []),
     x_url_decode = id, x_icon = (\<lambda>_ _. CacaNotLoaded), x_icon_path = (\<lambda>_. []), x_username = ''alice'', x_buddies = (\<lambda>_. []),
     x_protocols = [], x_new_account = 1, x_status_message = (\<lambda>_. []), x_UNSET = 0, x_saved_status = False, x_actions = (\<lambda>_. []), x_plugins = []\<rparr>"

lemma sample_facts:
  "host_ok (se_net sample_state)" "the_user sample_state = Inr sample_user" "\<not> hasFlag REGISTERED sample_user" "nk_name sample_user \<noteq> ''*''"
  "nk_ident sample_user \<noteq> []" "\<not> has_space (my_name sample_state)" "\<not> has_space (x_version sample_env)"
  by (simp_all add: host_ok_def sample_state_def sample_net_def IRC_members_def sample_user_def sample_buddy_def the_user_def nick_of_def
      hasFlag_def my_name_def ent_name_def sample_env_def has_space_def)

text \<open>
  C11: Once a client has a nickname and an identname, \<open>sendWelcome\<close> comes to a decision: the session
  is registered with an instant-messaging object, or closed with the user still unregistered. It
  never stops half-way (in particular the null \<open>im_auth\<close> after a failed creation is never used), and
  it registers only somebody the configured mechanisms admit.
\<close>

theorem registration_decides:
  assumes "host_ok (se_net s)" and "the_user s = Inr u" and "\<not> hasFlag REGISTERED u" and "nk_name u \<noteq> ''*''" and "nk_ident u \<noteq> []"
    and "\<not> has_space (my_name s)" and "\<not> has_space (x_version x)"
  shows "\<exists>s' u'. sendWelcome x s = Inr s' \<and> the_user s' = Inr u' \<and>
    (if hasFlag REGISTERED u' then se_im s' \<and> se_auth s' \<noteq> None \<and> admitted x (nk_name u) (se_password s)
     else \<not> sock_open (se_net s') \<and> se_kills s' = se_kills s + 1)"
  using assms(1-5)
proof (cases rule: sendWelcome_cases [where x = x])
  case (refused s')
  then show ?thesis using assms(2,3) by (auto simp: closed_def)
next
  case (greeted mech s1 a)
  have "host_ok (se_net s1)" "the_user s1 = Inr u" "my_name s1 = my_name s"
    using only_authD(1,2,6) [OF greeted(2)] assms(1,2) by (simp_all add: the_user_def my_name_def)
  then show ?thesis using greet_ok [of s1 u x mech] greeted(1,3) assms(6,7) by auto
qed

theorem registration_decides_witness:
  "\<exists>s' u'. sendWelcome sample_env sample_state = Inr s' \<and> the_user s' = Inr u' \<and>
    (if hasFlag REGISTERED u' then se_im s' \<and> se_auth s' \<noteq> None \<and> admitted sample_env ''alice'' ''secret12''
     else \<not> sock_open (se_net s') \<and> se_kills s' = 1)"
proof -
  have "nk_name sample_user = ''alice''" "se_password sample_state = ''secret12''" "se_kills sample_state = 0"
    by (simp_all add: sample_user_def sample_state_def)
  moreover obtain s' u' where "sendWelcome sample_env sample_state = Inr s'" "the_user s' = Inr u'"
      "if hasFlag REGISTERED u' then se_im s' \<and> se_auth s' \<noteq> None \<and> admitted sample_env (nk_name sample_user) (se_password sample_state)
       else \<not> sock_open (se_net s') \<and> se_kills s' = se_kills sample_state + 1"
    using registration_decides [OF sample_facts] by blast
  ultimately show ?thesis by (intro exI [of _ s'] exI [of _ u']) (simp split: if_splits)
qed

text \<open>
  With connection authentication enabled, a new user whose client name is not the nickname
  can never be created, even when local accounts are enabled and would accept them: the
  \<open>IMError\<close> of \<open>AuthConnection::create\<close> ends the loop over the mechanisms, where the
  \<open>UnableToCreate\<close> of the other mechanisms lets it go on.
\<close>

lemma connection_blocks_local_creation:
  assumes "x_use_connection x" and "x_client_username x \<noteq> u"
  shows "generate x u pw s = Inr (Inl ''No connection authentication'', s)"
  using assms by (simp add: generate_def getMechanisms_def create_def)

theorem connection_blocks_local_creation_witness:
  "generate (sample_env\<lparr>x_use_connection := True, x_client_username := ''bob''\<rparr>) ''carol'' ''longenough'' sample_state =
     Inr (Inl ''No connection authentication'', sample_state) \<and>
   x_use_local (sample_env\<lparr>x_use_connection := True, x_client_username := ''bob''\<rparr>)"
  using connection_blocks_local_creation [of "sample_env\<lparr>x_use_connection := True, x_client_username := ''bob''\<rparr>" "''carol''" "''longenough''" sample_state]
  by (simp add: sample_env_def)

section \<open>Keep-alive\<close>

lemma ping_due:
  assumes "host_ok (se_net s)" and "the_user s = Inr u" and "se_last_read s = Some t" and "t + x_ping_freq x \<le> now"
  shows "\<exists>s'. ping x now s = Inr (hasFlag REGISTERED u \<and> \<not> hasFlag PING u, s') \<and>
    (if hasFlag REGISTERED u \<and> \<not> hasFlag PING u then only_out (upd_user (setFlag PING) s) s' else closed s s')"
proof (cases "hasFlag REGISTERED u \<and> \<not> hasFlag PING u")
  case False
  obtain s1 where "quit ''Ping timeout'' s = Inr s1" "closed s s1" using quit_closed [OF only_auth_refl assms(1)] by blast
  with False show ?thesis using assms by (intro exI [of _ s1]) (auto simp: ping_def)
next
  case True
  let ?s1 = "upd_user (setFlag PING) s"
  have h: "host_ok (se_net ?s1)" using assms(1) by (subst host_ok_upd_user) simp_all
  obtain y where y: "on_net (deliver (user_id (se_net ?s1)) \<lparr>msg_cmd = ''PING'', msg_sender = setEntity None, msg_receiver = setEntity None,
      msg_args = [my_name ?s1]\<rparr>) ?s1 = Inr (?s1\<lparr>se_net := (se_net ?s1)\<lparr>out := y\<rparr>\<rparr>)"
    using tell_user [OF h live_none] by blast
  have "ping x now s = Inr (True, ?s1\<lparr>se_net := (se_net ?s1)\<lparr>out := y\<rparr>\<rparr>)"
    using True assms y by (simp add: ping_def mk_msg_eq Let_def)
  then show ?thesis using True only_outI by simp
qed

text \<open>
  C15: A client that stays silent is closed: of two runs of the ping timer after the deadline,
  with nothing read in between, the first or the second closes the session and stops the timer.
\<close>

theorem silent_client_closed:
  assumes "host_ok (se_net s)" and "se_last_read s = Some t" and "t + x_ping_freq x \<le> now1" and "t + x_ping_freq x \<le> now2"
  shows "\<exists>s1 s2. ping x now1 s = Inr (False, s1) \<and> \<not> sock_open (se_net s1) \<or>
    ping x now1 s = Inr (True, s1) \<and> ping x now2 s1 = Inr (False, s2) \<and> \<not> sock_open (se_net s2) \<and> se_kills s2 = se_kills s + 1"
proof -
  obtain u where u: "the_user s = Inr u" using assms(1) by (auto simp: host_ok_def the_user_def)
  obtain s1 where s1: "ping x now1 s = Inr (hasFlag REGISTERED u \<and> \<not> hasFlag PING u, s1)"
      "if hasFlag REGISTERED u \<and> \<not> hasFlag PING u then only_out (upd_user (setFlag PING) s) s1 else closed s s1"
    using ping_due [OF assms(1) u assms(2,3)] by blast
  show ?thesis
  proof (cases "hasFlag REGISTERED u \<and> \<not> hasFlag PING u")
    case True
    then have o: "only_out (upd_user (setFlag PING) s) s1" using s1(2) by simp
    have h: "host_ok (se_net s1)" using assms(1) by (subst only_outD(3) [OF o], subst host_ok_upd_user) simp_all
    have u1: "the_user s1 = Inr (setFlag PING u)" using only_outD(13) [OF o] the_user_upd [OF u] by simp
    have l: "se_last_read s1 = Some t" "se_kills s1 = se_kills s" using only_outD(10,11) [OF o] assms(2) by (simp_all add: upd_user_def)
    obtain s2 where "ping x now2 s1 = Inr (False, s2)" "closed s1 s2" using ping_due [OF h u1 l(1) assms(4)] by auto
    then show ?thesis using True s1(1) l(2) by (auto simp: closed_def)
  qed (use s1 in \<open>auto simp: closed_def\<close>)
qed

theorem silent_client_closed_witness:
  "\<exists>s1 s2. ping sample_env 100 sample_state = Inr (False, s1) \<and> \<not> sock_open (se_net s1) \<or>
    ping sample_env 100 sample_state = Inr (True, s1) \<and> ping sample_env 200 s1 = Inr (False, s2) \<and> \<not> sock_open (se_net s2) \<and>
    se_kills s2 = se_kills sample_state + 1"
  by (rule silent_client_closed [OF sample_facts(1), of 0]) (simp_all add: sample_state_def sample_env_def)

text \<open>
  A registered client that has answered the last ping, so that its flag \<open>PING\<close> is clear, is not
  closed by the timer, whatever the time: the timer goes on and the socket stays open.
\<close>

lemma responsive_client_kept:
  assumes "host_ok (se_net s)" and "the_user s = Inr u" and "hasFlag REGISTERED u" and "se_last_read s = Some t"
  shows "\<exists>s'. ping x now (upd_user (delFlag PING) s) = Inr (True, s') \<and> sock_open (se_net s') = sock_open (se_net s) \<and> se_kills s' = se_kills s"
proof (cases "t + x_ping_freq x > now")
  case True
  then show ?thesis using assms(4) by (simp add: ping_def upd_user_def upd_nick_def)
next
  case False
  let ?s = "upd_user (delFlag PING) s"
  have "host_ok (se_net ?s)" using assms(1) by (subst host_ok_upd_user) simp_all
  moreover have "the_user ?s = Inr (delFlag PING u)" using the_user_upd [OF assms(2)] .
  moreover have "se_last_read ?s = Some t" using assms(4) by (simp add: upd_user_def)
  ultimately obtain s' where s': "ping x now ?s = Inr (True, s')" "only_out (upd_user (setFlag PING) ?s) s'"
    using ping_due [of ?s "delFlag PING u" t x now] False assms(3) by auto
  then show ?thesis using only_outD(4,10) [OF s'(2)] by (simp add: upd_user_def upd_nick_def)
qed

theorem responsive_client_kept_witness:
  "\<exists>s'. ping sample_env 500 (upd_user (delFlag PING) (upd_user (setFlag REGISTERED) sample_state)) = Inr (True, s') \<and>
    sock_open (se_net s') = sock_open (se_net (upd_user (setFlag REGISTERED) sample_state)) \<and> se_kills s' = 0"
proof -
  let ?s = "upd_user (setFlag REGISTERED) sample_state"
  have "host_ok (se_net ?s)" using sample_facts(1) by (subst host_ok_upd_user) simp_all
  moreover have "the_user ?s = Inr (setFlag REGISTERED sample_user)" using the_user_upd [OF sample_facts(2)] .
  moreover have "se_last_read ?s = Some 0" "se_kills ?s = 0" by (simp_all add: upd_user_def sample_state_def)
  ultimately show ?thesis using responsive_client_kept [of ?s "setFlag REGISTERED sample_user" 0 sample_env 500] by simp
qed

end
