(* ===== verification/Dispatch_Props.thy ===== *)
theory Dispatch_Props
  imports Dispatch Session_Props
begin

text \<open>
  What the dispatcher of commands guarantees: the table and the handlers fit together, a command
  is run only for a user that has its flag, and a user becomes an operator only with the
  credentials of one.
\<close>

section \<open>The table\<close>

lemma command_index_map_of: "command_index c t = Some i \<Longrightarrow> i < length t \<and> map_of t c = Some (snd (t ! i))"
  by (induction t arbitrary: i) (auto split: if_splits)

lemma command_index_None: "command_index c t = None \<longleftrightarrow> map_of t c = None"
  by (induction t) auto

lemma table_handlers: "length (handlers x) = length command_table"
  by (simp add: handlers_def command_table_def)

lemma command_no_space: "map_of command_table c = Some e \<Longrightarrow> \<not> has_space c"
  using map_of_SomeD [of command_table c e] by (auto simp: command_table_def has_space_def)

lemma read_line_start:
  assumes "host_ok (se_net s)" and "parse line = Inr m"
  shows "\<exists>s1. read_line x line s = run_command x m (setLastReadNow (w_now (x_world x)) s1) \<and> only_out s s1"
proof -
  obtain s1 where "b_log x W_PARSE (''<< '' @ line) s = Inr s1" "only_out s s1" using b_log_ok [OF assms(1)] by blast
  then show ?thesis using assms(2) by (auto simp: read_line_def)
qed

lemma only_out_read: "only_out s s1 \<Longrightarrow> only_out (setLastReadNow t s1) s' \<Longrightarrow> only_out (setLastReadNow t s) s'"
proof -
  assume a: "only_out s s1" "only_out (setLastReadNow t s1) s'"
  then obtain y z where "s1 = s\<lparr>se_net := (se_net s)\<lparr>out := y\<rparr>, se_syslog := z\<rparr>" by (auto simp: only_out_def)
  then have "setLastReadNow t s1 = (setLastReadNow t s)\<lparr>se_net := (se_net (setLastReadNow t s))\<lparr>out := y\<rparr>, se_syslog := z\<rparr>"
    by (cases s) (simp add: setLastReadNow_def)
  then have "only_out (setLastReadNow t s) (setLastReadNow t s1)" unfolding only_out_def by blast
  then show ?thesis using a(2) by (rule only_out_trans)
qed

section \<open>Operators\<close>

lemma oper_result:
  fixes m :: irc_msg
  assumes "host_ok (se_net s)" and "the_user s = Inr u" and "msg_args m = login # password # rest"
  shows "\<exists>s' u'. m_oper x m s = Inr s' \<and> the_user s' = Inr u' \<and>
    (hasFlag OPER u' \<longleftrightarrow> hasFlag OPER u \<or> (\<exists>email. (login, password, email) \<in> set (x_opers x))) \<and>
    length (se_ipc s') = length (se_ipc s) + (if hasFlag OPER u' \<and> \<not> hasFlag OPER u then 1 else 0)"
proof (cases "hasFlag OPER u")
  case True
  obtain s1 where s1: "answer ''381'' [''You are already an IRC Operator''] s = Inr s1" "only_out s s1" using answer_1 [OF assms(1)] by blast
  then have "se_ipc s1 = se_ipc s" by (auto simp: only_out_def)
  then show ?thesis using True assms(2) s1 only_outD(13) [OF s1(2)] by (simp add: m_oper_def)
next
  case False
  have args: "getArg m 0 = Inr login" "getArg m 1 = Inr password" using assms(3) by (simp_all add: getArg_def)
  show ?thesis
  proof (cases "\<exists>email. (login, password, email) \<in> set (x_opers x)")
    case cred: True
    let ?s1 = "upd_user (setFlag OPER) s" and ?me = "ENick (user_id (se_net s))"
    have h1: "host_ok (se_net ?s1)" using assms(1) by (subst host_ok_upd_user) simp_all
    have u1: "the_user ?s1 = Inr (setFlag OPER u)" using the_user_upd [OF assms(2)] .
    have id: "user_id (se_net ?s1) = user_id (se_net s)" by (simp add: upd_user_def upd_nick_def)
    have live: "msg_live (se_net ?s1) \<lparr>msg_cmd = ''MODE'', msg_sender = setEntity (Some ?me), msg_receiver = setEntity (Some ?me), msg_args = [''+o'']\<rparr>"
      using h1 id by (auto simp: msg_live_setEntity ent_live_def host_ok_def)
    obtain s2 where s2: "on_net (deliver (user_id (se_net s)) \<lparr>msg_cmd = ''MODE'', msg_sender = setEntity (Some ?me),
        msg_receiver = setEntity (Some ?me), msg_args = [''+o'']\<rparr>) ?s1 = Inr s2" "only_out ?s1 s2"
      using tell_user [OF h1 live] id only_outI by (simp add: exI)
    have "host_ok (se_net s2)" using only_outD(3) [OF s2(2)] h1 by simp
    then obtain s3 where s3: "answer ''381'' [''You are now an IRC Operator''] s2 = Inr s3" "only_out s2 s3" using answer_1 by blast
    let ?m2 = "\<lparr>msg_cmd = ''OPER'', msg_sender = setEntity None, msg_receiver = setEntity None, msg_args = [nk_name u]\<rparr> :: irc_msg"
    have "m_oper x m s = Inr (s3\<lparr>se_ipc := se_ipc s3 @ [?m2]\<rparr>)"
      using False assms(2) args cred s2(1) s3(1) by (auto simp: m_oper_def mk_msg_eq ipc_send_def Let_def)
    moreover have "the_user (s3\<lparr>se_ipc := se_ipc s3 @ [?m2]\<rparr>) = Inr (setFlag OPER u)"
      using only_outD(13) [OF s3(2)] only_outD(13) [OF s2(2)] u1 by (simp add: the_user_def)
    moreover have "se_ipc s3 = se_ipc s" using s2(2) s3(2) by (auto simp: only_out_def upd_user_def)
    ultimately show ?thesis using False cred by auto
  next
    case nope: False
    obtain s1 where s1: "answer ''464'' [''Password incorrect''] s = Inr s1" "only_out s s1" using answer_1 [OF assms(1)] by blast
    then have "se_ipc s1 = se_ipc s" by (auto simp: only_out_def)
    moreover have "m_oper x m s = Inr s1" using False nope assms(2) args s1(1) by (auto simp: m_oper_def)
    ultimately show ?thesis using False nope assms(2) only_outD(13) [OF s1(2)] by auto
  qed
qed

section \<open>Properties\<close>



text \<open>
  C14: \<open>OPER\<close> always answers; the user is an operator afterwards exactly if they were one before or
  gave the login and the password of a configured operator, and the other sessions are told
  exactly when the user became one.
\<close>

theorem oper_needs_credentials:
  fixes m :: irc_msg
  assumes "host_ok (se_net s)" and "the_user s = Inr u" and "msg_args m = login # password # rest"
  shows "\<exists>s' u'. m_oper x m s = Inr s' \<and> the_user s' = Inr u' \<and>
    (hasFlag OPER u' \<longleftrightarrow> hasFlag OPER u \<or> (\<exists>email. (login, password, email) \<in> set (x_opers x))) \<and>
    length (se_ipc s') = length (se_ipc s) + (if hasFlag OPER u' \<and> \<not> hasFlag OPER u then 1 else 0)"
  by (rule oper_result [OF assms])

theorem oper_needs_credentials_witness:
  "\<exists>s' u'. m_oper sample_env \<lparr>msg_cmd = ''OPER'', msg_sender = no_entity, msg_receiver = no_entity, msg_args = [''root'', ''toor'']\<rparr> sample_state = Inr s' \<and>
    the_user s' = Inr u' \<and> hasFlag OPER u'"
proof -
  let ?m = "\<lparr>msg_cmd = ''OPER'', msg_sender = no_entity, msg_receiver = no_entity, msg_args = [''root'', ''toor'']\<rparr> :: irc_msg"
  have "(''root'', ''toor'', ''r@x'') \<in> set (x_opers sample_env)" by (simp add: sample_env_def)
  then show ?thesis using oper_needs_credentials [OF sample_facts(1,2), of ?m "''root''" "''toor''" "[]" sample_env] by auto
qed

end
