(* ===== verification/Command_Safety.thy ===== *)
theory Command_Safety
  imports Dispatch_Props Lifecycle
begin

text \<open>
  The commands in a consistent session: the queries answer and change nothing, the commands that
  join, leave or remove somebody keep the invariant of the network state. A handler may end with
  the exception \<open>MalformedMessage\<close>, when an argument of the client with a space is put before
  another argument of a reply, and in no other way.
\<close>

section \<open>Handlers that end well\<close>

definition tame :: "('a \<Rightarrow> bool) \<Rightarrow> exn + 'a \<Rightarrow> bool" where
  "tame P r = (case r of Inl e \<Rightarrow> e = MalformedMessage | Inr y \<Rightarrow> P y)"

lemma tame_simps [simp]: "tame P (Inr y) = P y" "tame P (Inl e) \<longleftrightarrow> e = MalformedMessage"
  by (simp_all add: tame_def)

lemma tame_bind: "tame P r \<Longrightarrow> (\<And>y. P y \<Longrightarrow> tame Q (f y)) \<Longrightarrow> tame Q (bindE r f)"
  by (cases r) simp_all

lemma tame_mono: "tame P r \<Longrightarrow> (\<And>y. P y \<Longrightarrow> Q y) \<Longrightarrow> tame Q r"
  by (cases r) simp_all

lemma tame_foldE:
  "(\<And>a s. a \<in> set as \<Longrightarrow> P s \<Longrightarrow> tame P (f a s)) \<Longrightarrow> P s \<Longrightarrow> tame P (foldE f as s)"
proof (induction as arbitrary: s)
  case (Cons a as)
  have "tame P (f a s)" using Cons.prems by simp
  moreover have "tame P (foldE f as s')" if "P s'" for s' using Cons.IH [OF Cons.prems(1)] that by simp
  ultimately show ?case by (simp add: tame_bind)
qed simp

text \<open>Consistency of a session: the invariant of the network, and the registered channels exist.\<close>

definition chans_ok :: "net \<Rightarrow> bool" where
  "chans_ok s \<longleftrightarrow> (\<forall>nm c. getChannel s nm = Some c \<longrightarrow> (\<exists>ch. chans s c = Some ch))"

definition cmd_ok :: "session \<Rightarrow> bool" where
  "cmd_ok s \<longleftrightarrow> session_ok (se_net s) \<and> chans_ok (se_net s)"

lemma chans_ok_keys: "chan_keys s' = chan_keys s \<Longrightarrow> chans_ok s' = chans_ok s"
proof -
  assume k: "chan_keys s' = chan_keys s"
  then have "map_option ch_name (chans s' c) = map_option ch_name (chans s c)" for c by (simp add: chan_keys_def fun_eq_iff)
  then have "(\<exists>ch. chans s' c = Some ch) \<longleftrightarrow> (\<exists>ch. chans s c = Some ch)" for c by (metis map_option_eq_Some option.distinct(1) option.exhaust_sel)
  then show ?thesis using k by (simp add: chans_ok_def getChannel_def chan_keys_def)
qed

lemma cmd_ok_host: "cmd_ok s \<Longrightarrow> host_ok (se_net s)"
  by (simp add: cmd_ok_def session_host)

lemma cmd_ok_only_out: "only_out s s' \<Longrightarrow> cmd_ok s' = cmd_ok s"
  unfolding only_out_def cmd_ok_def by (auto simp: chans_ok_def getChannel_def)

lemma tame_answer: "cmd_ok s0 \<Longrightarrow> only_out s0 s \<Longrightarrow> tame (only_out s0) (answer code xs s)"
  using answer_eq [of s code xs] cmd_ok_host cmd_ok_only_out only_out_trans [OF _ only_outI] by auto

lemma getNick_live:
  assumes "session_ok n" and "getNick n nm cs = Some k"
  shows "\<exists>nk. nicks n k = Some nk"
proof -
  obtain P e where "find P (reg_users n) = Some e" "k = snd e" using assms(2) by (auto simp: getNick_def Let_def map_option_eq_Some)
  then have "(fst e, k) \<in> set (reg_users n)" by (metis find_Some_iff nth_mem prod.collapse)
  moreover define key where "key = fst e"
  ultimately have "map_find (reg_users n) key = Some k" using reg_okD(1) [OF invD(5) [OF assms(1)]] by (simp add: map_find_iff_mem)
  then show ?thesis using reg_okD(3) [OF invD(5) [OF assms(1)]] by blast
qed

section \<open>Queries\<close>

locale query =
  fixes handle :: "irc_msg \<Rightarrow> session \<Rightarrow> exn + session" and args :: nat
  assumes reads: "cmd_ok s \<Longrightarrow> args \<le> countArgs m \<Longrightarrow> tame (only_out s) (handle m s)"
begin

lemma keeps: "cmd_ok s \<Longrightarrow> args \<le> countArgs m \<Longrightarrow> tame cmd_ok (handle m s)"
  using reads [of s m] by (rule tame_mono) (simp_all add: cmd_ok_only_out)

lemma many: "cmd_ok s \<Longrightarrow> \<forall>m\<in>set ms. args \<le> countArgs m \<Longrightarrow> tame (only_out s) (foldE handle ms s)"
  by (rule tame_foldE) (auto simp: cmd_ok_only_out intro: tame_mono [OF reads] only_out_trans)

end

interpretation version: query "m_version x" 0 for x
  by unfold_locales (simp add: m_version_def tame_answer)

interpretation info: query "m_info x" 0 for x
  by unfold_locales (auto simp: m_info_def intro!: tame_bind [where P = "only_out _"] tame_foldE tame_answer)

interpretation motd: query m_motd 0
  by unfold_locales (auto simp: m_motd_def intro!: tame_bind [where P = "only_out _"] tame_foldE tame_answer)

interpretation whowas: query m_whowas 1
  by unfold_locales (auto simp: m_whowas_def getArg_def intro!: tame_bind [where P = "only_out _"] tame_answer)

text \<open>\<open>WHO\<close> reads every registered user, its server and its channels.\<close>

lemma first_channel_ok:
  assumes "session_ok n" and "nicks n k = Some nk"
  shows "\<exists>nm. first_channel n nk = Inr nm"
proof (cases "nk_channels nk")
  case (Cons u us)
  then obtain cu where cu: "cusers n u = Some cu" using net_okD(2) [OF invD(2) [OF assms(1)] assms(2), of u] by auto
  then show ?thesis using Cons net_okD(7) [OF invD(2) [OF assms(1)] cu] by (auto simp: first_channel_def)
qed (simp add: first_channel_def)

lemma isOn_ok: "session_ok n \<Longrightarrow> nicks n k = Some nk \<Longrightarrow> \<exists>b. isOn n k c = Inr b"
  using getChanUser_eq [OF invD(2), of n k nk c] by (auto simp: isOn_def)

lemma who_line_tame:
  assumes "cmd_ok s0" and "only_out s0 s" and "e \<in> set (reg_users (se_net s0))"
  shows "tame (only_out s0) (who_line x arg status chan e s)"
proof -
  have ok: "session_ok (se_net s)" and net: "nicks (se_net s) = nicks (se_net s0)" "servs (se_net s) = servs (se_net s0)"
    using assms(1,2) cmd_ok_only_out [OF assms(2)] by (auto simp: cmd_ok_def only_out_def)
  have ok0: "reg_ok (se_net s0)" using assms(1) invD(5) by (simp add: cmd_ok_def)
  obtain nk where nk: "nicks (se_net s) (snd e) = Some nk"
    using reg_okD(1,3) [OF ok0] assms(3) net(1) by (metis map_find_iff_mem prod.collapse)
  obtain sv where sv: "servs (se_net s) (nk_server nk) = Some sv" using reg_okD(4) [OF ok0] nk net by auto
  have "\<exists>r. who_channel (sworld x s) arg chan (snd e) nk (sv_name sv) (se_net s) = Inr r"
  proof -
    obtain nm where "first_channel (se_net s) nk = Inr nm" using first_channel_ok [OF ok nk] by blast
    moreover obtain b where "isOn (se_net s) (snd e) (the chan) = Inr b" using isOn_ok [OF ok nk] by blast
    ultimately show ?thesis by (cases chan) (simp_all add: who_channel_def)
  qed
  then show ?thesis
    using nk sv assms(1,2) by (auto simp: who_line_def Let_def tame_answer split: option.split)
qed

interpretation who: query "m_who x" 0 for x
proof
  fix s and m :: irc_msg assume ok: "cmd_ok s"
  obtain arg status where a: "who_args (msg_args m) = (arg, status)" by force
  have "tame (only_out s) (foldE (who_line x arg status chan) (reg_users (se_net s)) s)" for chan
    by (rule tame_foldE) (use who_line_tame [OF ok] in auto)
  then show "tame (only_out s) (m_who x m s)"
    using ok by (auto simp: m_who_def a Let_def intro!: tame_bind [where P = "only_out s"] tame_answer)
qed

interpretation ison: query "m_ison x" 1 for x
proof
  fix s and m :: irc_msg assume ok: "cmd_ok s"
  let ?f = "(\<lambda>nm acc. case getNick (se_net s) nm False of
               None \<Rightarrow> Inr acc
             | Some n \<Rightarrow> bindE (nick_of (se_net s) n) (\<lambda>nk.
                 Inr (if isOnline (sworld x s) nk then append_word '' '' acc (nk_name nk) else acc)))"
  have "\<exists>l. foldE ?f as acc = Inr l" for as and acc :: string
  proof (induction as arbitrary: acc)
    case (Cons a as)
    have "\<exists>l. ?f a acc = Inr l"
      using getNick_live [of "se_net s" a False] ok by (cases "getNick (se_net s) a False") (auto simp: cmd_ok_def)
    then show ?case using Cons.IH by auto
  qed simp
  then obtain l where "foldE ?f (msg_args m) [] = Inr l" by blast
  then show "tame (only_out s) (m_ison x m s)" using ok by (simp add: m_ison_def tame_answer)
qed

lemma with_channel_tame:
  assumes "cmd_ok s" and "\<And>c ch. getChannel (se_net s) nm = Some c \<Longrightarrow> chans (se_net s) c = Some ch \<Longrightarrow> tame P (f c s)" and "\<And>s'. only_out s s' \<Longrightarrow> P s'"
  shows "tame P (with_channel nm f s)"
  using assms tame_mono [OF tame_answer [OF assms(1) only_out_refl] assms(3)]
  by (fastforce simp: with_channel_def cmd_ok_def chans_ok_def split: option.split)

interpretation names: query "m_names x" 1 for x
proof
  fix s and m :: irc_msg assume ok: "cmd_ok s" and m: "1 \<le> countArgs m"
  have "tame (only_out s) (on_net (sendNames (sworld x s) c (user_id (se_net s))) s)" if "chans (se_net s) c = Some ch" for c ch
  proof -
    note ch = that
    have so: "session_ok (se_net s)" using ok by (simp add: cmd_ok_def)
    have "all_live (se_net s) (ch_users ch)" using net_ok_all_live [OF invD(2) [OF so] that] .
    then obtain y where "sendNames (sworld x s) c (user_id (se_net s)) (se_net s) = Inr ((se_net s)\<lparr>out := y\<rparr>)"
      using sendNames_out [OF ch _ env_okD(3) [OF invD(4) [OF so] ch], of "user_id (se_net s)" "sworld x s" "out (se_net s)"]
        env_okD(4,5) [OF invD(4) [OF so]] by auto
    then show ?thesis by (simp add: on_net_def only_outI)
  qed
  then show "tame (only_out s) (m_names x m s)"
    using ok m by (auto simp: m_names_def getArg_def intro!: with_channel_tame)
qed

section \<open>Joining, leaving and removing\<close>

lemma cmd_ok_frame:
  "cmd_ok (im_do_s c s) = cmd_ok s" "cmd_ok (upd_acct a f s) = cmd_ok s" "cmd_ok (s\<lparr>se_net := (se_net s)\<lparr>timers := t\<rparr>\<rparr>) = cmd_ok s"
proof -
  have "session_ok (n\<lparr>timers := t\<rparr>) = session_ok n" for n
  proof -
    have "skel (n\<lparr>timers := t\<rparr>) = skel n" by (simp add: skel_def)
    then have "net_ok (n\<lparr>timers := t\<rparr>) = net_ok n" using net_ok_skel by metis
    then show ?thesis by (simp add: session_ok_def all_ok_def cb_ok_def env_ok_def reg_ok_def)
  qed
  then show "cmd_ok (s\<lparr>se_net := (se_net s)\<lparr>timers := t\<rparr>\<rparr>) = cmd_ok s" by (simp add: cmd_ok_def chans_ok_def getChannel_def)
qed (simp_all add: cmd_ok_def im_do_s_def im_do_def upd_acct_def chans_ok_def getChannel_def)

lemma tame_answer_ok: "cmd_ok s \<Longrightarrow> tame cmd_ok (answer code xs s)"
  by (rule tame_mono [OF tame_answer [OF _ only_out_refl]]) (auto simp: cmd_ok_only_out)

lemma on_net_tame:
  assumes "f (se_net s) = Inr n" and "session_ok n" and "chan_keys n = chan_keys (se_net s)" and "cmd_ok s"
  shows "tame cmd_ok (on_net f s)"
  using assms chans_ok_keys [OF assms(3)] by (simp add: on_net_def cmd_ok_def)

lemma user_live: "session_ok n \<Longrightarrow> \<exists>u. nicks n (user_id n) = Some u \<and> nk_class u = CUser"
  using session_host by (simp add: host_ok_def)

lemma view_keys: "view s' = view s \<Longrightarrow> chan_keys s' = chan_keys s"
proof -
  assume v: "view s' = view s"
  have "map_option ch_name (chans s' c) = map_option ch_name (chans s c)" for c
  proof -
    have "map_option (\<lambda>ch. (ch_name ch, ch_class ch, ch_cbuddies ch, ch_conv ch, ch_upserver ch)) (chans s' c) =
        map_option (\<lambda>ch. (ch_name ch, ch_class ch, ch_cbuddies ch, ch_conv ch, ch_upserver ch)) (chans s c)"
      using v by (simp add: view_def fun_eq_iff)
    then show ?thesis by (cases "chans s' c"; cases "chans s c") auto
  qed
  then show ?thesis using v by (simp add: chan_keys_def view_def fun_eq_iff)
qed

lemma join_tame:
  assumes "cmd_ok s" and "chans (se_net s) c = Some ch"
  shows "tame cmd_ok (on_net (\<lambda>n. bindE (join w (user_id n) c st n) (\<lambda>(_, n1). Inr n1)) s)"
proof -
  have so: "session_ok (se_net s)" using assms(1) by (simp add: cmd_ok_def)
  obtain u where u: "nicks (se_net s) (user_id (se_net s)) = Some u" using user_live [OF so] by blast
  obtain v n1 where j: "join w (user_id (se_net s)) c st (se_net s) = Inr (v, n1)" "session_ok n1" "view n1 = view (se_net s)"
    using inv_join [OF so u assms(2), of w st] by blast
  have "chans_ok n1" using chans_ok_keys [OF view_keys [OF j(3)]] assms(1) unfolding cmd_ok_def by blast
  then show ?thesis using j(1,2) by (simp add: on_net_def cmd_ok_def)
qed

lemma joinChat_ok:
  assumes "x_connected x a" and "cmd_ok s" and "se_im s"
  shows "\<exists>joined s1. joinChat x a nm q s = Inr (joined, s1) \<and> cmd_ok s1 \<and> se_im s1"
proof -
  have frame: "cmd_ok (im_do_s c s)" "se_im (im_do_s c s)" for c
    using assms(2,3) cmd_ok_frame(1) by (simp_all add: im_do_s_def)
  have live: "\<exists>nk. nicks (se_net s) n = Some nk" if "getNick (se_net s) nm False = Some n" for n
    using getNick_live [OF _ that] assms(2) by (auto simp: cmd_ok_def)
  show ?thesis
  proof (cases "x_supports_chats x a")
    case True
    then show ?thesis using assms frame by (cases "x_new_chat x a nm (chat_parameters q)") (auto simp: joinChat_def)
  next
    case False
    note s = assms this
    show ?thesis
    proof (cases "x_buddy_menu x a")
      case (Some f)
      show ?thesis
      proof (cases "getNick (se_net s) nm False")
        case (Some n)
        obtain nk where nk: "nicks (se_net s) n = Some nk" using live [OF Some] by blast
        show ?thesis using s frame \<open>x_buddy_menu x a = Some f\<close> Some nk
          by (cases "nk_class nk") (auto simp: joinChat_def)
      qed (use s \<open>x_buddy_menu x a = Some f\<close> in \<open>auto simp: joinChat_def\<close>)
    qed (use s in \<open>auto simp: joinChat_def\<close>)
  qed
qed

lemma join_conv_tame: "cmd_ok s \<Longrightarrow> se_im s \<Longrightarrow> tame (\<lambda>s'. cmd_ok s' \<and> se_im s') (join_conv x nm p s)"
proof -
  assume ok: "cmd_ok s" and im: "se_im s"
  have a: "tame (\<lambda>s'. cmd_ok s' \<and> se_im s') (no_such_channel nm s1)" if "cmd_ok s1" "se_im s1" for s1
    unfolding no_such_channel_def
    by (rule tame_mono [OF tame_answer [OF that(1) only_out_refl]]) (use that cmd_ok_only_out only_outD(8) in blast)
  have j: "tame (\<lambda>s'. cmd_ok s' \<and> se_im s') (bindE (joinChat x ac cn q s) (\<lambda>(joined, s1). if \<not> joined then no_such_channel nm s1
      else Inr (s1\<lparr>se_net := (se_net s1)\<lparr>timers := timers (se_net s1) @ [JoinCheck nm]\<rparr>\<rparr>)))" if conn: "x_connected x ac" for ac cn q
  proof -
    obtain joined s1 where s1: "joinChat x ac cn q s = Inr (joined, s1)" "cmd_ok s1" "se_im s1"
      using joinChat_ok [OF conn ok im] by blast
    then show ?thesis using a [of s1] by (simp add: cmd_ok_frame(3))
  qed
  show ?thesis
    using ok im j by (auto simp: join_conv_def Let_def cmd_ok_frame upd_acct_def [where f = "enqueueChannelJoin _"] intro!: a split: prod.split option.split)
      (simp_all add: cmd_ok_def chans_ok_def getChannel_def)
qed

definition im_ok :: "session \<Rightarrow> bool" where
  "im_ok s \<longleftrightarrow> cmd_ok s \<and> se_im s"

lemma im_ok_only_out: "only_out s s' \<Longrightarrow> im_ok s' = im_ok s"
  by (simp add: im_ok_def cmd_ok_only_out only_outD(8))

lemma tame_answer_im: "im_ok s \<Longrightarrow> tame im_ok (answer code xs s)"
proof -
  assume ok: "im_ok s"
  then have "cmd_ok s" by (simp add: im_ok_def)
  from tame_answer [OF this only_out_refl] show ?thesis by (rule tame_mono) (use ok im_ok_only_out in blast)
qed

lemma tame_keeps_im: "tame cmd_ok (on_net f s) \<Longrightarrow> se_im s \<Longrightarrow> tame im_ok (on_net f s)"
  by (cases "f (se_net s)") (simp_all add: on_net_def im_ok_def)

lemma join_loop_tame: "im_ok s \<Longrightarrow> tame im_ok (join_loop x names parameters s)"
proof (induction names arbitrary: parameters s)
  case (Cons nm names)
  have go: "tame im_ok (bindE r (join_loop x names p))" if "tame im_ok r" for r p
    using that Cons.IH by (rule tame_bind)
  have none: "tame im_ok (bindE (no_such_channel nm s) (join_loop x names p))" for p
    by (rule go) (simp add: no_such_channel_def tame_answer_im Cons.prems)
  obtain p rest where st: "stringtok parameters '','' = (p, rest)" by force
  show ?case
  proof (cases "getChannel (se_net s) nm")
    case None
    have "tame im_ok (join_conv x nm (x_url_decode x p) s)"
      using join_conv_tame [of s x nm "x_url_decode x p"] Cons.prems unfolding im_ok_def by blast
    then have "tame im_ok (bindE (join_conv x nm (x_url_decode x p) s) (join_loop x names rest))" by (rule go)
    then show ?thesis using None none st by simp
  next
    case (Some c)
    then obtain ch where "chans (se_net s) c = Some ch" using Cons.prems by (auto simp: im_ok_def cmd_ok_def chans_ok_def)
    then have "tame im_ok (on_net (\<lambda>n. bindE (join (sworld x s) (user_id n) c (w_op (x_world x)) n) (\<lambda>(_, n1). Inr n1)) s)"
      using join_tame Cons.prems tame_keeps_im unfolding im_ok_def by blast
    then show ?thesis using Some none go Cons.IH [OF Cons.prems] by simp
  qed
qed simp

lemma part_tame:
  assumes "cmd_ok s" and "chans (se_net s) c = Some ch"
  shows "tame cmd_ok (on_net (part (user_id (se_net s)) c reason) s)"
proof -
  have so: "session_ok (se_net s)" using assms(1) by (simp add: cmd_ok_def)
  obtain u where u: "nicks (se_net s) (user_id (se_net s)) = Some u" using user_live [OF so] by blast
  from part_ok [OF so u assms(2), of reason] obtain n where
    "part (user_id (se_net s)) c reason (se_net s) = Inr n" "session_ok n" "chan_keys n = chan_keys (se_net s)" by blast
  then show ?thesis by (intro on_net_tame [of "part (user_id (se_net s)) c reason" s n]) (use assms(1) in simp_all)
qed

lemma frame_keys: "frame s' = frame s \<Longrightarrow> chan_keys s' = chan_keys s"
proof -
  assume f: "frame s' = frame s"
  have "map_option ch_name (chans s' c) = map_option ch_name (chans s c)" for c
  proof -
    have "map_option (\<lambda>ch. (ch_name ch, ch_topic ch, ch_class ch, ch_accounts ch, ch_conv ch, ch_queue ch)) (chans s' c) =
        map_option (\<lambda>ch. (ch_name ch, ch_topic ch, ch_class ch, ch_accounts ch, ch_conv ch, ch_queue ch)) (chans s c)"
      using f by (simp add: frame_def fun_eq_iff)
    then show ?thesis by (cases "chans s' c"; cases "chans s c") auto
  qed
  then show ?thesis using f by (simp add: chan_keys_def frame_def fun_eq_iff)
qed

lemma notice_user_tame: "cmd_ok s \<Longrightarrow> tame cmd_ok (notice_user x msg s)"
  using notice_user_ok [OF cmd_ok_host, of s x msg] cmd_ok_only_out by fastforce

lemma m_kill_tame:
  assumes "cmd_ok s" and "1 \<le> countArgs m"
  shows "tame cmd_ok (m_kill x m s)"
proof (cases "getNick (se_net s) (msg_args m ! 0) False")
  case None
  then show ?thesis using assms by (cases "msg_args m") (simp_all add: m_kill_def getArg_def tame_answer_ok)
next
  case (Some n)
  have so: "session_ok (se_net s)" using assms(1) by (simp add: cmd_ok_def)
  obtain nk where nk: "nicks (se_net s) n = Some nk" using getNick_live [OF so Some] by blast
  obtain sv where sv: "servs (se_net s) (nk_server nk) = Some sv" using reg_okD(4) [OF invD(5) [OF so] nk] by blast
  obtain u where u: "the_user s = Inr u" using cmd_ok_host [OF assms(1)] by (auto simp: host_ok_def the_user_def)
  have quit: "tame cmd_ok (bindE (notice_user x t s) (\<lambda>s1. bindE (on_net (quit_nick n q) s1) (\<lambda>s2. Inr (im_do_s r s2))))"
    if b: "nk_class nk = CBuddy b" for t q r b
  proof -
    obtain s1 where s1: "notice_user x t s = Inr s1" "only_out s s1" using notice_user_ok [OF cmd_ok_host [OF assms(1)]] by blast
    have ok1: "cmd_ok s1" using cmd_ok_only_out [OF s1(2)] assms(1) by simp
    have so1: "session_ok (se_net s1)" using ok1 by (simp add: cmd_ok_def)
    have nk1: "nicks (se_net s1) n = Some nk" using only_outD(1) [OF s1(2)] nk by simp
    have "stays (se_net s1) n" using nk1 b by (simp add: stays_def)
    from quit_nick_ok [OF so1 nk1 this, of q] obtain n2 where
      n2: "quit_nick n q (se_net s1) = Inr n2" "session_ok n2" "frame n2 = frame (se_net s1)" by blast
    have "tame cmd_ok (on_net (quit_nick n q) s1)" by (rule on_net_tame [of "quit_nick n q" s1 n2]) (use n2 frame_keys [OF n2(3)] ok1 in simp_all)
    then show ?thesis using s1(1) by (auto simp: cmd_ok_frame intro!: tame_bind [where P = cmd_ok])
  qed
  show ?thesis
    using assms Some nk sv u quit
    by (auto simp: m_kill_def getArg_def Let_def intro!: tame_answer_ok notice_user_tame split: nick_class.split option.split)
qed

section \<open>Properties\<close>

text \<open>A consistent session with the user on a status channel, for the examples.\<close>

lemma sample_cmd_ok: "im_ok (sample_state\<lparr>se_im := True\<rparr>)"
  by (simp add: im_ok_def cmd_ok_def sample_state_def sample_net_def IRC_members_def session_ok_def all_ok_def net_ok_def cb_ok_def env_ok_def
      reg_ok_def chans_ok_def getChannel_def sample_user_def sample_buddy_def has_space_def map_wf_def)

text \<open>
  C16: In a consistent session the queries \<open>VERSION\<close>, \<open>INFO\<close>, \<open>MOTD\<close>, \<open>WHO\<close>, \<open>WHOWAS\<close>, \<open>ISON\<close> and \<open>NAMES\<close>
  answer without changing anything but the output: no dangling pointer is read, and the only
  exception is \<open>MalformedMessage\<close>.
\<close>

theorem queries_only_answer:
  assumes "cmd_ok s"
  shows "(\<forall>handle \<in> {m_version x, m_info x, m_motd, m_who x}. tame (only_out s) (handle m s)) \<and>
    (\<forall>handle \<in> {m_whowas, m_ison x, m_names x}. msg_args m \<noteq> [] \<longrightarrow> tame (only_out s) (handle m s))"
proof -
  have "1 \<le> countArgs m" if "msg_args m \<noteq> []" using that by (cases "msg_args m") auto
  then show ?thesis
    using version.reads info.reads motd.reads who.reads whowas.reads ison.reads names.reads assms by auto
qed

theorem queries_only_answer_witness:
  "let m = \<lparr>msg_cmd = ''WHOWAS'', msg_sender = no_entity, msg_receiver = no_entity, msg_args = [''bob'']\<rparr>
   in tame (only_out sample_state) (m_who sample_env m sample_state) \<and> tame (only_out sample_state) (m_motd m sample_state) \<and>
     tame (only_out sample_state) (m_whowas m sample_state) \<and> tame (only_out sample_state) (m_ison sample_env m sample_state)"
proof -
  have "cmd_ok sample_state" using sample_cmd_ok by (simp add: im_ok_def cmd_ok_def)
  from queries_only_answer [OF this, of sample_env "\<lparr>msg_cmd = ''WHOWAS'', msg_sender = no_entity, msg_receiver = no_entity, msg_args = [''bob'']\<rparr>"]
  show ?thesis by (simp add: Let_def)
qed

text \<open>
  C13: \<open>JOIN\<close> with any list of channels and parameters, \<open>PART\<close> and \<open>KILL\<close> keep a registered session
  consistent, and end in no other exception than \<open>MalformedMessage\<close>.
\<close>

theorem membership_commands_keep_consistency:
  assumes "im_ok s" and "msg_args m \<noteq> []"
  shows "tame cmd_ok (m_join x m s) \<and> tame cmd_ok (m_part m s) \<and> tame cmd_ok (m_kill x m s)"
proof (intro conjI)
  obtain a as where args: "msg_args m = a # as" using assms(2) by (cases "msg_args m") auto
  have ok: "cmd_ok s" using assms(1) by (simp add: im_ok_def)
  obtain p where p: "(if countArgs m > 1 then getArg m 1 else Inr []) = Inr p"
    using args by (cases as) (auto simp: getArg_def)
  have "tame im_ok (join_loop x (tokens a '','') p s)" using join_loop_tame [OF assms(1)] .
  then have "tame cmd_ok (join_loop x (tokens a '','') p s)" by (rule tame_mono) (simp add: im_ok_def)
  then show "tame cmd_ok (m_join x m s)" using args p by (simp add: m_join_def getArg_def)
  show "tame cmd_ok (m_part m s)"
    using args p part_tame [OF ok] ok
    by (auto simp: m_part_def getArg_def cmd_ok_only_out intro!: with_channel_tame)
  show "tame cmd_ok (m_kill x m s)" using m_kill_tame [OF ok] args by simp
qed

theorem membership_commands_keep_consistency_witness:
  "let s = sample_state\<lparr>se_im := True\<rparr>; m = \<lparr>msg_cmd = ''JOIN'', msg_sender = no_entity, msg_receiver = no_entity, msg_args = [''#a:b,&x'']\<rparr>
   in tame cmd_ok (m_join sample_env m s) \<and> tame cmd_ok (m_part m s) \<and> tame cmd_ok (m_kill sample_env m s)"
  unfolding Let_def by (rule membership_commands_keep_consistency [OF sample_cmd_ok]) simp

end
