(* ===== verification/Daemon_Fork.thy ===== *)
theory Daemon_Fork
  imports Session
begin

text \<open>
  The server polls: \<open>DaemonForkServerPoll\<close> of \<open>src/src/server_poll/daemon_fork.cpp\<close>, whose object
  lives in the master process and, after a fork, in every child, and \<open>InetdServerPoll\<close>. The master
  has one \<open>child_t\<close> per client and no \<open>IRC\<close> object; a child has one \<open>IRC\<close> object, its session,
  and the other end of the socket pair. They exchange lines in the format of IRC messages.

  The record \<open>dpoll\<close> is the object. \<open>dp_in\<close> holds the bytes that have arrived on a descriptor and
  were not read yet, \<open>dp_out\<close> the bytes written to one. A \<open>child_t\<close> is named by its descriptor.
\<close>

section \<open>State\<close>

record child =
  cd_fd :: int
  cd_username :: string

record dpoll =
  dp_irc :: "session option"
  dp_maxcon :: int
  dp_sock :: int
  dp_reading :: bool
  dp_childs :: "child list"
  dp_in :: "int \<Rightarrow> string"
  dp_out :: "int \<Rightarrow> string"
  dp_closed :: "int list"
  dp_quit :: bool
  dp_logged :: "32 word"
  dp_to_syslog :: bool
  dp_syslog :: "(syslog_level \<times> string) list"
  dp_stdout :: "string list"

text \<open>
  The environment: what a session reads, how many bytes \<open>write\<close> takes of a text (or a number that
  is not positive), and the text of \<open>errno\<close>.
\<close>

record denv =
  dv_session :: senv
  dv_write :: "int \<Rightarrow> string \<Rightarrow> int"
  dv_errno :: string

section \<open>Logging and sending\<close>

text \<open>
  \<open>b_log[flag] << str\<close> with this poll: a child sends the line to its user; the master prints what is
  not a server notice.
\<close>

definition dlog :: "denv \<Rightarrow> 32 word \<Rightarrow> string \<Rightarrow> dpoll \<Rightarrow> exn + dpoll" where
  "dlog e flag str p =
     (case dp_irc p of
        Some s \<Rightarrow> bindE (b_log (dv_session e) flag str s) (\<lambda>s1. Inr (p\<lparr>dp_irc := Some s1\<rparr>))
      | None \<Rightarrow>
          let (sys, line) = flux (dp_logged p) (dp_to_syslog p) flag str
          in Inr (p\<lparr>dp_syslog := dp_syslog p @ (case sys of None \<Rightarrow> [] | Some l \<Rightarrow> [l]),
                   dp_stdout := dp_stdout p @ (case line of Some l \<Rightarrow> if flag AND W_SNO = 0 then [l] else [] | None \<Rightarrow> [])\<rparr>))"

text \<open>The text of an IPC message, which has no sender and no receiver.\<close>

definition wire :: "irc_msg \<Rightarrow> string" where
  "wire m = format (\<lambda>_. []) (\<lambda>_. []) m"

definition sent :: "int \<Rightarrow> string \<Rightarrow> dpoll \<Rightarrow> dpoll" where
  "sent fd t p = p\<lparr>dp_out := (dp_out p)(fd := dp_out p fd @ t)\<rparr>"

definition fd_write :: "denv \<Rightarrow> int \<Rightarrow> irc_msg \<Rightarrow> dpoll \<Rightarrow> exn + bool \<times> dpoll" where
  "fd_write e fd m p =
     (let msg = wire m; r = dv_write e fd msg
      in if r \<le> 0 then bindE (dlog e W_ERR (''Error while sending: '' @ dv_errno e) p) (\<lambda>p1. Inr (False, p1))
         else Inr (True, sent fd (take (nat r) msg) p))"

definition ipc_master_send :: "denv \<Rightarrow> child \<Rightarrow> irc_msg \<Rightarrow> dpoll \<Rightarrow> exn + bool \<times> dpoll" where
  "ipc_master_send e c m p = fd_write e (cd_fd c) m p"

definition ipc_master_broadcast :: "denv \<Rightarrow> irc_msg \<Rightarrow> int option \<Rightarrow> dpoll \<Rightarrow> exn + bool \<times> dpoll" where
  "ipc_master_broadcast e m butone p =
     foldE (\<lambda>c (ret, p).
         if butone \<noteq> Some (cd_fd c) then bindE (ipc_master_send e c m p) (\<lambda>(ok, p1). Inr (ret \<or> ok, p1)) else Inr (ret, p))
       (dp_childs p) (False, p)"

definition ipc_child_send :: "denv \<Rightarrow> irc_msg \<Rightarrow> dpoll \<Rightarrow> exn + bool \<times> dpoll" where
  "ipc_child_send e m p = (if dp_sock p < 0 then Inr (False, p) else fd_write e (dp_sock p) m p)"

definition poll_ipc_send :: "denv \<Rightarrow> irc_msg \<Rightarrow> dpoll \<Rightarrow> exn + bool \<times> dpoll" where
  "poll_ipc_send e m p = (if dp_irc p \<noteq> None then ipc_child_send e m p else ipc_master_broadcast e m None p)"

definition poll_rehash :: "denv \<Rightarrow> dpoll \<Rightarrow> exn + dpoll" where
  "poll_rehash e p =
     (case dp_irc p of
        Some s \<Rightarrow> bindE (rehash (dv_session e) True s) (\<lambda>s1. Inr (p\<lparr>dp_irc := Some s1\<rparr>))
      | None \<Rightarrow> bindE (ipc_master_broadcast e (Message ''REHASH'') None p) (\<lambda>(_, p1). Inr p1))"

section \<open>IPC commands\<close>

text \<open>The first argument of a handler is the child the message came from, none in a child.\<close>

definition relay :: "denv \<Rightarrow> irc_msg \<Rightarrow> int option \<Rightarrow> dpoll \<Rightarrow> exn + dpoll" where
  "relay e m butone p = bindE (ipc_master_broadcast e m butone p) (\<lambda>(_, p1). Inr p1)"

definition ipc_m_oper :: "denv \<Rightarrow> int option \<Rightarrow> irc_msg \<Rightarrow> dpoll \<Rightarrow> exn + dpoll" where
  "ipc_m_oper e child m p =
     bindE (if child \<noteq> None then relay e m child p else Inr p) (\<lambda>p1.
     bindE (getArg m 0) (\<lambda>n. dlog e (W_SNO OR W_INFO) (n @ '' is now an IRC Operator!'') p1))"

definition ipc_m_wallops :: "denv \<Rightarrow> int option \<Rightarrow> irc_msg \<Rightarrow> dpoll \<Rightarrow> exn + dpoll" where
  "ipc_m_wallops e child m p =
     (if child \<noteq> None then relay e m None p
      else case dp_irc p of
        None \<Rightarrow> Inr p
      | Some s \<Rightarrow>
          bindE (getArg m 0) (\<lambda>n.
          bindE (getArg m 1) (\<lambda>t.
          bindE (addArg t (setSenderName n (Message ''WALLOPS''))) (\<lambda>w.
          bindE (on_net (deliver (user_id (se_net s)) w) s) (\<lambda>s1. Inr (p\<lparr>dp_irc := Some s1\<rparr>))))))"

definition ipc_m_rehash :: "denv \<Rightarrow> int option \<Rightarrow> irc_msg \<Rightarrow> dpoll \<Rightarrow> exn + dpoll" where
  "ipc_m_rehash e child m p = poll_rehash e p"

definition ipc_m_die :: "denv \<Rightarrow> int option \<Rightarrow> irc_msg \<Rightarrow> dpoll \<Rightarrow> exn + dpoll" where
  "ipc_m_die e child m p =
     bindE (if child \<noteq> None then relay e m None p else Inr p) (\<lambda>p1.
     bindE (getArg m 0) (\<lambda>n.
     bindE (getArg m 1) (\<lambda>t.
     bindE (dlog e (W_SNO OR W_INFO) (''Shutdown requested by '' @ n @ '': '' @ t) p1) (\<lambda>p2.
       case dp_irc p2 of
         Some s \<Rightarrow> bindE (quit (''Shutdown requested by '' @ n) s) (\<lambda>s1. Inr (p2\<lparr>dp_irc := Some s1\<rparr>))
       | None \<Rightarrow> Inr (p2\<lparr>dp_quit := True\<rparr>)))))"

definition set_username :: "int \<Rightarrow> string \<Rightarrow> dpoll \<Rightarrow> dpoll" where
  "set_username fd n p = p\<lparr>dp_childs := map (\<lambda>c. if cd_fd c = fd then c\<lparr>cd_username := n\<rparr> else c) (dp_childs p)\<rparr>"

definition another_location :: string where
  "another_location = ''You are logged from another location.''"

definition ipc_m_user :: "denv \<Rightarrow> int option \<Rightarrow> irc_msg \<Rightarrow> dpoll \<Rightarrow> exn + dpoll" where
  "ipc_m_user e child m p =
     (case child of
        None \<Rightarrow> Inr p
      | Some fd \<Rightarrow>
          bindE (getArg m 0) (\<lambda>n.
            let p1 = set_username fd n p
            in foldE (\<lambda>c p. if cd_fd c \<noteq> fd \<and> strlower (cd_username c) = strlower n
                 then bindE (addArgs [n, another_location] (Message ''DIE'')) (\<lambda>d.
                      bindE (ipc_master_send e c d p) (\<lambda>(_, p2). Inr p2))
                 else Inr p) (dp_childs p1) p1))"

datatype ipc_cmd = IpcWallops | IpcRehash | IpcDie | IpcOper | IpcUser

definition ipc_cmds :: "(string \<times> ipc_cmd \<times> nat) list" where
  "ipc_cmds = [(''WALLOPS'', IpcWallops, 2), (''REHASH'', IpcRehash, 0), (''DIE'', IpcDie, 2), (''OPER'', IpcOper, 1), (''USER'', IpcUser, 1)]"

definition ipc_func :: "ipc_cmd \<Rightarrow> denv \<Rightarrow> int option \<Rightarrow> irc_msg \<Rightarrow> dpoll \<Rightarrow> exn + dpoll" where
  "ipc_func f = (case f of IpcWallops \<Rightarrow> ipc_m_wallops | IpcRehash \<Rightarrow> ipc_m_rehash | IpcDie \<Rightarrow> ipc_m_die
     | IpcOper \<Rightarrow> ipc_m_oper | IpcUser \<Rightarrow> ipc_m_user)"

section \<open>Reading\<close>

text \<open>\<open>strstr(buf, "\r\n")\<close>: the position of the first line end.\<close>

fun find_crlf :: "string \<Rightarrow> nat option" where
  "find_crlf (a # b # s) = (if a = CHR 0x0D \<and> b = CHR 0x0A then Some 0 else map_option Suc (find_crlf (b # s)))"
| "find_crlf _ = None"

text \<open>
  What is done with a line: the command is looked up, and called when it has enough arguments.
\<close>

definition ipc_line :: "denv \<Rightarrow> int option \<Rightarrow> string \<Rightarrow> dpoll \<Rightarrow> exn + dpoll" where
  "ipc_line e child buf p =
     bindE (parse buf) (\<lambda>m.
       case map_of ipc_cmds (msg_cmd m) of
         None \<Rightarrow> dlog e W_WARNING (''Received unknown command from IPC: '' @ buf) p
       | Some (f, min_args) \<Rightarrow>
           if countArgs m < min_args then dlog e W_WARNING (''Received malformated command from IPC: '' @ buf) p
           else ipc_func f e child m p)"

text \<open>
  The callback of a descriptor that is ready. \<open>data\<close> is the child, none in a child process; \<open>hangup\<close>
  says that the other end has closed. The bytes are looked at with \<open>MSG_PEEK\<close>, at most 511 of them
  as a C string; a complete line is then taken from the socket.
\<close>

definition ipc_gone :: "denv \<Rightarrow> int option \<Rightarrow> dpoll \<Rightarrow> exn + bool \<times> dpoll" where
  "ipc_gone e data p =
     (case data of
        Some fd \<Rightarrow>
          bindE (dlog e W_INFO (''IPC: a child left: '' @ dv_errno e) p) (\<lambda>p1.
            Inr (False, p1\<lparr>dp_childs := filter (\<lambda>c. cd_fd c \<noteq> fd) (dp_childs p1), dp_closed := dp_closed p1 @ [fd]\<rparr>))
      | None \<Rightarrow>
          bindE (dlog e (W_INFO OR W_SNO) (''IPC: master left: '' @ dv_errno e) p) (\<lambda>p1.
            Inr (False, p1\<lparr>dp_reading := False, dp_closed := dp_closed p1 @ [dp_sock p1], dp_sock := - 1\<rparr>)))"

definition ipc_read :: "denv \<Rightarrow> int option \<Rightarrow> bool \<Rightarrow> dpoll \<Rightarrow> exn + bool \<times> dpoll" where
  "ipc_read e data hangup p =
     (let fd = (case data of Some fd \<Rightarrow> fd | None \<Rightarrow> dp_sock p);
          buf = takeWhile (\<lambda>c. c \<noteq> CHR 0x00) (take 511 (dp_in p fd))
      in if dp_in p fd = [] then if hangup then ipc_gone e data p else Inr (True, p)
         else case find_crlf buf of
           None \<Rightarrow> Inr (True, p)
         | Some eol \<Rightarrow>
             bindE (ipc_line e data (take eol buf) (p\<lparr>dp_in := (dp_in p)(fd := drop (eol + 2) (dp_in p fd))\<rparr>)) (\<lambda>p1.
               Inr (True, p1)))"

section \<open>Connections\<close>

text \<open>
  What a new connection meets: the results of \<open>accept\<close>, \<open>socketpair\<close> and \<open>fork\<close>, and in the child the
  session the constructor of \<open>IRC\<close> makes or the reason it throws.
\<close>

record conn =
  cn_socket :: int
  cn_pair :: "(int \<times> int) option"
  cn_fork :: int
  cn_irc :: "string + session"

definition too_much :: string where
  "too_much = ''ERROR :Closing Link: Too much connections on server'' @ CRLF @ [CHR 0x00]"

definition new_client_cb :: "denv \<Rightarrow> conn \<Rightarrow> dpoll \<Rightarrow> exn + dpoll" where
  "new_client_cb e cn p =
     (if cn_socket cn < 0 then dlog e W_WARNING (''Could not accept new connection: '' @ dv_errno e) p
      else if dp_maxcon p > 0 \<and> int (length (dp_childs p)) \<ge> dp_maxcon p
      then Inr ((sent (cn_socket cn) too_much p)\<lparr>dp_closed := dp_closed p @ [cn_socket cn]\<rparr>)
      else
        bindE (if cn_pair cn = None then dlog e W_WARNING (''Unable to create IPC socket for client: '' @ dv_errno e) p else Inr p) (\<lambda>p1.
          let fds = (case cn_pair cn of Some fds \<Rightarrow> fds | None \<Rightarrow> (-1, -1))
          in if cn_fork cn < 0
             then bindE (dlog e W_ERR (''Unable to fork while receiving a new connection: '' @ dv_errno e) p1) (\<lambda>p2.
                    Inr (p2\<lparr>dp_closed := dp_closed p2 @ [cn_socket cn]\<rparr>))
             else if cn_fork cn > 0
             then bindE (dlog e W_INFO (''Creating new process with pid '' @ t2s_int (cn_fork cn)) p1) (\<lambda>p2.
                    let p3 = p2\<lparr>dp_closed := dp_closed p2 @ [cn_socket cn]\<rparr>
                    in Inr (if fst fds \<ge> 0
                            then p3\<lparr>dp_childs := dp_childs p3 @ [\<lparr>cd_fd = fst fds, cd_username = []\<rparr>], dp_closed := dp_closed p3 @ [snd fds]\<rparr>
                            else p3))
             else
               let p2 = p1\<lparr>dp_closed := dp_closed p1 @ [dp_sock p1], dp_sock := - 1, dp_reading := False\<rparr>;
                   p3 = (if snd fds \<ge> 0
                         then p2\<lparr>dp_sock := snd fds, dp_reading := True, dp_closed := dp_closed p2 @ [fst fds] @ map cd_fd (dp_childs p2),
                                 dp_childs := []\<rparr>
                         else p2)
               in case cn_irc cn of
                    Inr s \<Rightarrow> Inr (p3\<lparr>dp_irc := Some s\<rparr>)
                  | Inl reason \<Rightarrow>
                      bindE (dlog e W_ERR (''Unable to start the IRC daemon: '' @ reason) p3) (\<lambda>p4. Inr (p4\<lparr>dp_quit := True\<rparr>))))"

text \<open>\<open>stopServer_cb\<close>, which the zero timeout of \<open>kill\<close> runs, and the destructor.\<close>

definition stopServer_cb :: "dpoll \<Rightarrow> bool \<times> dpoll" where
  "stopServer_cb p = (False, p\<lparr>dp_irc := None, dp_quit := True\<rparr>)"

definition poll_dtor :: "dpoll \<Rightarrow> dpoll" where
  "poll_dtor p = p\<lparr>dp_reading := False, dp_irc := None, dp_childs := [],
     dp_closed := dp_closed p @ (if dp_sock p \<ge> 0 then [dp_sock p] else []) @ map cd_fd (dp_childs p)\<rparr>"

text \<open>
  \<open>ServerPoll::log\<close> of \<open>InetdServerPoll\<close> and its \<open>rehash\<close>: it always has one session, or none once
  it is stopped.
\<close>

definition inetd_log :: "senv \<Rightarrow> 32 word \<Rightarrow> string \<Rightarrow> session option \<Rightarrow> exn + session option" where
  "inetd_log x level msg irc =
     (case irc of
        None \<Rightarrow> if tokens msg [CHR 0x0A, CHR 0x0D] = [] then Inr None else Inl NullPointer
      | Some s \<Rightarrow> bindE (poll_log x level msg s) (\<lambda>s1. Inr (Some s1)))"

definition inetd_rehash :: "senv \<Rightarrow> session option \<Rightarrow> exn + session option" where
  "inetd_rehash x irc = (case irc of None \<Rightarrow> Inr None | Some s \<Rightarrow> bindE (rehash x True s) (\<lambda>s1. Inr (Some s1)))"

text \<open>\<open>ServerPoll::build\<close>: the kind of poll of a mode number; the other modes throw.\<close>

datatype poll_type = Inetd | DaemonFork

definition build :: "int \<Rightarrow> poll_type option" where
  "build mode = (if mode = 0 then Some Inetd else if mode = 2 then Some DaemonFork else None)"

end
