(* ===== verification/Daemon_Props.thy ===== *)
theory Daemon_Props
  imports Daemon_Fork Session_Props
begin

text \<open>
  What the daemon promises: the number of children it keeps is bounded, the byte streams between
  its processes are queues of messages, and a second login of a user ends the first one.
\<close>

section \<open>The byte stream\<close>

text \<open>
  Messages the processes can exchange: the ones the wire format carries, without the bytes that
  end a line or a C string.
\<close>

definition clean :: "string \<Rightarrow> bool" where
  "clean s \<longleftrightarrow> CHR 0x0D \<notin> set s \<and> CHR 0x00 \<notin> set s"

definition ipc_ok :: "irc_msg \<Rightarrow> bool" where
  "ipc_ok m \<longleftrightarrow> printable m \<and> anonymous m \<and> clean (msg_cmd m) \<and> (\<forall>a\<in>set (msg_args m). clean a)"

lemma clean_simps [simp]:
  "clean []" "clean (c # s) \<longleftrightarrow> c \<noteq> CHR 0x0D \<and> c \<noteq> CHR 0x00 \<and> clean s" "clean (s @ t) \<longleftrightarrow> clean s \<and> clean t"
  by (auto simp: clean_def)

lemma clean_format_arg [simp]: "clean (format_arg a) \<longleftrightarrow> clean a"
  by (simp add: format_arg_def)

lemma clean_concat: "clean (concat ss) \<longleftrightarrow> (\<forall>s\<in>set ss. clean s)"
  by (induction ss) simp_all

lemma wire_line: "ipc_ok m \<Longrightarrow> \<exists>line. wire m = line @ CRLF \<and> parse line = Inr m \<and> clean line"
proof -
  assume ok: "ipc_ok m"
  then obtain line where l: "wire m = line @ CRLF" "parse line = Inr m"
    using parse_format [of m "\<lambda>_. []" "\<lambda>_. []"] by (auto simp: ipc_ok_def wire_def)
  moreover have "clean (msg_cmd m @ concat (map format_arg (msg_args m)))" using ok by (simp add: ipc_ok_def clean_concat)
  moreover have "wire m = (msg_cmd m @ concat (map format_arg (msg_args m))) @ CRLF"
    using ok by (simp add: wire_def format_anonymous ipc_ok_def)
  ultimately show ?thesis by auto
qed

lemma find_crlf_line: "clean line \<Longrightarrow> find_crlf (line @ CRLF @ s) = Some (length line)"
proof (induction line)
  case (Cons a l)
  then show ?case by (cases l) (auto simp: CRLF_def)
qed (simp add: CRLF_def)

lemma find_crlf_no_CR: "CHR 0x0D \<notin> set s \<Longrightarrow> find_crlf s = None"
  by (induction s rule: find_crlf.induct) auto

lemma find_crlf_cut: "clean line \<Longrightarrow> n < length (line @ CRLF) \<Longrightarrow> find_crlf (take n (line @ CRLF @ s)) = None"
proof (induction line arbitrary: n)
  case Nil
  then have "n = 0 \<or> n = 1" by (auto simp: CRLF_def)
  then show ?case by (auto simp: CRLF_def)
next
  case (Cons a l)
  show ?case
  proof (cases n)
    case (Suc k)
    then have "find_crlf (take k (l @ CRLF @ s)) = None" using Cons by simp
    moreover have "a \<noteq> CHR 0x0D" using Cons.prems by simp
    moreover have "find_crlf (c # t) = None" if "find_crlf t = None" "c \<noteq> CHR 0x0D" for c t using that by (cases t) simp_all
    ultimately show ?thesis unfolding Suc append_Cons take_Suc_Cons by blast
  qed simp
qed

lemma c_str: "CHR 0x00 \<notin> set s \<Longrightarrow> takeWhile (\<lambda>c. c \<noteq> CHR 0x00) s = s"
  by (simp add: takeWhile_eq_all_conv) (metis)

lemma wire_no_NUL: "ipc_ok m \<Longrightarrow> CHR 0x00 \<notin> set (wire m)"
  using wire_line [of m] by (auto simp: clean_def CRLF_def)

text \<open>What a reader sees of a stream of messages, and what it makes of the first one.\<close>

abbreviation stream :: "irc_msg list \<Rightarrow> string" where
  "stream ms \<equiv> concat (map wire ms)"

abbreviation peek :: "string \<Rightarrow> string" where
  "peek b \<equiv> takeWhile (\<lambda>c. c \<noteq> CHR 0x00) (take 511 b)"

lemma peek_stream: "\<forall>m\<in>set ms. ipc_ok m \<Longrightarrow> b @ flight = stream ms \<Longrightarrow> peek b = take 511 b"
proof (rule c_str)
  assume ok: "\<forall>m\<in>set ms. ipc_ok m" and b: "b @ flight = stream ms"
  have "CHR 0x00 \<notin> set (stream ms)" using ok wire_no_NUL by auto
  then have "CHR 0x00 \<notin> set b" by (metis UnCI b set_append)
  then show "CHR 0x00 \<notin> set (take 511 b)" by (meson in_set_takeD)
qed

lemma take_prefix: "b @ f = xs \<Longrightarrow> n \<le> length b \<Longrightarrow> take n b = take n xs"
  by auto

lemma find_in_stream:
  assumes "\<forall>m\<in>set (m # ms). ipc_ok m" and "b @ flight = stream (m # ms)"
  shows "find_crlf (peek b) = (if length (wire m) \<le> min 511 (length b) then Some (length (wire m) - 2) else None)"
proof -
  obtain line where l: "wire m = line @ CRLF" "clean line" using wire_line [of m] assms(1) by auto
  let ?n = "min 511 (length b)"
  have p: "peek b = take ?n (line @ CRLF @ stream ms)"
  proof -
    have "peek b = take ?n b" using peek_stream [OF assms] by (simp add: min_def)
    also have "\<dots> = take ?n (stream (m # ms))" using take_prefix [OF assms(2)] by simp
    finally show ?thesis using l(1) by simp
  qed
  show ?thesis
  proof (cases "length (wire m) \<le> ?n")
    case True
    then have "take ?n (line @ CRLF @ stream ms) = line @ CRLF @ take (?n - length (wire m)) (stream ms)"
      using l(1) take_append [of ?n "line @ CRLF" "stream ms"] by (auto simp: min_def)
    then show ?thesis using find_crlf_line [OF l(2)] True l(1) unfolding p by (simp add: CRLF_def)
  next
    case False
    have "find_crlf (take ?n (line @ CRLF @ stream ms)) = None"
      by (rule find_crlf_cut [OF l(2)]) (use False l(1) in \<open>auto simp: not_le\<close>)
    then show ?thesis by (simp only: p False if_False)
  qed
qed

definition chan_fd :: "int option \<Rightarrow> dpoll \<Rightarrow> int" where
  "chan_fd data p = (case data of Some fd \<Rightarrow> fd | None \<Rightarrow> dp_sock p)"

definition set_in :: "int \<Rightarrow> string \<Rightarrow> dpoll \<Rightarrow> dpoll" where
  "set_in fd b p = p\<lparr>dp_in := (dp_in p)(fd := b)\<rparr>"

text \<open>The specification of one read: the handler of the next message of a queue.\<close>

definition ipc_msg_run :: "denv \<Rightarrow> int option \<Rightarrow> irc_msg \<Rightarrow> dpoll \<Rightarrow> exn + dpoll" where
  "ipc_msg_run e data m p =
     (case map_of ipc_cmds (msg_cmd m) of
        Some (f, k) \<Rightarrow> if k \<le> countArgs m then ipc_func f e data m p
                       else dlog e W_WARNING (''Received malformated command from IPC: '' @ butlast (butlast (wire m))) p
      | None \<Rightarrow> dlog e W_WARNING (''Received unknown command from IPC: '' @ butlast (butlast (wire m))) p)"

lemma ipc_read_next:
  assumes "\<forall>m\<in>set (m # ms). ipc_ok m" and "dp_in p fd @ flight = stream (m # ms)" and "fd = chan_fd data p"
    and "length (wire m) \<le> min 511 (length (dp_in p fd))"
  shows "ipc_read e data hangup p =
    bindE (ipc_msg_run e data m (set_in fd (drop (length (wire m)) (dp_in p fd)) p)) (\<lambda>p1. Inr (True, p1))"
proof -
  obtain line where l: "wire m = line @ CRLF" "parse line = Inr m" using wire_line [of m] assms(1) by auto
  have f: "find_crlf (peek (dp_in p fd)) = Some (length line)"
    using find_in_stream [OF assms(1,2)] assms(4) l(1) by (simp add: CRLF_def)
  have ne: "dp_in p fd \<noteq> []" using assms(4) l(1) by (auto simp: CRLF_def)
  have t: "take (length line) (peek (dp_in p fd)) = line"
  proof -
    have n: "length line \<le> 511" "length line \<le> length (dp_in p fd)" using assms(4) l(1) by auto
    have "take (length line) (dp_in p fd) = take (length line) (stream (m # ms))"
      using take_prefix [OF assms(2)] n(2) by simp
    also have "\<dots> = line" using l(1) by simp
    finally have "take (length line) (take 511 (dp_in p fd)) = line" using n(1) by (simp add: min_absorb1)
    then show ?thesis unfolding peek_stream [OF assms(1,2)] .
  qed
  have d: "length line + 2 = length (wire m)" using l(1) by (simp add: CRLF_def)
  have b: "butlast (butlast (wire m)) = line" using l(1) by (simp add: CRLF_def butlast_append)
  show ?thesis
    using assms(3) f ne l(2) d b t
    by (simp add: ipc_read_def chan_fd_def [symmetric] Let_def ipc_line_def ipc_msg_run_def set_in_def not_le [symmetric] split: option.split)
qed

lemma ipc_read_waits:
  assumes "\<forall>m\<in>set ms. ipc_ok m" and "dp_in p fd @ flight = stream ms" and "fd = chan_fd data p"
    and "ms = [] \<or> min 511 (length (dp_in p fd)) < length (wire (hd ms))"
  shows "ipc_read e data False p = Inr (True, p)"
proof (cases "dp_in p fd = []")
  case False
  then obtain m ms' where ms: "ms = m # ms'" using assms(2) by (cases ms) auto
  have "find_crlf (peek (dp_in p fd)) = None"
    using find_in_stream [of m ms' "dp_in p fd" flight] assms(1,2,4) ms by (simp add: not_le [symmetric] del: min_less_iff_conj min_less_iff_disj)
  then show ?thesis using False assms(3) by (simp add: ipc_read_def chan_fd_def [symmetric] Let_def)
qed (use assms(3) in \<open>simp add: ipc_read_def chan_fd_def [symmetric] Let_def\<close>)

section \<open>Frames\<close>

text \<open>Logging in the master touches only the logs; in a child only the output of its session.\<close>

lemma dlog_master: "dp_irc p = None \<Longrightarrow> \<exists>l t. dlog e flag str p = Inr (p\<lparr>dp_syslog := l, dp_stdout := t\<rparr>)"
  by (auto simp: dlog_def split: prod.split)

lemma fd_write_master:
  assumes "dp_irc p = None"
  shows "\<exists>ok p1. fd_write e fd m p = Inr (ok, p1) \<and> dp_irc p1 = None \<and> dp_childs p1 = dp_childs p \<and> dp_maxcon p1 = dp_maxcon p \<and> dp_sock p1 = dp_sock p"
proof -
  obtain l t where "dlog e W_ERR (''Error while sending: '' @ dv_errno e) p = Inr (p\<lparr>dp_syslog := l, dp_stdout := t\<rparr>)"
    using dlog_master [OF assms] by blast
  then show ?thesis using assms by (auto simp: fd_write_def Let_def sent_def)
qed

lemma broadcast_master:
  assumes "dp_irc p = None"
  shows "\<exists>ok p1. ipc_master_broadcast e m but p = Inr (ok, p1) \<and> dp_irc p1 = None \<and> dp_childs p1 = dp_childs p \<and> dp_maxcon p1 = dp_maxcon p \<and> dp_sock p1 = dp_sock p"
proof -
  have "\<exists>ok p1. foldE (\<lambda>c (ret, p). if but \<noteq> Some (cd_fd c) then bindE (ipc_master_send e c m p) (\<lambda>(ok, p1). Inr (ret \<or> ok, p1)) else Inr (ret, p))
      cs (r, q) = Inr (ok, p1) \<and> dp_irc p1 = None \<and> dp_childs p1 = dp_childs q \<and> dp_maxcon p1 = dp_maxcon q \<and> dp_sock p1 = dp_sock q"
    if "dp_irc q = None" for cs r q
    using that
  proof (induction cs arbitrary: r q)
    case (Cons c cs)
    obtain ok p1 where s: "ipc_master_send e c m q = Inr (ok, p1)" "dp_irc p1 = None" "dp_childs p1 = dp_childs q" "dp_maxcon p1 = dp_maxcon q" "dp_sock p1 = dp_sock q"
      using fd_write_master [OF Cons.prems] unfolding ipc_master_send_def by blast
    show ?case using Cons.IH [OF s(2), of "r \<or> ok"] Cons.IH [OF Cons.prems, of r] s by (cases "but = Some (cd_fd c)") auto
  qed simp
  then show ?thesis using assms by (simp add: ipc_master_broadcast_def)
qed

section \<open>The master\<close>

text \<open>What every operation of the master keeps: it has no session, and no more children than before.\<close>

definition master_step :: "dpoll \<Rightarrow> dpoll \<Rightarrow> bool" where
  "master_step p p1 \<longleftrightarrow> dp_irc p1 = None \<and> length (dp_childs p1) \<le> length (dp_childs p) \<and> dp_maxcon p1 = dp_maxcon p"

lemma master_step_refl: "dp_irc p = None \<Longrightarrow> master_step p p"
  by (simp add: master_step_def)

lemma master_step_trans: "master_step p p1 \<Longrightarrow> master_step p1 p2 \<Longrightarrow> master_step p p2"
  by (simp add: master_step_def)

lemma dlog_step: "dp_irc p = None \<Longrightarrow> dlog e f t p = Inr p1 \<Longrightarrow> master_step p p1"
  using dlog_master [of p e f t] by (auto simp: master_step_def)

lemma relay_step: "dp_irc p = None \<Longrightarrow> relay e m but p = Inr p1 \<Longrightarrow> master_step p p1"
  using broadcast_master [of p e m but] by (auto simp: master_step_def relay_def)

lemma relay_returns: "dp_irc p = None \<Longrightarrow> \<exists>p1. relay e m but p = Inr p1 \<and> dp_irc p1 = None"
  using broadcast_master [of p e m but] by (auto simp: relay_def)

lemma user_step:
  assumes "dp_irc p = None" and "ipc_m_user e (Some fd) m p = Inr p2"
  shows "master_step p p2"
proof -
  obtain n where n: "getArg m 0 = Inr n" using assms(2) by (auto simp: ipc_m_user_def bindE_Inr_iff)
  define f where "f = (\<lambda>c p. if cd_fd c \<noteq> fd \<and> strlower (cd_username c) = strlower n
                 then bindE (addArgs [n, another_location] (Message ''DIE'')) (\<lambda>d.
                      bindE (ipc_master_send e c d p) (\<lambda>(_, p2). Inr p2))
                 else Inr p)"
  have step: "master_step q q1" if "dp_irc q = None" "f c q = Inr q1" for c q q1
    using that
  proof (cases "cd_fd c \<noteq> fd \<and> strlower (cd_username c) = strlower n")
    case True
    then obtain d where "bindE (ipc_master_send e c d q) (\<lambda>(_, p2). Inr p2) = Inr q1"
      using \<open>f c q = Inr q1\<close> by (auto simp: f_def bindE_Inr_iff)
    then show ?thesis using fd_write_master [OF \<open>dp_irc q = None\<close>, of e "cd_fd c" d] by (auto simp: ipc_master_send_def master_step_def)
  qed (use that in \<open>auto simp: f_def master_step_refl\<close>)
  have "master_step q q1" if "dp_irc q = None" "foldE f cs q = Inr q1" for cs q q1
    using that
  proof (induction cs arbitrary: q)
    case (Cons c cs)
    obtain q2 where q2: "f c q = Inr q2" "foldE f cs q2 = Inr q1" using Cons.prems(2) by (auto simp: bindE_Inr_iff)
    have "master_step q q2" using step Cons.prems(1) q2(1) .
    then show ?case using Cons.IH [of q2] q2(2) master_step_trans by (auto simp: master_step_def)
  qed (simp add: master_step_refl)
  moreover have "foldE f (dp_childs (set_username fd n p)) (set_username fd n p) = Inr p2"
    using assms(2) n by (simp add: ipc_m_user_def f_def Let_def)
  ultimately have "master_step (set_username fd n p) p2" using assms(1) by (auto simp: set_username_def)
  then show ?thesis by (simp add: master_step_def set_username_def)
qed

lemma ipc_func_step:
  assumes "dp_irc p = None" and "ipc_func f e (Some fd) m p = Inr p1"
  shows "master_step p p1"
proof (cases f)
  case IpcWallops
  then show ?thesis using assms relay_step by (simp add: ipc_func_def ipc_m_wallops_def)
next
  case IpcRehash
  then have "relay e (Message ''REHASH'') None p = Inr p1" using assms by (simp add: ipc_func_def ipc_m_rehash_def poll_rehash_def relay_def)
  then show ?thesis using relay_step assms(1) by blast
next
  case IpcDie
  then obtain n t q p2 where q: "relay e m None p = Inr q" "dlog e (W_SNO OR W_INFO) (''Shutdown requested by '' @ n @ '': '' @ t) q = Inr p2"
      "(case dp_irc p2 of Some s \<Rightarrow> bindE (quit (''Shutdown requested by '' @ n) s) (\<lambda>s1. Inr (p2\<lparr>dp_irc := Some s1\<rparr>)) | None \<Rightarrow> Inr (p2\<lparr>dp_quit := True\<rparr>)) = Inr p1"
    using assms(2) by (auto simp: ipc_func_def ipc_m_die_def bindE_Inr_iff)
  have "master_step p q" using relay_step assms(1) q(1) by blast
  moreover have "master_step q p2" using dlog_step [OF _ q(2)] calculation by (simp add: master_step_def)
  ultimately show ?thesis using q(3) by (auto simp: master_step_def)
next
  case IpcOper
  then obtain n q where q: "relay e m (Some fd) p = Inr q" "dlog e (W_SNO OR W_INFO) (n @ '' is now an IRC Operator!'') q = Inr p1"
    using assms(2) by (auto simp: ipc_func_def ipc_m_oper_def bindE_Inr_iff)
  have "master_step p q" using relay_step assms(1) q(1) by blast
  then show ?thesis using dlog_step [OF _ q(2)] by (auto simp: master_step_def)
next
  case IpcUser
  then show ?thesis using assms user_step by (simp add: ipc_func_def)
qed

lemma ipc_read_step:
  assumes "dp_irc p = None" and "ipc_read e (Some fd) hangup p = Inr (b, p1)"
  shows "master_step p p1"
proof -
  have gone: "master_step p p1" if "ipc_gone e (Some fd) p = Inr (b, p1)"
  proof -
    obtain q where q: "dlog e W_INFO (''IPC: a child left: '' @ dv_errno e) p = Inr q"
        "p1 = q\<lparr>dp_childs := filter (\<lambda>c. cd_fd c \<noteq> fd) (dp_childs q), dp_closed := dp_closed q @ [fd]\<rparr>"
      using \<open>ipc_gone e (Some fd) p = Inr (b, p1)\<close> by (auto simp: ipc_gone_def bindE_Inr_iff)
    then show ?thesis
      using dlog_step [OF assms(1) q(1)] le_trans [OF length_filter_le [of "\<lambda>c. cd_fd c \<noteq> fd" "dp_childs q"]] by (simp add: master_step_def)
  qed
  have line: "master_step p q" if "ipc_line e (Some fd) l (p\<lparr>dp_in := i\<rparr>) = Inr q" for l i q
  proof -
    let ?p = "p\<lparr>dp_in := i\<rparr>"
    have none: "dp_irc ?p = None" using assms(1) by simp
    obtain m :: irc_msg where "parse l = Inr m" using \<open>ipc_line e (Some fd) l ?p = Inr q\<close> by (auto simp: ipc_line_def bindE_Inr_iff)
    then have "master_step ?p q"
      using \<open>ipc_line e (Some fd) l ?p = Inr q\<close> ipc_func_step [OF none] dlog_step [OF none]
      by (auto simp: ipc_line_def split: option.splits if_splits prod.splits)
    then show ?thesis by (simp add: master_step_def)
  qed
  show ?thesis
    using assms gone line master_step_refl [OF assms(1)]
    by (auto simp: ipc_read_def Let_def bindE_Inr_iff split: if_splits option.splits)
qed

lemma new_client_parent:
  assumes "dp_irc p = None" and "cn_fork cn \<noteq> 0" and "new_client_cb e cn p = Inr p1"
  shows "dp_irc p1 = None \<and> dp_maxcon p1 = dp_maxcon p \<and>
    (length (dp_childs p1) \<le> length (dp_childs p) \<or>
     length (dp_childs p1) = Suc (length (dp_childs p)) \<and> \<not> (0 < dp_maxcon p \<and> dp_maxcon p \<le> int (length (dp_childs p))))"
proof -
  have log: "dp_irc q1 = None \<and> dp_maxcon q1 = dp_maxcon q \<and> dp_childs q1 = dp_childs q" if "dp_irc q = None" "dlog e f t q = Inr q1" for q q1 f t
    using dlog_master [OF that(1), of e f t] that by auto
  consider "cn_socket cn < 0" | "0 \<le> cn_socket cn" "0 < dp_maxcon p \<and> dp_maxcon p \<le> int (length (dp_childs p))"
    | "0 \<le> cn_socket cn" "\<not> (0 < dp_maxcon p \<and> dp_maxcon p \<le> int (length (dp_childs p)))" by linarith
  then show ?thesis
  proof cases
    case 1
    then show ?thesis using assms log [OF assms(1)] by (auto simp: new_client_cb_def)
  next
    case 2
    then show ?thesis using assms by (auto simp: new_client_cb_def sent_def)
  next
    case 3
    define fds where "fds = (case cn_pair cn of Some fds \<Rightarrow> fds | None \<Rightarrow> (-1, -1))"
    obtain q where q: "(if cn_pair cn = None then dlog e W_WARNING (''Unable to create IPC socket for client: '' @ dv_errno e) p else Inr p) = Inr q"
      using assms(3) 3 unfolding new_client_cb_def by (simp add: bindE_Inr_iff del: bindE_simps) blast
    have qp: "dp_irc q = None" "dp_maxcon q = dp_maxcon p" "dp_childs q = dp_childs p"
      using q log [OF assms(1)] assms(1) by (auto split: if_splits)
    show ?thesis
    proof (cases "cn_fork cn < 0")
      case True
      then show ?thesis using assms(3) 3 q qp log [OF qp(1)] unfolding new_client_cb_def by (auto simp: Let_def bindE_Inr_iff)
    next
      case False
      then obtain r where "dlog e W_INFO (''Creating new process with pid '' @ t2s_int (cn_fork cn)) q = Inr r"
          "p1 = (let p3 = r\<lparr>dp_closed := dp_closed r @ [cn_socket cn]\<rparr>
                 in if fst fds \<ge> 0
                    then p3\<lparr>dp_childs := dp_childs p3 @ [\<lparr>cd_fd = fst fds, cd_username = []\<rparr>], dp_closed := dp_closed p3 @ [snd fds]\<rparr>
                    else p3)"
        using assms(2,3) 3 q unfolding new_client_cb_def fds_def by (auto simp: Let_def bindE_Inr_iff)
      then show ?thesis using log [OF qp(1)] qp 3 by (auto simp: Let_def)
    qed
  qed
qed

text \<open>The states of the master: connections, readable sockets and arriving bytes in any order.\<close>

inductive master_run :: "denv \<Rightarrow> int \<Rightarrow> dpoll \<Rightarrow> bool" for e mc where
  start: "dp_irc p = None \<Longrightarrow> dp_childs p = [] \<Longrightarrow> dp_maxcon p = mc \<Longrightarrow> master_run e mc p"
| connection: "master_run e mc p \<Longrightarrow> cn_fork cn \<noteq> 0 \<Longrightarrow> new_client_cb e cn p = Inr p1 \<Longrightarrow> master_run e mc p1"
| readable: "master_run e mc p \<Longrightarrow> ipc_read e (Some fd) hangup p = Inr (b, p1) \<Longrightarrow> master_run e mc p1"
| arrival: "master_run e mc p \<Longrightarrow> master_run e mc (set_in fd b p)"
| sending: "master_run e mc p \<Longrightarrow> poll_ipc_send e m p = Inr (ok, p1) \<Longrightarrow> master_run e mc p1"

lemma master_inv: "master_run e mc p \<Longrightarrow> dp_irc p = None \<and> dp_maxcon p = mc \<and> (0 < mc \<longrightarrow> int (length (dp_childs p)) \<le> mc)"
proof (induction rule: master_run.induct)
  case (connection p cn p1)
  then show ?case using new_client_parent [of p cn e p1] by auto
next
  case (readable p fd hangup b p1)
  then show ?case using ipc_read_step [of p e fd hangup b p1] by (auto simp: master_step_def)
next
  case (sending p m ok p1)
  then show ?case using broadcast_master [of p e m None] by (auto simp: poll_ipc_send_def)
qed (simp_all add: set_in_def)

section \<open>One login per user\<close>

definition writes_all :: "denv \<Rightarrow> bool" where
  "writes_all e \<longleftrightarrow> (\<forall>fd t. dv_write e fd t = int (length t))"

definition die_msg :: "string \<Rightarrow> irc_msg" where
  "die_msg n = \<lparr>msg_cmd = ''DIE'', msg_sender = no_entity, msg_receiver = no_entity, msg_args = [n, another_location]\<rparr>"

lemma wire_nonempty [simp]: "wire m \<noteq> []"
  by (simp add: wire_def format_def CRLF_def)

lemma fd_write_all: "writes_all e \<Longrightarrow> fd_write e fd m p = Inr (True, sent fd (wire m) p)"
  by (simp add: fd_write_def writes_all_def Let_def)

definition rival :: "int \<Rightarrow> string \<Rightarrow> child \<Rightarrow> bool" where
  "rival fd n c \<longleftrightarrow> cd_fd c \<noteq> fd \<and> strlower (cd_username c) = strlower n"

lemma user_writes:
  assumes "writes_all e" and "getArg m 0 = Inr n" and "\<not> has_space n" and "distinct (map cd_fd (dp_childs p))"
  shows "\<exists>p1. ipc_m_user e (Some fd) m p = Inr p1 \<and> dp_childs p1 = dp_childs (set_username fd n p) \<and>
    (\<forall>c\<in>set (dp_childs p). dp_out p1 (cd_fd c) = dp_out p (cd_fd c) @ (if rival fd n c then wire (die_msg n) else []))"
proof -
  define f where "f = (\<lambda>c p. if cd_fd c \<noteq> fd \<and> strlower (cd_username c) = strlower n
                 then bindE (addArgs [n, another_location] (Message ''DIE'')) (\<lambda>d.
                      bindE (ipc_master_send e c d p) (\<lambda>(_, p2). Inr p2))
                 else Inr p)"
  have d: "addArgs [n, another_location] (Message ''DIE'') = Inr (die_msg n)"
    unfolding addArgs_Message using assms(3) by (simp add: Message_def die_msg_def)
  have f_eq: "f c q = Inr (if rival fd n c then sent (cd_fd c) (wire (die_msg n)) q else q)" for c q
    by (simp add: f_def rival_def ipc_master_send_def fd_write_all [OF assms(1)] d)
  have fold: "\<exists>q1. foldE f cs q = Inr q1 \<and> dp_childs q1 = dp_childs q \<and>
      (\<forall>c\<in>set cs. dp_out q1 (cd_fd c) = dp_out q (cd_fd c) @ (if rival fd n c then wire (die_msg n) else [])) \<and>
      (\<forall>g. g \<notin> cd_fd ` set cs \<longrightarrow> dp_out q1 g = dp_out q g)"
    if "distinct (map cd_fd cs)" for cs q
    using that
  proof (induction cs arbitrary: q)
    case (Cons c cs)
    let ?q = "if rival fd n c then sent (cd_fd c) (wire (die_msg n)) q else q"
    obtain q1 where q1: "foldE f cs ?q = Inr q1" "dp_childs q1 = dp_childs ?q"
        "\<forall>c'\<in>set cs. dp_out q1 (cd_fd c') = dp_out ?q (cd_fd c') @ (if rival fd n c' then wire (die_msg n) else [])"
        "\<forall>g. g \<notin> cd_fd ` set cs \<longrightarrow> dp_out q1 g = dp_out ?q g"
      using Cons.IH [of ?q] Cons.prems by auto
    have c: "cd_fd c \<notin> cd_fd ` set cs" using Cons.prems by simp
    have "dp_out ?q g = dp_out q g" if "g \<noteq> cd_fd c" for g using that by (simp add: sent_def)
    moreover have "dp_out ?q (cd_fd c) = dp_out q (cd_fd c) @ (if rival fd n c then wire (die_msg n) else [])" by (simp add: sent_def)
    moreover have "dp_childs ?q = dp_childs q" by (simp add: sent_def)
    moreover have "cd_fd c' \<noteq> cd_fd c" if "c' \<in> set cs" for c' using c that by (metis imageI)
    moreover have "foldE f (c # cs) q = foldE f cs ?q" by (simp only: foldE.simps f_eq bindE_simps)
    ultimately show ?case using q1 c by (intro exI [of _ q1]) (simp only: set_simps, simp)
  qed simp
  let ?p = "set_username fd n p"
  have fds: "map cd_fd (dp_childs ?p) = map cd_fd (dp_childs p)" by (simp add: set_username_def)
  obtain p1 where p1: "foldE f (dp_childs ?p) ?p = Inr p1" "dp_childs p1 = dp_childs ?p"
      "\<forall>c\<in>set (dp_childs ?p). dp_out p1 (cd_fd c) = dp_out ?p (cd_fd c) @ (if rival fd n c then wire (die_msg n) else [])"
    using fold [of "dp_childs ?p" ?p] assms(4) fds by auto
  have "dp_out p1 (cd_fd c) = dp_out p (cd_fd c) @ (if rival fd n c then wire (die_msg n) else [])" if "c \<in> set (dp_childs p)" for c
  proof (cases "cd_fd c = fd")
    case True
    then have "c\<lparr>cd_username := n\<rparr> \<in> set (dp_childs ?p)" using that by (auto simp: set_username_def)
    then show ?thesis using p1(3) True by (fastforce simp: rival_def set_username_def)
  next
    case False
    then have "c \<in> set (dp_childs ?p)" using that by (auto simp: set_username_def)
    then show ?thesis using p1(3) by (simp add: set_username_def)
  qed
  then show ?thesis using p1(1,2) assms(2) by (simp add: ipc_m_user_def f_def Let_def)
qed

lemma die_ok: "plain_arg n \<Longrightarrow> clean n \<Longrightarrow> ipc_ok (die_msg n)"
  by (simp add: ipc_ok_def printable_def die_msg_def another_location_def trailing_ok_def has_space_def strupper_def toupper_def)

lemma die_length: "length (wire (die_msg n)) \<le> length n + 60"
  by (simp add: wire_def format_anonymous die_msg_def another_location_def format_arg_def has_space_def CRLF_def)

text \<open>A child that reads the message closes its session.\<close>

lemma child_dies:
  assumes "dp_irc q = Some s" and "host_ok (se_net s)" and "plain_arg n" and "clean n" and "length n \<le> 400"
  shows "\<exists>q1 s1. ipc_read e None hangup (set_in (dp_sock q) (wire (die_msg n)) q) = Inr (True, q1) \<and> dp_irc q1 = Some s1 \<and>
    \<not> sock_open (se_net s1) \<and> se_kills s1 = se_kills s + 1"
proof -
  let ?q = "set_in (dp_sock q) (wire (die_msg n)) q"
  have sock: "chan_fd None ?q = dp_sock q" "dp_in ?q (dp_sock q) = wire (die_msg n)" by (simp_all add: chan_fd_def set_in_def)
  have ok: "\<forall>m\<in>set [die_msg n]. ipc_ok m" using die_ok [OF assms(3,4)] by simp
  have fits: "length (wire (die_msg n)) \<le> min 511 (length (dp_in ?q (dp_sock q)))" using die_length [of n] assms(5) sock(2) by simp
  obtain r where r: "ipc_read e None hangup ?q = bindE (ipc_msg_run e None (die_msg n) r) (\<lambda>p1. Inr (True, p1))" "dp_irc r = Some s"
    using ipc_read_next [OF ok _ sock(1) [symmetric] fits, of "[]" e hangup] sock(2) assms(1) by (simp add: set_in_def)
  obtain s1 where s1: "b_log (dv_session e) (W_SNO OR W_INFO) (''Shutdown requested by '' @ n @ '': '' @ another_location) s = Inr s1" "only_out s s1"
    using b_log_ok [OF assms(2)] by blast
  obtain s2 where s2: "quit (''Shutdown requested by '' @ n) s1 = Inr s2" "closed s1 s2"
    using quit_closed [of s1 s1 "''Shutdown requested by '' @ n"] only_outD(3) [OF s1(2)] assms(2) by auto
  have "ipc_msg_run e None (die_msg n) r = Inr (r\<lparr>dp_irc := Some s2\<rparr>)"
    using r(2) s1(1) s2(1)
    by (simp add: ipc_msg_run_def ipc_cmds_def die_msg_def ipc_func_def ipc_m_die_def getArg_def dlog_def)
  then show ?thesis using r(1) s2(2) only_outD(10) [OF s1(2)] by (simp add: closed_def)
qed

section \<open>Properties\<close>

text \<open>
  C17: The socket between two processes of the daemon is a queue of messages. Let the messages
  \<open>ms\<close> be the ones written and not read yet, of which some bytes have arrived and the rest is in
  flight. When the first one is complete (and no longer than the 511 bytes the reader looks at),
  one read handles exactly this message and leaves exactly the bytes of the others; otherwise the
  read changes nothing and waits.
\<close>

theorem ipc_refines_queue:
  fixes ms :: "irc_msg list"
  defines "fits p data \<equiv> ms \<noteq> [] \<and> length (wire (hd ms)) \<le> min 511 (length (dp_in p (chan_fd data p)))"
  assumes "\<forall>m\<in>set ms. ipc_ok m" and "dp_in p (chan_fd data p) @ flight = concat (map wire ms)"
  shows "if fits p data
    then \<exists>b. b @ flight = concat (map wire (tl ms)) \<and>
      ipc_read e data False p = bindE (ipc_msg_run e data (hd ms) (set_in (chan_fd data p) b p)) (\<lambda>p1. Inr (True, p1))
    else ipc_read e data False p = Inr (True, p)"
proof (cases "fits p data")
  case True
  then obtain m ms' where ms: "ms = m # ms'" "length (wire m) \<le> min 511 (length (dp_in p (chan_fd data p)))"
    unfolding fits_def by (cases ms) auto
  let ?b = "drop (length (wire m)) (dp_in p (chan_fd data p))"
  have "drop (length (wire m)) (dp_in p (chan_fd data p) @ flight) = stream ms'" using assms(3) ms(1) by simp
  then have "?b @ flight = stream ms'" using ms(2) by simp
  then show ?thesis using True ipc_read_next [of m ms' p _ flight data e False] assms(2,3) ms by auto
next
  case False
  have "ms = [] \<or> min 511 (length (dp_in p (chan_fd data p))) < length (wire (hd ms))"
    using False unfolding fits_def by (auto simp: not_le)
  then show ?thesis using False ipc_read_waits [OF assms(2,3) refl] by simp
qed

text \<open>
  C20: A message whose wire form is longer than 511 bytes blocks its socket for good: the reader looks
  at 511 bytes, finds no line end, and leaves them; whatever arrives later is never read, even
  after the other end has closed. A client line may have 1023 bytes, so \<open>WALLOPS\<close> and \<open>DIE\<close> with a
  long text do this.
\<close>

theorem long_message_blocks:
  assumes "ipc_ok m" and "511 < length (wire m)"
  shows "ipc_read e data hangup (set_in (chan_fd data p) (wire m @ later) p) = Inr (True, set_in (chan_fd data p) (wire m @ later) p)"
proof -
  let ?p = "set_in (chan_fd data p) (wire m @ later) p" and ?b = "wire m"
  have fd: "chan_fd data ?p = chan_fd data p" by (simp add: set_in_def chan_fd_def split: option.split)
  have "find_crlf (peek ?b) = None" using find_in_stream [of m "[]" ?b "[]"] assms by simp
  moreover have i: "dp_in ?p (chan_fd data p) = wire m @ later" by (simp add: set_in_def)
  have "peek (dp_in ?p (chan_fd data p)) = peek ?b" unfolding i using assms(2) by simp
  ultimately have "find_crlf (peek (dp_in ?p (chan_fd data p))) = None" by (simp only:)
  moreover have "dp_in ?p (chan_fd data p) \<noteq> []" unfolding i using assms(2) by auto
  ultimately show ?thesis unfolding ipc_read_def chan_fd_def [symmetric] fd Let_def by simp
qed

definition sample_denv :: denv where
  "sample_denv = \<lparr>dv_session = sample_env, dv_write = (\<lambda>_ t. int (length t)), dv_errno = []\<rparr>"

definition sample_master :: dpoll where
  "sample_master = \<lparr>dp_irc = None, dp_maxcon = 1, dp_sock = 3, dp_reading = True, dp_childs = [], dp_in = (\<lambda>_. []), dp_out = (\<lambda>_. []),
     dp_closed = [], dp_quit = False, dp_logged = DEFAULT_LOGGED_FLAGS, dp_to_syslog = False, dp_syslog = [], dp_stdout = []\<rparr>"

definition sample_oper :: irc_msg where
  "sample_oper = \<lparr>msg_cmd = ''OPER'', msg_sender = no_entity, msg_receiver = no_entity, msg_args = [''bob'']\<rparr>"

lemma sample_oper_ok: "ipc_ok sample_oper" "wire sample_oper = ''OPER bob'' @ CRLF"
  by (simp_all add: sample_oper_def ipc_ok_def printable_def trailing_ok_def has_space_def strupper_def toupper_def
      wire_def format_anonymous format_arg_def)

theorem ipc_refines_queue_witness:
  "\<exists>b. b @ ''R bob'' @ CRLF = concat (map wire [sample_oper]) \<and>
    ipc_read sample_denv (Some 7) False (set_in 7 (''OPER bob'' @ CRLF @ ''OPE'') sample_master) =
    bindE (ipc_msg_run sample_denv (Some 7) sample_oper (set_in 7 b (set_in 7 (''OPER bob'' @ CRLF @ ''OPE'') sample_master))) (\<lambda>p1. Inr (True, p1))"
  using ipc_refines_queue [of "[sample_oper, sample_oper]" "set_in 7 (''OPER bob'' @ CRLF @ ''OPE'') sample_master" "Some 7" "''R bob'' @ CRLF" sample_denv]
  by (simp add: sample_oper_ok chan_fd_def set_in_def CRLF_def)

theorem long_message_blocks_witness:
  "let m = \<lparr>msg_cmd = ''WALLOPS'', msg_sender = no_entity, msg_receiver = no_entity, msg_args = [''bob'', replicate 600 (CHR ''x'')]\<rparr>
   in ipc_read sample_denv (Some 7) True (set_in 7 (wire m @ ''REHASH'' @ CRLF) sample_master) =
      Inr (True, set_in 7 (wire m @ ''REHASH'' @ CRLF) sample_master)"
proof -
  let ?m = "\<lparr>msg_cmd = ''WALLOPS'', msg_sender = no_entity, msg_receiver = no_entity, msg_args = [''bob'', replicate 600 (CHR ''x'')]\<rparr> :: irc_msg"
  have "clean (replicate 600 (CHR ''x''))" "\<not> has_space (replicate 600 (CHR ''x''))" "hd (replicate 600 (CHR ''x'')) = CHR ''x''"
    "last (replicate 600 (CHR ''x'')) = CHR ''x''" "replicate 600 (CHR ''x'') \<noteq> []" "length (replicate 600 (CHR ''x'')) = 600"
    by (simp_all only: clean_def has_space_def set_replicate_conv_if last_replicate hd_replicate length_replicate replicate_empty split: if_splits) simp_all
  note big = this
  have "ipc_ok ?m" by (simp add: ipc_ok_def printable_def plain_arg_def trailing_ok_def has_space_def [of "''bob''"] has_space_def [of "''WALLOPS''"]
      strupper_def toupper_def big)
  moreover have "511 < length (wire ?m)" using big by (simp add: wire_def format_anonymous format_arg_def)
  ultimately show ?thesis using long_message_blocks [of ?m sample_denv "Some 7" True sample_master] by (simp add: chan_fd_def Let_def)
qed

text \<open>
  C18: With \<open>maxcon\<close> set, the master never has more children than that, whatever connections, messages,
  departures and failures it meets; and once it has that many, a new connection is refused without a
  fork: the client gets an error line and its socket is closed.
\<close>

theorem maxcon_bound:
  assumes "master_run e mc p" and "0 < mc"
  shows "int (length (dp_childs p)) \<le> mc \<and>
    (int (length (dp_childs p)) < mc \<or> cn_socket cn < 0 \<or>
     new_client_cb e cn p = Inr ((sent (cn_socket cn) too_much p)\<lparr>dp_closed := dp_closed p @ [cn_socket cn]\<rparr>))"
  using master_inv [OF assms(1)] assms(2) by (auto simp: new_client_cb_def)

definition sample_conn :: conn where
  "sample_conn = \<lparr>cn_socket = 5, cn_pair = Some (7, 8), cn_fork = 100, cn_irc = Inl []\<rparr>"

theorem maxcon_bound_witness:
  "\<exists>p. new_client_cb sample_denv sample_conn sample_master = Inr p \<and> length (dp_childs p) = 1 \<and>
    new_client_cb sample_denv (sample_conn\<lparr>cn_socket := 9\<rparr>) p = Inr ((sent 9 too_much p)\<lparr>dp_closed := dp_closed p @ [9]\<rparr>)"
proof -
  obtain l t where l: "dlog sample_denv W_INFO (''Creating new process with pid '' @ t2s_int 100) sample_master = Inr (sample_master\<lparr>dp_syslog := l, dp_stdout := t\<rparr>)"
    using dlog_master [of sample_master sample_denv W_INFO "''Creating new process with pid '' @ t2s_int 100"] by (auto simp: sample_master_def)
  obtain p where p: "new_client_cb sample_denv sample_conn sample_master = Inr p" "length (dp_childs p) = 1" "dp_maxcon p = 1"
    using l by (simp add: new_client_cb_def sample_conn_def sample_master_def Let_def)
  have "master_run sample_denv 1 sample_master" by (rule master_run.start) (simp_all add: sample_master_def)
  then have run: "master_run sample_denv 1 p" by (rule master_run.connection [OF _ _ p(1)]) (simp add: sample_conn_def)
  from maxcon_bound [OF run, of "sample_conn\<lparr>cn_socket := 9\<rparr>"] show ?thesis using p by (intro exI [of _ p]) simp
qed



end
