(* ===== verification/Account_Props.thy ===== *)
theory Account_Props
  imports Accounts
begin

text \<open>
  Properties of accounts: the identifier of a new account is free, an account has at most one
  reconnection timer, whose delay doubles with every failure, and an option that is set is shown.
\<close>

section \<open>Identifiers\<close>

lemma t2s_inject [simp]: "t2s m = t2s n \<longleftrightarrow> m = n"
  by (metis read_digits_t2s)

lemma numbered_inject: "numbered base i = numbered base j \<longleftrightarrow> i = j"
  using t2s_nonempty [of i] t2s_nonempty [of j] by (auto simp: numbered_def simp del: t2s_nonempty)

text \<open>The walk with the restarts is the search for the first free number.\<close>

lemma new_name_loop_cases:
  assumes "i + fuel < 2 ^ 31"
  shows "\<exists>j\<ge>i. new_name_loop fuel base ids i = Inr j \<and> (\<forall>k. i \<le> k \<and> k < j \<longrightarrow> numbered base k \<in> set ids) \<and>
    (numbered base j \<notin> set ids \<or> j = i + fuel)"
  using assms
proof (induction fuel arbitrary: i)
  case 0
  show ?case by (intro exI [of _ i]) auto
next
  case (Suc fuel)
  show ?case
  proof (cases "numbered base i \<in> set ids")
    case False
    then have "find (\<lambda>ident. ident = numbered base i) ids = None" by (simp add: find_None_iff)
    then show ?thesis using False by (intro exI [of _ i]) auto
  next
    case True
    obtain ident where f: "find (\<lambda>ident. ident = numbered base i) ids = Some ident" "ident = numbered base i"
      using True find_None_iff [of "\<lambda>ident. ident = numbered base i" ids] by (cases "find (\<lambda>ident. ident = numbered base i) ids") (auto simp: find_Some_iff)
    have "new_name_loop (Suc fuel) base ids i = new_name_loop fuel base ids (Suc i)"
    proof (cases "i = 0")
      case False
      then have "s2t_signed 32 (drop (length base) ident) = Inr (int i)"
        using f(2) Suc.prems s2t_signed_t2s [of i 32] by (simp add: numbered_def)
      then show ?thesis using f False by (simp add: nat_add_distrib)
    qed (use f in simp)
    moreover obtain j where j: "Suc i \<le> j" "new_name_loop fuel base ids (Suc i) = Inr j"
        "\<forall>k. Suc i \<le> k \<and> k < j \<longrightarrow> numbered base k \<in> set ids" "numbered base j \<notin> set ids \<or> j = Suc i + fuel"
      using Suc.IH [of "Suc i"] Suc.prems by auto
    moreover have "numbered base k \<in> set ids" if "i \<le> k" "k < j" for k
      using that j(3) True by (cases "k = i") auto
    ultimately show ?thesis by (intro exI [of _ j]) simp
  qed
qed

lemma new_name_loop_free:
  assumes "length ids < fuel" and "fuel < 2 ^ 31"
  shows "\<exists>j. new_name_loop fuel base ids 0 = Inr j \<and> numbered base j \<notin> set ids \<and> (\<forall>k<j. numbered base k \<in> set ids)"
proof -
  obtain j where j: "new_name_loop fuel base ids 0 = Inr j" "\<forall>k<j. numbered base k \<in> set ids" "numbered base j \<notin> set ids \<or> j = fuel"
    using new_name_loop_cases [of 0 fuel base ids] assms(2) by auto
  have "j \<le> length ids"
  proof -
    have "numbered base ` {..<j} \<subseteq> set ids" using j(2) by auto
    moreover have "inj_on (numbered base) {..<j}" by (simp add: inj_on_def numbered_inject)
    ultimately have "card {..<j} \<le> card (set ids)" by (meson List.finite_set card_inj_on_le)
    then show ?thesis using card_length [of ids] by simp
  qed
  then show ?thesis using j assms(1) by auto
qed

section \<open>Reconnection\<close>

text \<open>What can happen to the reconnection timer of an account: \<open>Failed i\<close> is a connection error, for
  which GLib names the new timer \<open>i\<close>; \<open>Fired\<close> is the timer running out.\<close>

datatype net_event = Failed int | Established | Disconnected | Fired

definition account_event :: "acct \<Rightarrow> net_event \<Rightarrow> acct" where
  "account_event ac ev =
     (case ev of
        Failed i \<Rightarrow> snd (delayReconnect i ac)
      | Established \<Rightarrow> removeReconnection ac
      | Disconnected \<Rightarrow> disconnect ac
      | Fired \<Rightarrow> (case ac_pending ac of [] \<Rightarrow> ac | t # ts \<Rightarrow> reconnect (fst t) ac))"

text \<open>The failures since the timer was last reset.\<close>

definition streak :: "net_event list \<Rightarrow> nat" where
  "streak evs = fold (\<lambda>ev k. case ev of Failed _ \<Rightarrow> Suc k | Fired \<Rightarrow> k | _ \<Rightarrow> 0) evs 0"

definition timer_ok :: "acct \<Rightarrow> bool" where
  "timer_ok ac \<longleftrightarrow>
     (ac_pending ac = [] \<and> ac_reconnect_id ac = - 1 \<or> ac_pending ac = [(ac_reconnect_id ac, ac_delay ac * 1000)] \<and> 0 \<le> ac_reconnect_id ac)"

lemma delayReconnect_timer:
  assumes "timer_ok ac" and "0 \<le> i"
  shows "timer_ok (snd (delayReconnect i ac)) \<and> ac_delay (snd (delayReconnect i ac)) = ac_delay ac * 2"
  using assms by (auto simp: timer_ok_def delayReconnect_def source_remove_def Let_def)

lemma removeReconnection_timer:
  "timer_ok ac \<Longrightarrow> ac_pending (removeReconnection ac) = [] \<and> ac_reconnect_id (removeReconnection ac) = - 1 \<and> ac_delay (removeReconnection ac) = 15"
  by (auto simp: timer_ok_def removeReconnection_def source_remove_def Let_def)

lemma reconnect_timer:
  "timer_ok ac \<Longrightarrow> ac_pending ac = t # ts \<Longrightarrow>
    ac_pending (reconnect (fst t) ac) = [] \<and> ac_reconnect_id (reconnect (fst t) ac) = - 1 \<and> ac_delay (reconnect (fst t) ac) = ac_delay ac"
  by (auto simp: timer_ok_def reconnect_def source_remove_def connect_def)

lemma streak_snoc [simp]:
  "streak [] = 0" "streak (evs @ [ev]) = (case ev of Failed _ \<Rightarrow> Suc (streak evs) | Fired \<Rightarrow> streak evs | _ \<Rightarrow> 0)"
  by (simp_all add: streak_def split: net_event.split)

lemma timers_run:
  assumes "\<forall>i. Failed i \<in> set evs \<longrightarrow> 0 \<le> i"
  shows "timer_ok (foldl account_event (Account_new u p) evs) \<and> ac_delay (foldl account_event (Account_new u p) evs) = 15 * 2 ^ streak evs"
  using assms
proof (induction evs rule: rev_induct)
  case (snoc ev evs)
  define ac where "ac = foldl account_event (Account_new u p) evs"
  have ok: "timer_ok ac" "ac_delay ac = 15 * 2 ^ streak evs" using snoc by (simp_all add: ac_def)
  have "timer_ok (account_event ac ev) \<and> ac_delay (account_event ac ev) = 15 * 2 ^ streak (evs @ [ev])"
  proof (cases ev)
    case (Failed i)
    then show ?thesis using delayReconnect_timer [OF ok(1), of i] snoc.prems ok(2) by (simp add: account_event_def)
  next
    case Fired
    then show ?thesis using ok reconnect_timer [OF ok(1)] by (cases "ac_pending ac") (auto simp: account_event_def timer_ok_def)
  qed (use removeReconnection_timer [OF ok(1)] in \<open>auto simp: account_event_def disconnect_def timer_ok_def\<close>)
  then show ?case by (simp add: ac_def)
qed (simp add: timer_ok_def Account_new_def)

section \<open>Options\<close>

lemma t2s_int_signed: "- (2 ^ 31) \<le> i \<Longrightarrow> i < 2 ^ 31 \<Longrightarrow> s2t_signed 32 (t2s_int i) = Inr i"
proof (cases "i < 0")
  case True
  moreover assume "- (2 ^ 31) \<le> i"
  moreover have "read_digits (takeWhile isdigit (t2s n)) = n" for n
  proof -
    have "takeWhile isdigit (t2s n) = t2s n" using t2s_chars by (simp add: takeWhile_eq_all_conv)
    then show ?thesis using read_digits_t2s by metis
  qed
  moreover have "\<not> isspace (CHR ''-'')" by (simp add: isspace_def)
  ultimately show ?thesis by (simp add: s2t_signed_def t2s_int_def split_sign_def)
qed (use s2t_signed_t2s [of "nat i" 32] in \<open>simp add: t2s_int_def\<close>)

text \<open>Where an option of a type is stored, and the values an option takes as they are written.\<close>

definition by_name :: "opt_type \<Rightarrow> bool" where
  "by_name t \<longleftrightarrow> t \<in> {OptStr, OptStrList, OptInt, OptBool}"

definition same_place :: "popt \<Rightarrow> popt \<Rightarrow> bool" where
  "same_place op op' \<longleftrightarrow> (if by_name (po_type op') then po_name op' = po_name op else po_type op' = po_type op)"

definition settable :: "opt_env \<Rightarrow> acct \<Rightarrow> popt \<Rightarrow> bool" where
  "settable e ac op =
     (case po_type op of
        OptBool \<Rightarrow> po_value op \<in> {''true'', ''false''}
      | OptServerAliases \<Rightarrow> po_value op \<in> {''true'', ''false''}
      | OptInt \<Rightarrow> \<exists>i. - (2 ^ 31) \<le> i \<and> i < 2 ^ 31 \<and> po_value op = t2s_int i
      | OptAccid \<Rightarrow> po_value op \<noteq> [] \<and> ac_id ac \<noteq> []
      | OptPassword \<Rightarrow> po_value op \<noteq> []
      | _ \<Rightarrow> True)"

lemma chan_move_account: "chan_move w e a c (ac, s) = Inr (ac1, s1) \<Longrightarrow> ac1 = ac\<lparr>ac_channel := c\<rparr>"
  by (auto simp: chan_move_def bindE_Inr_iff)

lemma set_option_result:
  assumes "set_option w e a op (ac, s) = Inr (None, ac1, s1)" and "settable e ac op"
  shows "current_value ac1 op = Inr (po_value op)"
  using assms chan_move_account [of w e a "po_value op" ac s ac1 s1]
  by (cases "po_type op")
    (auto simp: set_option_def settable_def current_value_def Let_def stored_def bindE_Inr_iff getValueInt_def getValueBool_def
      t2s_int_signed getID_def split: if_splits)

lemma set_option_others:
  assumes "set_option w e a op (ac, s) = Inr (None, ac1, s1)" and "ac_id ac \<noteq> []"
    and "\<not> same_place op op'"
  shows "current_value ac1 op' = current_value ac op'"
proof (cases "po_type op = OptStatusChannel")
  case True
  then have "ac1 = ac \<or> ac1 = ac\<lparr>ac_channel := po_value op\<rparr>"
    using assms(1) chan_move_account [of w e a "po_value op" ac s ac1 s1] by (auto simp: set_option_def Let_def bindE_Inr_iff split: if_splits)
  then show ?thesis using assms(3) True by (cases "po_type op'") (auto simp: current_value_def same_place_def by_name_def)
next
  case False
  then show ?thesis
    using assms
    by (cases "po_type op"; cases "po_type op'")
      (auto simp: set_option_def current_value_def same_place_def by_name_def Let_def stored_def bindE_Inr_iff getID_def split: if_splits)
qed

section \<open>Properties\<close>

text \<open>
  C23: \<open>getNewAccountName\<close> returns whatever the accounts are: its restarting walk ends within one round
  more than there are accounts, with the identifier of the protocol followed by the smallest number
  (none for zero) that no other account of the protocol has.
\<close>

theorem new_account_name_free:
  assumes "length accs + 1 < 2 ^ 31"
  shows "\<exists>j. getNewAccountName p butone accs = Inr (numbered (getID_proto p) j) \<and>
    (\<forall>(a, ac) \<in> set accs. a \<noteq> butone \<and> proto_id (ac_proto ac) = proto_id p \<longrightarrow> ac_id ac \<noteq> numbered (getID_proto p) j) \<and>
    (\<forall>k<j. \<exists>(a, ac) \<in> set accs. a \<noteq> butone \<and> proto_id (ac_proto ac) = proto_id p \<and> ac_id ac = numbered (getID_proto p) k)"
proof -
  define ids where "ids = map (\<lambda>e. ac_id (snd e)) (filter (\<lambda>(a, ac). a \<noteq> butone \<and> proto_id (ac_proto ac) = proto_id p) accs)"
  have "length ids < Suc (length accs)" unfolding ids_def by (simp add: less_Suc_eq_le)
  then obtain j where j: "new_name_loop (Suc (length accs)) (getID_proto p) ids 0 = Inr j"
      "numbered (getID_proto p) j \<notin> set ids" "\<forall>k<j. numbered (getID_proto p) k \<in> set ids"
    using new_name_loop_free [of ids "Suc (length accs)"] assms by auto
  have "x \<in> set ids \<longleftrightarrow> (\<exists>(a, ac) \<in> set accs. a \<noteq> butone \<and> proto_id (ac_proto ac) = proto_id p \<and> ac_id ac = x)" for x
    unfolding ids_def by (auto simp: image_iff split: prod.splits)
  then show ?thesis using j by (intro exI [of _ j]) (auto simp: getNewAccountName_def ids_def [symmetric])
qed

definition sample_protocol :: protocol where
  "sample_protocol = \<lparr>proto_id = ''prpl-irc'', proto_name = ''IRC'', proto_options = []\<rparr>"

theorem new_account_name_free_witness:
  "getNewAccountName sample_protocol 9 [(1, (Account_new ''u'' sample_protocol)\<lparr>ac_id := ''irc1''\<rparr>), (2, (Account_new ''u'' sample_protocol)\<lparr>ac_id := ''irc''\<rparr>)]
     = Inr ''irc2'' \<and> (\<exists>j. ''irc2'' = numbered (getID_proto sample_protocol) j)"
proof -
  let ?accs = "[(1, (Account_new ''u'' sample_protocol)\<lparr>ac_id := ''irc1''\<rparr>), (2, (Account_new ''u'' sample_protocol)\<lparr>ac_id := ''irc''\<rparr>)]"
  have "getNewAccountName sample_protocol 9 ?accs = Inr ''irc2''" by code_simp
  moreover obtain j where "getNewAccountName sample_protocol 9 ?accs = Inr (numbered (getID_proto sample_protocol) j)"
    using new_account_name_free [of ?accs sample_protocol 9] by auto
  ultimately show ?thesis by auto
qed

text \<open>
  C21: Whatever sequence of failures, connections, disconnections and firing timers an account goes
  through, it has at most one reconnection timer, the one it knows the number of; the delay is 15
  seconds doubled once per failure since the last success or disconnection; and disconnecting it
  leaves no timer that would connect it again.
\<close>

theorem one_reconnection_timer:
  assumes "\<forall>i. Failed i \<in> set evs \<longrightarrow> 0 \<le> i" and "ac = foldl account_event (Account_new u p) evs"
  shows "ac_delay ac = 15 * 2 ^ streak evs \<and>
    (ac_pending ac = [] \<or> ac_pending ac = [(ac_reconnect_id ac, ac_delay ac * 1000)]) \<and>
    ac_pending (disconnect ac) = [] \<and> \<not> ac_enabled (disconnect ac)"
  using timers_run [OF assms(1), of u p] assms(2) removeReconnection_timer [of ac] by (auto simp: timer_ok_def disconnect_def)

theorem one_reconnection_timer_witness:
  "let ac = foldl account_event (Account_new ''u'' sample_protocol) [Failed 4, Fired, Failed 5, Failed 6]
   in ac_delay ac = 120 \<and> ac_pending ac = [(6, 120000)] \<and> ac_pending (disconnect ac) = []"
proof -
  let ?evs = "[Failed 4, Fired, Failed 5, Failed 6]"
  have "\<forall>i. Failed i \<in> set ?evs \<longrightarrow> 0 \<le> i" by auto
  note t = one_reconnection_timer [OF this refl, of "''u''" sample_protocol]
  moreover have "streak ?evs = 3" by (simp add: streak_def)
  moreover have "ac_pending (foldl account_event (Account_new ''u'' sample_protocol) ?evs) \<noteq> []"
    "ac_reconnect_id (foldl account_event (Account_new ''u'' sample_protocol) ?evs) = 6"
    by (simp_all add: account_event_def Account_new_def delayReconnect_def source_remove_def reconnect_def connect_def)
  ultimately show ?thesis by (simp add: Let_def)
qed

text \<open>
  An option of an account that is set without an error is shown with the value it was given, for
  every type of option and every value written in the way the type prints it; and no option stored
  in another place changes its value. An empty password or identifier is not a value to store:
  it means "forget the password" and "choose an identifier".
\<close>

lemma option_set_is_shown:
  assumes "set_option w e a op (ac, s) = Inr (None, ac1, s1)" and "settable e ac op" and "ac_id ac \<noteq> []"
  shows "current_value ac1 op = Inr (po_value op) \<and> (same_place op op' \<or> current_value ac1 op' = current_value ac op')"
  using set_option_result [OF assms(1,2)] set_option_others [OF assms(1,3), of op'] by auto

theorem option_set_is_shown_witness:
  "let ac = (Account_new ''u'' sample_protocol)\<lparr>ac_id := ''irc0'', ac_password := ''old''\<rparr>;
       e = \<lparr>oe_connected = False, oe_accounts = [], oe_taken = (\<lambda>_. False), oe_buddies = [], oe_status = [], oe_unset = 0\<rparr>;
       s = IRC_members ''v'' ''h'';
       op = Option_new OptInt ''port'' ''Port'' ''-7''; ac1 = ac\<lparr>ac_ints := [''port'' \<mapsto> - 7]\<rparr>
   in set_option sample_world e 1 op (ac, s) = Inr (None, ac1, s) \<and> current_value ac1 op = Inr ''-7'' \<and>
      current_value ac1 (Option_new OptPassword ''password'' [] []) = Inr ''old''"
proof -
  let ?s = "IRC_members ''v'' ''h''" and ?ac = "(Account_new ''u'' sample_protocol)\<lparr>ac_id := ''irc0'', ac_password := ''old''\<rparr>" and
    ?e = "\<lparr>oe_connected = False, oe_accounts = [], oe_taken = (\<lambda>_. False), oe_buddies = [], oe_status = [], oe_unset = 0\<rparr>" and
    ?op = "Option_new OptInt ''port'' ''Port'' ''-7''" and ?op' = "Option_new OptPassword ''password'' [] []"
  let ?ac1 = "?ac\<lparr>ac_ints := [''port'' \<mapsto> - 7]\<rparr>"
  have "char_of (55 :: nat) = CHR ''7''" by code_simp
  then have v: "t2s_int (- 7) = ''-7''" by (simp add: t2s_int_def t2s.simps)
  then have set: "set_option sample_world ?e 1 ?op (?ac, ?s) = Inr (None, ?ac1, ?s)"
    using t2s_int_signed [of "- 7"] by (simp add: set_option_def Option_new_def getValueInt_def Account_new_def)
  have fits: "settable ?e ?ac ?op" using v by (auto simp: settable_def Option_new_def intro!: exI [of _ "- 7"])
  have "ac_id ?ac \<noteq> []" by simp
  note option_set_is_shown [OF set fits this, of ?op']
  moreover have "\<not> same_place ?op ?op'" "po_value ?op = ''-7''" by (simp_all add: Option_new_def same_place_def by_name_def)
  moreover have "current_value ?ac ?op' = Inr ''old''" by (simp add: current_value_def Option_new_def)
  ultimately show ?thesis using set unfolding Let_def by metis
qed

end
