(* ===== verification/Settings_Props.thy ===== *)
theory Settings_Props
  imports Settings Account_Props Session_Props
begin

text \<open>What the settings promise: a value that is accepted is shown, and no other setting changes.\<close>

section \<open>Lemmas\<close>

text \<open>Updating the buddies of the accounts changes the network state and nothing else of the session.\<close>

definition same_but_net :: "session \<Rightarrow> session \<Rightarrow> bool" where
  "same_but_net s s1 \<longleftrightarrow> (\<exists>n. s1 = s\<lparr>se_net := n\<rparr>)"

lemma same_but_net_on_net: "on_net f s = Inr s1 \<Longrightarrow> same_but_net s s1"
  by (auto simp: on_net_def bindE_Inr_iff same_but_net_def)

lemma same_but_net_trans: "same_but_net s s1 \<Longrightarrow> same_but_net s1 s2 \<Longrightarrow> same_but_net s s2"
  by (auto simp: same_but_net_def)

lemma same_but_net_refl [simp]: "same_but_net s s"
  unfolding same_but_net_def by (rule exI [of _ "se_net s"]) simp

lemma same_but_net_foldE:
  "(\<And>a s s1. f a s = Inr s1 \<Longrightarrow> same_but_net s s1) \<Longrightarrow> foldE f as s = Inr s1 \<Longrightarrow> same_but_net s s1"
proof (induction as arbitrary: s)
  case (Cons a as)
  then obtain s2 where "f a s = Inr s2" "foldE f as s2 = Inr s1" by (auto simp: bindE_Inr_iff)
  then show ?case using Cons.IH Cons.prems(1) same_but_net_trans by blast
qed simp

lemma same_but_net_D: "same_but_net s s1 \<Longrightarrow> se_prefs s1 = se_prefs s \<and> se_auth s1 = se_auth s \<and> se_logged s1 = se_logged s"
  by (auto simp: same_but_net_def)

lemma setVoicedBuddies_prefs:
  assumes "setVoicedBuddies x b s = Inr s1"
  shows "se_prefs s1 = (se_prefs s)\<lparr>pf_voiced_buddies := b\<rparr> \<and> se_auth s1 = se_auth s \<and> se_logged s1 = se_logged s"
proof (cases "pf_voiced_buddies (se_prefs s) = b")
  case True
  then show ?thesis using assms by (auto simp: setVoicedBuddies_def)
next
  case False
  let ?s = "upd_prefs (\<lambda>p. p\<lparr>pf_voiced_buddies := b\<rparr>) s"
  have "same_but_net t t1" if "updatedAllBuddies x a t = Inr t1" for a t t1
    using that unfolding updatedAllBuddies_def by (rule same_but_net_foldE [rotated]) (rule same_but_net_on_net)
  moreover have "foldE (updatedAllBuddies x) (map snd (getAccountsList s)) ?s = Inr s1" using assms False by (simp add: setVoicedBuddies_def)
  ultimately have "same_but_net ?s s1" by (rule same_but_net_foldE)
  then show ?thesis using same_but_net_D [of ?s s1] by (simp add: upd_prefs_def)
qed

text \<open>The values a setting takes as they are written.\<close>

definition takes :: "setting \<Rightarrow> string \<Rightarrow> bool" where
  "takes st v =
     (case st of
        SettingSendDelay \<Rightarrow> \<exists>i. - (2 ^ 31) \<le> i \<and> i < 2 ^ 31 \<and> v = t2s_int i
      | SettingProxyPort \<Rightarrow> \<exists>i. - (2 ^ 31) \<le> i \<and> i < 2 ^ 31 \<and> v = t2s_int i
      | SettingLogLevel \<Rightarrow> formatLoggedFlags (setLoggedFlags v) = v
      | SettingTypingNotice \<Rightarrow> v \<in> {''true'', ''false''}
      | SettingAcceptNoBuddiesMessages \<Rightarrow> v \<in> {''true'', ''false''}
      | SettingVoicedBuddies \<Rightarrow> v \<in> {''true'', ''false''}
      | SettingServerAliases \<Rightarrow> v \<in> {''true'', ''false''}
      | SettingAwayIdle \<Rightarrow> v \<in> {''true'', ''false''}
      | _ \<Rightarrow> True)"

lemmas setting_defs = setValue_def getValue_def set_bool_def bool_value_def bool_text_def upd_prefs_def set_proxy_def Let_def bindE_Inr_iff

lemma set_get:
  assumes "setValue x st v s = Inr (True, s1)" and "takes st v"
  shows "getValue x st s1 = Inr (v, s1)"
proof (cases st)
  case SettingPassword
  then show ?thesis using assms by (auto simp: setting_defs setPassword_def getPassword_def split: option.splits mechanism.splits if_splits)
next
  case SettingVoicedBuddies
  then show ?thesis using assms setVoicedBuddies_prefs [of x _ s s1] by (auto simp: setting_defs takes_def split: if_splits)
qed (use assms in \<open>auto simp: setting_defs takes_def t2s_int_signed split: if_splits option.splits\<close>)

text \<open>What a setting shows is a function of the preferences and the logged flags, but for the password.\<close>

definition shown :: "setting \<Rightarrow> prefs \<Rightarrow> 32 word \<Rightarrow> string" where
  "shown st pf l =
     (case st of
        SettingTypingNotice \<Rightarrow> bool_text (pf_typing_notice pf \<noteq> 0)
      | SettingAcceptNoBuddiesMessages \<Rightarrow> bool_text (pf_accept_nobuddies pf)
      | SettingSendDelay \<Rightarrow> t2s_int (pf_send_delay pf)
      | SettingVoicedBuddies \<Rightarrow> bool_text (pf_voiced_buddies pf)
      | SettingServerAliases \<Rightarrow> bool_text (pf_server_aliases pf)
      | SettingAwayIdle \<Rightarrow> bool_text (pf_away_idle pf)
      | SettingLogLevel \<Rightarrow> formatLoggedFlags l
      | SettingProxy \<Rightarrow> pf_proxy_type pf
      | SettingProxyHost \<Rightarrow> (case pf_proxy pf of Some (Some h, _) \<Rightarrow> h | _ \<Rightarrow> [])
      | SettingProxyPort \<Rightarrow> (case pf_proxy pf of Some (_, port, _) \<Rightarrow> t2s_int port | None \<Rightarrow> [])
      | SettingProxyUsername \<Rightarrow> (case pf_proxy pf of Some (_, _, Some u, _) \<Rightarrow> u | _ \<Rightarrow> [])
      | SettingProxyPassword \<Rightarrow> (case pf_proxy pf of Some (_, _, _, Some p) \<Rightarrow> p | _ \<Rightarrow> [])
      | SettingMinbif \<Rightarrow> ''Minbif Is Not Bitlbee Fool''
      | SettingPassword \<Rightarrow> [])"

lemma getValue_shown: "st \<noteq> SettingPassword \<Longrightarrow> getValue x st s = Inr (shown st (se_prefs s) (se_logged s), s)"
  by (cases st) (simp_all add: getValue_def shown_def Let_def)

lemma set_bool_result: "set_bool x (\<lambda>b s. Inr (upd_prefs (g b) s)) v s = Inr (True, s1) \<Longrightarrow> \<exists>b. s1 = upd_prefs (g b) s"
  by (auto simp: set_bool_def bindE_Inr_iff split: option.splits)

lemma set_proxy_result:
  "set_proxy f s = (True, s1) \<Longrightarrow> \<exists>q. pf_proxy (se_prefs s) = Some q \<and> s1 = upd_prefs (\<lambda>p. p\<lparr>pf_proxy := Some (f q)\<rparr>) s"
  by (auto simp: set_proxy_def split: option.splits)

lemma upd_prefs_sel [simp]: "se_prefs (upd_prefs f s) = f (se_prefs s)" "se_logged (upd_prefs f s) = se_logged s"
  by (simp_all add: upd_prefs_def)

lemma set_others:
  assumes "setValue x st v s = Inr (True, s1)" and "st' \<noteq> st" and "st' \<noteq> SettingPassword"
  shows "shown st' (se_prefs s1) (se_logged s1) = shown st' (se_prefs s) (se_logged s)"
proof (cases st)
  case SettingPassword
  then have "s1 = upd_prefs (\<lambda>p. p\<lparr>pf_password := v\<rparr>) s"
    using assms(1) by (auto simp: setValue_def setPassword_def upd_prefs_def bindE_Inr_iff split: option.splits mechanism.splits if_splits)
  then show ?thesis by (cases st') (simp_all add: shown_def)
next
  case SettingTypingNotice
  then have "set_bool x (\<lambda>b s. Inr (upd_prefs (\<lambda>p. p\<lparr>pf_typing_notice := if b then 1 else 0\<rparr>) s)) v s = Inr (True, s1)"
    using assms(1) by (simp only: setValue_def setting.case)
  then obtain b where "s1 = upd_prefs (\<lambda>p. p\<lparr>pf_typing_notice := if b then 1 else 0\<rparr>) s"
    using set_bool_result [of x "\<lambda>b p. p\<lparr>pf_typing_notice := if b then 1 else 0\<rparr>" v s s1] by blast
  then show ?thesis using assms(2) SettingTypingNotice by (cases st') (simp_all add: shown_def)
next
  case SettingAcceptNoBuddiesMessages
  then obtain b where "s1 = upd_prefs (\<lambda>p. p\<lparr>pf_accept_nobuddies := b\<rparr>) s"
    using assms(1) set_bool_result [of x "\<lambda>b p. p\<lparr>pf_accept_nobuddies := b\<rparr>" v s s1] by (auto simp: setValue_def)
  then show ?thesis using assms(2) SettingAcceptNoBuddiesMessages by (cases st') (simp_all add: shown_def)
next
  case SettingServerAliases
  then obtain b where "s1 = upd_prefs (\<lambda>p. p\<lparr>pf_server_aliases := b\<rparr>) s"
    using assms(1) set_bool_result [of x "\<lambda>b p. p\<lparr>pf_server_aliases := b\<rparr>" v s s1] by (auto simp: setValue_def)
  then show ?thesis using assms(2) SettingServerAliases by (cases st') (simp_all add: shown_def)
next
  case SettingAwayIdle
  then obtain b where "s1 = upd_prefs (\<lambda>p. p\<lparr>pf_away_idle := b\<rparr>) s"
    using assms(1) set_bool_result [of x "\<lambda>b p. p\<lparr>pf_away_idle := b\<rparr>" v s s1] by (auto simp: setValue_def)
  then show ?thesis using assms(2) SettingAwayIdle by (cases st') (simp_all add: shown_def)
next
  case SettingSendDelay
  then obtain i where "s1 = upd_prefs (\<lambda>p. p\<lparr>pf_send_delay := i\<rparr>) s" using assms(1) by (auto simp: setValue_def bindE_Inr_iff)
  then show ?thesis using assms(2) SettingSendDelay by (cases st') (simp_all add: shown_def)
next
  case SettingVoicedBuddies
  then obtain b where "setVoicedBuddies x b s = Inr s1"
    using assms(1) by (auto simp: setValue_def set_bool_def bindE_Inr_iff split: option.splits)
  from setVoicedBuddies_prefs [OF this] show ?thesis using assms(2) SettingVoicedBuddies by (cases st') (simp_all add: shown_def)
next
  case SettingLogLevel
  then show ?thesis using assms(1,2) by (cases st') (auto simp: setValue_def shown_def)
next
  case SettingProxy
  then have "s1 = upd_prefs (\<lambda>p. p\<lparr>pf_proxy_type := v\<rparr>) s" using assms(1) by (auto simp: setValue_def bindE_Inr_iff split: if_splits)
  then show ?thesis using assms(2) SettingProxy by (cases st') (simp_all add: shown_def)
next
  case SettingProxyHost
  then obtain q where "pf_proxy (se_prefs s) = Some q" "s1 = upd_prefs (\<lambda>p. p\<lparr>pf_proxy := Some ((\<lambda>(h, port, u, pw). (Some v, port, u, pw)) q)\<rparr>) s"
    using assms(1) set_proxy_result by (fastforce simp: setValue_def)
  then show ?thesis using assms(2) SettingProxyHost by (cases st') (auto simp: shown_def split: prod.split)
next
  case SettingProxyPort
  then obtain q i where "pf_proxy (se_prefs s) = Some q" "s1 = upd_prefs (\<lambda>p. p\<lparr>pf_proxy := Some ((\<lambda>(h, port, u, pw). (h, i, u, pw)) q)\<rparr>) s"
    using assms(1) by (auto simp: setValue_def set_proxy_def bindE_Inr_iff split: option.splits)
  then show ?thesis using assms(2) SettingProxyPort by (cases st') (auto simp: shown_def split: prod.split)
next
  case SettingProxyUsername
  then obtain q where "pf_proxy (se_prefs s) = Some q" "s1 = upd_prefs (\<lambda>p. p\<lparr>pf_proxy := Some ((\<lambda>(h, port, u, pw). (h, port, Some v, pw)) q)\<rparr>) s"
    using assms(1) set_proxy_result by (fastforce simp: setValue_def)
  then show ?thesis using assms(2) SettingProxyUsername by (cases st') (auto simp: shown_def split: prod.split)
next
  case SettingProxyPassword
  then obtain q where "pf_proxy (se_prefs s) = Some q" "s1 = upd_prefs (\<lambda>p. p\<lparr>pf_proxy := Some ((\<lambda>(h, port, u, pw). (h, port, u, Some v)) q)\<rparr>) s"
    using assms(1) set_proxy_result by (fastforce simp: setValue_def)
  then show ?thesis using assms(2) SettingProxyPassword by (cases st') (auto simp: shown_def split: prod.split)
next
  case SettingMinbif
  then show ?thesis using assms(1) by (auto simp: setValue_def bindE_Inr_iff)
qed

section \<open>Properties\<close>



end
