(* ===== verification/Config.thy ===== *)
theory Config
  imports Util
begin

text \<open>
  The configuration, \<open>src/src/core/config.cpp\<close> and \<open>config.h\<close>: typed items in nested sections, the
  loader that reads a file line by line, and the configuration \<open>Minbif::Minbif\<close> declares.

  A \<open>ConfigSection\<close> is a node of a tree, and what C++ holds as a pointer to a section is the number
  of the node; reading a number that is not in the tree is \<open>Dangling\<close>. The multimap of the
  subsections is the list of them in the order of their labels. The callbacks of items are left
  out, as no item of the program has one. An \<open>error_exc\<close> is a value \<open>Inl reason\<close>; the values that
  C++ leaves uninitialised are \<open>None\<close>.
\<close>

section \<open>Items\<close>

datatype item =
    ConfigItem_string string
  | ConfigItem_int int int "int option"
  | ConfigItem_intrange int int "int option" "int option"
  | ConfigItem_bool "bool option"

record citem =
  ci_label :: string
  ci_description :: string
  ci_def :: string
  ci_found :: bool
  ci_item :: item

definition INT_MIN :: int where "INT_MIN = - (2 ^ 31)"
definition INT_MAX :: int where "INT_MAX = 2 ^ 31 - 1"

definition defined :: "'a option \<Rightarrow> exn + 'a" where
  "defined v = (case v of None \<Rightarrow> Inl Indeterminate | Some x \<Rightarrow> Inr x)"

text \<open>The virtual methods; a class that does not define one has the one of \<open>ConfigItem\<close>.\<close>

definition item_clone :: "item \<Rightarrow> item" where
  "item_clone it = (case it of
       ConfigItem_string v \<Rightarrow> ConfigItem_string []
     | ConfigItem_int mn mx v \<Rightarrow> ConfigItem_int mn mx None
     | ConfigItem_intrange mn mx v w \<Rightarrow> ConfigItem_intrange mn mx None None
     | ConfigItem_bool v \<Rightarrow> ConfigItem_bool None)"

definition item_String :: "item \<Rightarrow> exn + string" where
  "item_String it = (case it of
       ConfigItem_string v \<Rightarrow> Inr v
     | ConfigItem_int mn mx v \<Rightarrow> bindE (defined v) (\<lambda>i. Inr (t2s_int i))
     | ConfigItem_intrange mn mx v w \<Rightarrow> bindE (defined v) (\<lambda>i. bindE (defined w) (\<lambda>j. Inr (t2s_int i @ ''-'' @ t2s_int j)))
     | ConfigItem_bool v \<Rightarrow> bindE (defined v) (\<lambda>b. Inr (if b then ''true'' else ''false'')))"

definition item_Integer :: "item \<Rightarrow> exn + int" where
  "item_Integer it = (case it of
       ConfigItem_string v \<Rightarrow> Inr 0
     | ConfigItem_int mn mx v \<Rightarrow> defined v
     | ConfigItem_intrange mn mx v w \<Rightarrow> Inl Indeterminate
     | ConfigItem_bool v \<Rightarrow> bindE (defined v) (\<lambda>b. Inr (if b then 1 else 0)))"

definition item_Boolean :: "item \<Rightarrow> exn + bool" where
  "item_Boolean it = (case it of ConfigItem_bool v \<Rightarrow> defined v | _ \<Rightarrow> Inr False)"

definition item_MinInteger :: "item \<Rightarrow> exn + int" where
  "item_MinInteger it = (case it of ConfigItem_intrange mn mx v w \<Rightarrow> defined v | _ \<Rightarrow> Inr 0)"

definition item_MaxInteger :: "item \<Rightarrow> exn + int" where
  "item_MaxInteger it = (case it of ConfigItem_intrange mn mx v w \<Rightarrow> defined w | _ \<Rightarrow> Inr 0)"

text \<open>
  \<open>std::istringstream(s) >> value\<close> for a text of digits: nothing is stored for the empty text, and a
  number out of range stores the largest \<open>int\<close>.
\<close>

definition read_int :: "string \<Rightarrow> int option \<Rightarrow> int option" where
  "read_int s v = (if s = [] then v else Some (min (int (read_digits s)) INT_MAX))"

text \<open>The two numbers of a range: digits, one separator, digits.\<close>

fun split_range :: "string \<Rightarrow> bool \<Rightarrow> string \<Rightarrow> string \<Rightarrow> (string \<times> string) option" where
  "split_range [] on_min min_s max_s = Some (min_s, max_s)"
| "split_range (c # s) on_min min_s max_s =
     (if isdigit c then if on_min then split_range s on_min (min_s @ [c]) max_s else split_range s on_min min_s (max_s @ [c])
      else if on_min \<and> (c = CHR '':'' \<or> c = CHR ''-'') then split_range s False min_s max_s
      else None)"

text \<open>\<open>SetValue\<close>: whether the value is good, and the item; a bad number is stored all the same.\<close>

definition item_SetValue :: "string \<Rightarrow> item \<Rightarrow> exn + bool \<times> item" where
  "item_SetValue s it = (case it of
       ConfigItem_string v \<Rightarrow> Inr (True, ConfigItem_string s)
     | ConfigItem_int mn mx v \<Rightarrow>
         if \<not> list_all isdigit s then Inr (False, it)
         else bindE (defined (read_int s v)) (\<lambda>i. Inr (mn \<le> i \<and> i \<le> mx, ConfigItem_int mn mx (Some i)))
     | ConfigItem_intrange mn mx v w \<Rightarrow>
         (case split_range s True [] [] of
            None \<Rightarrow> Inr (False, it)
          | Some (min_s, max_s) \<Rightarrow>
              let v1 = read_int min_s v; w1 = read_int max_s w; it1 = ConfigItem_intrange mn mx v1 w1
              in bindE (defined v1) (\<lambda>i.
                 if \<not> mn \<le> i then Inr (False, it1) else bindE (defined w1) (\<lambda>j. Inr (i \<le> j \<and> j \<le> mx, it1))))
     | ConfigItem_bool v \<Rightarrow>
         if s \<in> {''true'', ''on'', ''yes''} then Inr (True, ConfigItem_bool (Some True))
         else if s \<in> {''false'', ''off'', ''no''} then Inr (True, ConfigItem_bool (Some False))
         else Inr (False, it))"

text \<open>In \<open>ConfigItem_int\<close> the second number is printed into the stream that has the first one.\<close>

definition item_ValueType :: "item \<Rightarrow> string" where
  "item_ValueType it = (case it of
       ConfigItem_string v \<Rightarrow> ''string''
     | ConfigItem_int mn mx v \<Rightarrow>
         if mn = INT_MIN then ''integer'' else ''integer (between '' @ t2s_int mn @ '' and '' @ (t2s_int mn @ t2s_int mx) @ '')''
     | ConfigItem_intrange mn mx v w \<Rightarrow> ''integer range (between '' @ t2s_int mn @ '' and '' @ t2s_int mx @ '')''
     | ConfigItem_bool v \<Rightarrow> ''boolean ('' @ [CHR 0x27] @ ''true'' @ [CHR 0x27] @ '' or '' @ [CHR 0x27] @ ''false'' @ [CHR 0x27] @ '')'')"

section \<open>Sections\<close>

datatype section_t = NORMAL | MULTIPLE | OPTIONAL

record section_data =
  cs_id :: nat
  cs_label :: string
  cs_description :: string
  cs_type :: section_t
  cs_parent :: "nat option"
  cs_copy :: bool
  cs_name :: string
  cs_items :: "(string, citem) smap"
  cs_name_item :: "string option"
  cs_found :: bool

datatype csection = ConfigSection section_data "csection list"

fun cs_data :: "csection \<Rightarrow> section_data" where
  "cs_data (ConfigSection d ss) = d"

fun cs_sections :: "csection \<Rightarrow> csection list" where
  "cs_sections (ConfigSection d ss) = ss"

definition IsMultiple :: "section_data \<Rightarrow> bool" where
  "IsMultiple d \<longleftrightarrow> cs_type d = MULTIPLE"

definition IsOptional :: "section_data \<Rightarrow> bool" where
  "IsOptional d \<longleftrightarrow> cs_type d = OPTIONAL \<or> cs_type d = MULTIPLE"

text \<open>The node a pointer leads to, and a change of this node.\<close>

fun find_section :: "nat \<Rightarrow> csection list \<Rightarrow> csection option" where
  "find_section i [] = None"
| "find_section i (ConfigSection d ss # rest) =
     (if cs_id d = i then Some (ConfigSection d ss)
      else case find_section i ss of Some c \<Rightarrow> Some c | None \<Rightarrow> find_section i rest)"

fun upd_section :: "nat \<Rightarrow> (csection \<Rightarrow> csection) \<Rightarrow> csection list \<Rightarrow> csection list" where
  "upd_section i f [] = []"
| "upd_section i f (ConfigSection d ss # rest) =
     (if cs_id d = i then f (ConfigSection d ss) else ConfigSection d (upd_section i f ss)) # upd_section i f rest"

definition upd_data :: "(section_data \<Rightarrow> section_data) \<Rightarrow> csection \<Rightarrow> csection" where
  "upd_data f c = ConfigSection (f (cs_data c)) (cs_sections c)"

text \<open>The two \<open>GetSection\<close>, \<open>GetSectionClones\<close> and \<open>AddSection\<close> on a multimap of sections.\<close>

definition GetSection :: "string \<Rightarrow> csection list \<Rightarrow> csection option" where
  "GetSection label ss = find (\<lambda>c. cs_label (cs_data c) = label \<and> \<not> cs_copy (cs_data c)) ss"

definition GetSection_named :: "string \<Rightarrow> string \<Rightarrow> csection list \<Rightarrow> csection option" where
  "GetSection_named label name ss =
     find (\<lambda>c. cs_label (cs_data c) = label \<and> IsMultiple (cs_data c) \<and> cs_name (cs_data c) = name) ss"

definition GetSectionClones :: "string \<Rightarrow> csection list \<Rightarrow> csection list" where
  "GetSectionClones label ss = filter (\<lambda>c. cs_label (cs_data c) = label \<and> IsMultiple (cs_data c) \<and> cs_copy (cs_data c)) ss"

fun insert_section :: "csection \<Rightarrow> csection list \<Rightarrow> csection list" where
  "insert_section c [] = [c]"
| "insert_section c (e # ss) = (if cs_label (cs_data e) \<le> cs_label (cs_data c) then e # insert_section c ss else c # e # ss)"

definition GetItem :: "string \<Rightarrow> csection \<Rightarrow> citem option" where
  "GetItem label c = map_find (cs_items (cs_data c)) label"

definition upd_item :: "string \<Rightarrow> (citem \<Rightarrow> citem) \<Rightarrow> section_data \<Rightarrow> section_data" where
  "upd_item l f d = d\<lparr>cs_items := map (\<lambda>(k, it). (k, if k = l then f it else it)) (cs_items d)\<rparr>"

text \<open>
  The copy constructor. The parent, the mark of a copy and the mark of a found section are taken from
  the original, also for the subsections, whose parent is then not the new section; items are made
  anew, without value.
\<close>

definition copy_data :: "nat \<Rightarrow> section_data \<Rightarrow> section_data" where
  "copy_data n d = d\<lparr>cs_id := n, cs_name := [],
     cs_items := map (\<lambda>(k, it). (k, it\<lparr>ci_found := False, ci_item := item_clone (ci_item it)\<rparr>)) (cs_items d)\<rparr>"

fun copy_sections :: "nat \<Rightarrow> csection list \<Rightarrow> nat \<times> csection list" where
  "copy_sections n [] = (n, [])"
| "copy_sections n (ConfigSection d ss # rest) =
     (let (n1, ss1) = copy_sections (Suc n) ss; (n2, rest1) = copy_sections n1 rest
      in (n2, ConfigSection (copy_data n d) ss1 # rest1))"

text \<open>\<open>Clean\<close> deletes the copies and forgets what was found.\<close>

definition clean_data :: "section_data \<Rightarrow> section_data" where
  "clean_data d = d\<lparr>cs_found := False, cs_items := map (\<lambda>(k, it). (k, it\<lparr>ci_found := False\<rparr>)) (cs_items d)\<rparr>"

fun Clean :: "csection list \<Rightarrow> csection list" where
  "Clean [] = []"
| "Clean (ConfigSection d ss # rest) =
     (if cs_copy d then Clean rest else ConfigSection (clean_data d) (Clean ss) # Clean rest)"

section \<open>The configuration\<close>

record cfg =
  cf_path :: string
  cf_loaded :: bool
  cf_sections :: "csection list"
  cf_line :: nat
  cf_next :: nat
  cf_cerr :: "string list"

definition MyConfig :: cfg where
  "MyConfig = \<lparr>cf_path = [], cf_loaded = False, cf_sections = [], cf_line = 0, cf_next = 0, cf_cerr = []\<rparr>"

definition section_at :: "nat \<Rightarrow> cfg \<Rightarrow> exn + csection" where
  "section_at i c = (case find_section i (cf_sections c) of None \<Rightarrow> Inl Dangling | Some s \<Rightarrow> Inr s)"

definition upd_at :: "nat \<Rightarrow> (section_data \<Rightarrow> section_data) \<Rightarrow> cfg \<Rightarrow> cfg" where
  "upd_at i f c = c\<lparr>cf_sections := upd_section i (upd_data f) (cf_sections c)\<rparr>"

definition cerr :: "string \<Rightarrow> cfg \<Rightarrow> cfg" where
  "cerr t c = c\<lparr>cf_cerr := cf_cerr c @ [t]\<rparr>"

text \<open>The macro \<open>Error\<close>, without its assignment to the local variable \<open>error\<close>.\<close>

definition Error :: "string \<Rightarrow> cfg \<Rightarrow> cfg" where
  "Error t c = cerr (cf_path c @ '':'' @ t2s (cf_line c) @ '': '' @ t) c"

definition quoted :: "string \<Rightarrow> string" where
  "quoted s = [CHR 0x27] @ s @ [CHR 0x27]"

definition in_section :: "section_data \<Rightarrow> string" where
  "in_section d = ''in '' @ [CHR 0xC2, CHR 0xAB] @ cs_label d @ (if cs_name d = [] then [] else ''('' @ cs_name d @ '')'') @
     [CHR 0xC2, CHR 0xBB] @ '': ''"

section \<open>Missing items and sections\<close>

text \<open>The items that were not found take their default; one without a good default is reported in a found section.\<close>

fun empty_items :: "section_data \<Rightarrow> (string, citem) smap \<Rightarrow> exn + string list \<times> (string, citem) smap" where
  "empty_items d [] = Inr ([], [])"
| "empty_items d ((k, it) # its) =
     bindE (if ci_found it then Inr ([], it)
            else let missing = (if cs_found d
                   then [in_section d @ ''missing item '' @ quoted (ci_label it) @ '' ('' @ ci_description it @ '')''] else [])
                 in if ci_def it = [] then Inr (missing, it)
                    else bindE (item_SetValue (ci_def it) (ci_item it)) (\<lambda>(ok, v).
                           Inr (if ok then [] else missing, it\<lparr>ci_item := v\<rparr>)))
       (\<lambda>(es, it1). bindE (empty_items d its) (\<lambda>(es1, its1). Inr (es @ es1, (k, it1) # its1)))"

definition missing_section :: "string \<Rightarrow> section_data \<Rightarrow> string" where
  "missing_section begin_text d =
     begin_text @ ''missing section '' @ quoted (cs_label d) @ '' ('' @ cs_description d @ '')''"

text \<open>
  The loop over the subsections of both \<open>FindEmpty\<close>: what is reported, and the sections. Neither uses
  the result of \<open>FindEmpty\<close> of a subsection. A multiple section that is not a copy is left alone.
\<close>

fun FindEmpty_sections :: "string \<Rightarrow> csection list \<Rightarrow> exn + string list \<times> csection list" where
  "FindEmpty_sections begin_text [] = Inr ([], [])"
| "FindEmpty_sections begin_text (ConfigSection d ss # rest) =
     bindE (if \<not> cs_found d \<and> \<not> IsOptional d then Inr ([missing_section begin_text d], ConfigSection d ss)
            else if IsMultiple d \<and> \<not> cs_copy d then Inr ([], ConfigSection d ss)
            else bindE (empty_items d (cs_items d)) (\<lambda>(es, its).
                 bindE (FindEmpty_sections (in_section d) ss) (\<lambda>(es1, ss1).
                   Inr (es @ es1, ConfigSection (d\<lparr>cs_items := its\<rparr>) ss1))))
       (\<lambda>(es, s1). bindE (FindEmpty_sections begin_text rest) (\<lambda>(es2, rest1). Inr (es @ es2, s1 # rest1)))"

text \<open>\<open>MyConfig::FindEmpty\<close>: its result is whether a section of the first level is missing.\<close>

definition FindEmpty :: "cfg \<Rightarrow> exn + bool \<times> cfg" where
  "FindEmpty c =
     bindE (FindEmpty_sections ''in global porty: '' (cf_sections c)) (\<lambda>(es, ss).
       Inr (\<exists>s\<in>set (cf_sections c). \<not> cs_found (cs_data s) \<and> \<not> IsOptional (cs_data s),
            fold Error es (c\<lparr>cf_sections := ss\<rparr>)))"

section \<open>Loading\<close>

text \<open>
  One line: the state is the configuration, the section the line is in and whether an error was
  reported.
\<close>

type_synonym load_state = "cfg \<times> nat option \<times> bool"

definition skip_chars :: "string \<Rightarrow> string \<Rightarrow> string" where
  "skip_chars cs s = dropWhile (\<lambda>c. c \<in> set cs) (takeWhile (\<lambda>c. c \<noteq> CHR 0x00) s)"

definition fail :: "string \<Rightarrow> cfg \<times> nat option \<Rightarrow> exn + load_state" where
  "fail t st = Inr (Error t (fst st), snd st, True)"

definition named_twin :: "csection \<Rightarrow> string \<Rightarrow> cfg \<Rightarrow> exn + csection option" where
  "named_twin s value c =
     (case cs_parent (cs_data s) of
        Some p \<Rightarrow> bindE (section_at p c) (\<lambda>ps. Inr (GetSection_named (cs_label (cs_data s)) value (cs_sections ps)))
      | None \<Rightarrow> Inr (GetSection_named (cs_label (cs_data s)) value (cf_sections c)))"

definition store_value :: "nat \<Rightarrow> string \<Rightarrow> citem \<Rightarrow> string \<Rightarrow> load_state \<Rightarrow> exn + load_state" where
  "store_value i label it value st =
     (case st of (c, sec, err) \<Rightarrow>
        bindE (item_SetValue value (ci_item it)) (\<lambda>(ok, v).
          let c1 = upd_at i (upd_item label (\<lambda>it. it\<lparr>ci_found := True, ci_item := v\<rparr>)) c
          in if ok then Inr (c1, sec, err)
             else fail (quoted value @ '' is an incorrect value for '' @ quoted label @
                    '' item (type of value is '' @ item_ValueType v @ '')'') (c1, sec)))"

definition give_value :: "nat \<Rightarrow> csection \<Rightarrow> string \<Rightarrow> citem \<Rightarrow> string \<Rightarrow> load_state \<Rightarrow> exn + load_state" where
  "give_value i s label it value st =
     (case st of (c, sec, err) \<Rightarrow>
        if cs_name_item (cs_data s) = Some label
        then bindE (named_twin s value c) (\<lambda>twin. case twin of
               Some t \<Rightarrow> fail (''There is already a section named '' @ quoted value @ '' ('' @ quoted (cs_label (cs_data t)) @ '')'') (c, sec)
             | None \<Rightarrow> store_value i label it value (upd_at i (\<lambda>d. d\<lparr>cs_name := value\<rparr>) c, sec, err))
        else store_value i label it value st)"

definition item_line :: "string \<Rightarrow> load_state \<Rightarrow> exn + load_state" where
  "item_line ligne st =
     (case st of (c, sec, err) \<Rightarrow>
      case sec of
        None \<Rightarrow> fail (''We aren'' @ [CHR 0x27] @ ''t in a section !'') (c, sec)
      | Some i \<Rightarrow>
          bindE (section_at i c) (\<lambda>s.
            let (label, rest) = stringtok ligne '' '';
                value = skip_chars [CHR '' '', CHR ''='', CHR 0x09] rest
            in case GetItem label s of
                 None \<Rightarrow> fail (''Unknown item '' @ quoted label) (c, sec)
               | Some it \<Rightarrow>
                   if rest = [] \<or> value = [] then fail (''There isn'' @ [CHR 0x27] @ ''t any value'') (c, sec)
                   else give_value i s label it value st))"

definition close_line :: "load_state \<Rightarrow> exn + load_state" where
  "close_line st =
     (case st of (c, sec, err) \<Rightarrow>
      case sec of
        None \<Rightarrow> fail (''a '' @ quoted ''}'' @ '' out of a section !?'') (c, sec)
      | Some i \<Rightarrow>
          bindE (section_at i c) (\<lambda>s.
            let d = cs_data s
            in if cs_copy d \<and> cs_name d = []
               then fail (''Section '' @ quoted (cs_label d) @ '' hasn'' @ [CHR 0x27] @ ''t a name'') (c, cs_parent d)
               else Inr (c, cs_parent d, err)))"

text \<open>A section is opened; of a multiple section a copy is made, put beside it and opened.\<close>

definition open_copy :: "csection \<Rightarrow> cfg \<Rightarrow> exn + cfg \<times> nat" where
  "open_copy s c =
     (let n = cf_next c;
          (n1, ss) = copy_sections (Suc n) (cs_sections s);
          s1 = ConfigSection ((copy_data n (cs_data s))\<lparr>cs_copy := True\<rparr>) ss;
          c1 = c\<lparr>cf_next := n1\<rparr>
      in case cs_parent (cs_data s) of
           Some p \<Rightarrow> bindE (section_at p c) (\<lambda>_.
             Inr (c1\<lparr>cf_sections := upd_section p (\<lambda>ps. ConfigSection (cs_data ps) (insert_section s1 (cs_sections ps))) (cf_sections c)\<rparr>, n))
         | None \<Rightarrow> Inr (c1\<lparr>cf_sections := insert_section s1 (cf_sections c)\<rparr>, n))"

definition enter_section :: "csection \<Rightarrow> load_state \<Rightarrow> exn + load_state" where
  "enter_section s st =
     (case st of (c, sec, err) \<Rightarrow>
        let i = cs_id (cs_data s); c1 = upd_at i (\<lambda>d. d\<lparr>cs_found := True\<rparr>) c
        in if IsMultiple (cs_data s)
           then bindE (open_copy (upd_data (\<lambda>d. d\<lparr>cs_found := True\<rparr>) s) c1) (\<lambda>(c2, n). Inr (c2, Some n, err))
           else Inr (c1, Some i, err))"

definition open_line :: "string \<Rightarrow> load_state \<Rightarrow> exn + load_state" where
  "open_line ligne st =
     (case st of (c, sec, err) \<Rightarrow>
        let tab = fst (stringtok ligne '' '')
        in bindE (case sec of
                    None \<Rightarrow> Inr (GetSection tab (cf_sections c))
                  | Some i \<Rightarrow> bindE (section_at i c) (\<lambda>s. Inr (GetSection tab (cs_sections s)))) (\<lambda>r. case r of
             None \<Rightarrow> fail (''Unknown section '' @ quoted tab) (c, None)
           | Some s \<Rightarrow> enter_section s (c, sec, err)))"

definition load_line :: "string \<Rightarrow> load_state \<Rightarrow> exn + load_state" where
  "load_line line st =
     (case st of (c, sec, err) \<Rightarrow>
        let ligne = skip_chars [CHR '' '', CHR 0x09] line; st1 = (c\<lparr>cf_line := cf_line c + 1\<rparr>, sec, err)
        in if ligne = [] \<or> hd ligne \<in> {CHR ''#'', CHR 0x0D, CHR 0x0A} then Inr st1
           else if CHR ''='' \<in> set ligne then item_line ligne st1
           else if hd ligne = CHR ''}'' then close_line st1
           else open_line ligne st1)"

text \<open>The lines \<open>std::getline\<close> reads: a last line without line end counts, an empty rest does not.\<close>

fun split_lines :: "string \<Rightarrow> string \<Rightarrow> string list" where
  "split_lines acc [] = (if acc = [] then [] else [acc])"
| "split_lines acc (c # s) = (if c = CHR 0x0A then acc # split_lines [] s else split_lines (acc @ [c]) s)"

text \<open>
  \<open>Load\<close>: an empty path throws; \<open>file\<close> gives the content of a path, if it can be read.
\<close>

definition Load :: "(string \<Rightarrow> string option) \<Rightarrow> string \<Rightarrow> cfg \<Rightarrow> exn + (string + bool) \<times> cfg" where
  "Load file new_path c =
     (let c0 = (if new_path \<noteq> [] then c\<lparr>cf_path := new_path\<rparr> else c)
      in if cf_path c0 = [] then Inr (Inl ''Filename is empty'', c0)
         else case file (cf_path c0) of
           None \<Rightarrow> Inr (Inr False, cerr (cf_path c0 @ '': File not found'') c0)
         | Some content \<Rightarrow>
             bindE (foldE load_line (split_lines [] content) (c0\<lparr>cf_sections := Clean (cf_sections c0), cf_line := 0\<rparr>, None, False)) (\<lambda>(c1, sec, err).
             bindE (case sec of
                      None \<Rightarrow> Inr (c1, err)
                    | Some i \<Rightarrow> bindE (section_at i c1) (\<lambda>s.
                        Inr (Error (in_section (cs_data s) @ quoted ''}'' @ '' not found to close section !'') c1, True))) (\<lambda>(c2, err1).
             bindE (FindEmpty c2) (\<lambda>(missing, c3).
               let error = (err1 \<or> missing)
               in Inr (Inr (\<not> error), if error then c3 else c3\<lparr>cf_loaded := True\<rparr>)))))"

section \<open>Declaring the configuration\<close>

text \<open>What the declarations return: an \<open>error_exc\<close> with its reason, or a value.\<close>

definition AddSection :: "string \<Rightarrow> string \<Rightarrow> section_t \<Rightarrow> cfg \<Rightarrow> string + nat \<times> cfg" where
  "AddSection label description ty c =
     (if cf_loaded c then Inl ''Configuration is already loaded !''
      else if \<exists>s\<in>set (cf_sections c). cs_label (cs_data s) = label then Inl (''Section '' @ label @ '' has a name already used'')
      else let n = cf_next c;
               d = \<lparr>cs_id = n, cs_label = label, cs_description = description, cs_type = ty, cs_parent = None, cs_copy = False,
                    cs_name = [], cs_items = [], cs_name_item = None, cs_found = False\<rparr>
           in Inr (n, c\<lparr>cf_next := n + 1, cf_sections := insert_section (ConfigSection d []) (cf_sections c)\<rparr>))"

definition Section_AddSection :: "nat \<Rightarrow> string \<Rightarrow> string \<Rightarrow> section_t \<Rightarrow> cfg \<Rightarrow> exn + (string + nat \<times> cfg)" where
  "Section_AddSection i label description ty c =
     bindE (section_at i c) (\<lambda>s. Inr (
       if \<exists>t\<in>set (cs_sections s). cs_label (cs_data t) = label
       then Inl (''Section '' @ label @ '' has a name already used in section '' @ [CHR 0x22] @ cs_label (cs_data s) @ [CHR 0x22])
       else let n = cf_next c;
                d = \<lparr>cs_id = n, cs_label = label, cs_description = description, cs_type = ty, cs_parent = Some i, cs_copy = False,
                     cs_name = [], cs_items = [], cs_name_item = None, cs_found = False\<rparr>
            in Inr (n, c\<lparr>cf_next := n + 1,
                 cf_sections := upd_section i (\<lambda>ps. ConfigSection (cs_data ps) (insert_section (ConfigSection d []) (cs_sections ps))) (cf_sections c)\<rparr>)))"

definition AddItem :: "nat \<Rightarrow> citem \<Rightarrow> bool \<Rightarrow> cfg \<Rightarrow> exn + (string + cfg)" where
  "AddItem i it is_name c =
     bindE (section_at i c) (\<lambda>s.
       let d = cs_data s; l = ci_label it
       in Inr (if map_find (cs_items d) l \<noteq> None
               then Inl (''There is already an item in '' @ [CHR 0x22] @ cs_label d @ [CHR 0x22] @ '' section named '' @ [CHR 0x22] @ l @ [CHR 0x22])
               else if is_name \<and> cs_name_item d \<noteq> None
               then Inl (''I want to add an '' @ quoted ''is_name'' @ '' item, but I have already one !'')
               else Inr (upd_at i (\<lambda>d. d\<lparr>cs_items := map_set l it (cs_items d),
                      cs_name_item := (if is_name then Some l else cs_name_item d)\<rparr>) c)))"

end
