(* ===== verification/Minbif_Conf.thy ===== *)
theory Minbif_Conf
  imports Config Daemon_Fork
begin

text \<open>
  The configuration of the program: the declarations of \<open>Minbif::Minbif\<close> (\<open>src/src/core/minbif.cpp\<close>),
  what the other components read from it, and \<open>Minbif::rehash\<close>. Whether the program is built with
  TLS and PAM are parameters of the declarations.
\<close>

section \<open>Declarations\<close>

text \<open>A declaration changes the configuration or throws an \<open>error_exc\<close>.\<close>

type_synonym conf_decl = "cfg \<Rightarrow> exn + (string + cfg)"

fun declare_all :: "conf_decl list \<Rightarrow> conf_decl" where
  "declare_all [] c = Inr (Inr c)"
| "declare_all (f # fs) c = bindE (f c) (\<lambda>r. case r of Inl e \<Rightarrow> Inr (Inl e) | Inr c1 \<Rightarrow> declare_all fs c1)"

definition conf_item :: "string \<Rightarrow> string \<Rightarrow> string \<Rightarrow> item \<Rightarrow> citem" where
  "conf_item label description def it =
     \<lparr>ci_label = label, ci_description = description, ci_def = def, ci_found = False, ci_item = it\<rparr>"

definition head_section :: "string \<Rightarrow> string \<Rightarrow> section_t \<Rightarrow> (nat \<Rightarrow> conf_decl list) \<Rightarrow> conf_decl" where
  "head_section label description ty body c =
     (case AddSection label description ty c of Inl e \<Rightarrow> Inr (Inl e) | Inr (n, c1) \<Rightarrow> declare_all (body n) c1)"

definition sub_section :: "nat \<Rightarrow> string \<Rightarrow> string \<Rightarrow> section_t \<Rightarrow> (nat \<Rightarrow> conf_decl list) \<Rightarrow> conf_decl" where
  "sub_section i label description ty body c =
     bindE (Section_AddSection i label description ty c) (\<lambda>r. case r of Inl e \<Rightarrow> Inr (Inl e) | Inr (n, c1) \<Rightarrow> declare_all (body n) c1)"

definition conf_string :: "nat \<Rightarrow> string \<Rightarrow> string \<Rightarrow> string \<Rightarrow> conf_decl" where
  "conf_string i label description def = AddItem i (conf_item label description def (ConfigItem_string [])) False"

definition conf_int :: "nat \<Rightarrow> string \<Rightarrow> string \<Rightarrow> int \<Rightarrow> int \<Rightarrow> string \<Rightarrow> conf_decl" where
  "conf_int i label description mn mx def = AddItem i (conf_item label description def (ConfigItem_int mn mx None)) False"

definition conf_bool :: "nat \<Rightarrow> string \<Rightarrow> string \<Rightarrow> string \<Rightarrow> conf_decl" where
  "conf_bool i label description def = AddItem i (conf_item label description def (ConfigItem_bool None)) False"

definition add_server_block_common_params :: "bool \<Rightarrow> nat \<Rightarrow> conf_decl list" where
  "add_server_block_common_params tls i =
     conf_string i ''security'' ''none/tls/starttls/starttls-mandatory'' ''none'' #
     (if tls then [sub_section i ''tls'' ''TLS information'' OPTIONAL (\<lambda>j.
        [conf_string j ''trust_file'' ''CA certificate file for TLS'' '' '',
         conf_string j ''crl_file'' ''CA certificate file for TLS'' '' '',
         conf_string j ''cert_file'' ''Server certificate file for TLS'' [],
         conf_string j ''key_file'' ''Server key file for TLS'' [],
         conf_string j ''priority'' ''Priority list for ciphers, exchange methods, macs and compression methods'' ''NORMAL''])]
      else [])"

definition Minbif_conf :: "bool \<Rightarrow> bool \<Rightarrow> exn + (string + cfg)" where
  "Minbif_conf tls pam = declare_all
     [head_section ''path'' ''Path information'' NORMAL (\<lambda>i.
        [conf_string i ''users'' ''Users directory'' [],
         conf_string i ''motd'' ''Path to motd'' '' '']),
      head_section ''irc'' ''Server information'' NORMAL (\<lambda>i.
        [conf_string i ''hostname'' ''Server hostname'' '' '',
         conf_string i ''password'' ''Global server password'' '' '',
         conf_int i ''type'' ''Type of daemon'' 0 2 ''0'',
         conf_int i ''ping'' ''Ping frequence (s)'' 0 65535 ''60'',
         conf_string i ''buddy_icons_url'' ''URL to display in /WHOIS to get a buddy icon'' '' '',
         sub_section i ''inetd'' ''Inetd information'' OPTIONAL (add_server_block_common_params tls),
         sub_section i ''daemon'' ''Daemon information'' OPTIONAL (\<lambda>j.
           [conf_string j ''bind'' ''IP address to listen on'' [],
            AddItem j (conf_item ''port'' ''Port to listen on'' [] (ConfigItem_int 1 65535 None)) True,
            conf_bool j ''background'' ''Start minbif in background'' ''true'',
            conf_int j ''maxcon'' ''Maximum simultaneous connections'' 0 65535 ''0''] @ add_server_block_common_params tls j),
         sub_section i ''oper'' ''Define an IRC operator'' MULTIPLE (\<lambda>j.
           [AddItem j (conf_item ''login'' ''Nickname of IRC operator'' [] (ConfigItem_string [])) True,
            conf_string j ''password'' ''IRC operator password'' [],
            conf_string j ''email'' ''IRC operator email address'' ''*@*''])]),
      head_section ''aaa'' ''Authentication, Authorization and Accounting'' OPTIONAL (\<lambda>i.
        [conf_bool i ''use_local'' ''Use local database to authenticate users'' ''true''] @
        (if pam then [conf_bool i ''use_pam'' ''Use PAM mechanisms to authenticate/authorize users'' ''false'',
                      conf_bool i ''pam_setuid'' ''Child process setuid with the pam user (needs root and pam auth)'' ''false''] else []) @
        [conf_bool i ''use_connection'' ''Use connection information to authenticate/authorize users'' ''false'']),
      head_section ''file_transfers'' ''File transfers parameters'' OPTIONAL (\<lambda>i.
        [conf_bool i ''enabled'' ''Enable file transfers'' ''true'',
         conf_bool i ''dcc'' ''Send files to IRC user with DCC'' ''true'',
         conf_string i ''dcc_own_ip'' ''Force minbif to always send DCC requests from a particular IP address'' '' '',
         AddItem i (conf_item ''port_range'' ''Port range to listen on for DCC'' ''1024-65535'' (ConfigItem_intrange 1024 65535 None None)) False]),
      head_section ''logging'' ''Log information'' NORMAL (\<lambda>i.
        [conf_string i ''level'' ''Logging level'' [],
         conf_bool i ''to_syslog'' ''Log error and warnings to syslog'' [],
         conf_bool i ''conv_logs'' ''Enable conversation logging'' ''false''])] MyConfig"

section \<open>Reading the configuration\<close>

text \<open>\<open>conf.GetSection(a)->GetItem(l)\<close>: a section or an item that is not there is a null pointer.\<close>

definition from_ptr :: "'a option \<Rightarrow> exn + 'a" where
  "from_ptr p = (case p of None \<Rightarrow> Inl NullPointer | Some x \<Rightarrow> Inr x)"

definition conf_get :: "string \<Rightarrow> string \<Rightarrow> cfg \<Rightarrow> exn + item" where
  "conf_get section label c =
     bindE (from_ptr (GetSection section (cf_sections c))) (\<lambda>s. bindE (from_ptr (GetItem label s)) (\<lambda>it. Inr (ci_item it)))"

text \<open>The operators as \<open>OPER\<close> and \<open>STATS o\<close> read them: login, password and email of every \<open>oper\<close> block.\<close>

definition oper_entry :: "csection \<Rightarrow> exn + string \<times> string \<times> string" where
  "oper_entry s =
     bindE (from_ptr (GetItem ''login'' s)) (\<lambda>l. bindE (item_String (ci_item l)) (\<lambda>login.
     bindE (from_ptr (GetItem ''password'' s)) (\<lambda>p. bindE (item_String (ci_item p)) (\<lambda>password.
     bindE (from_ptr (GetItem ''email'' s)) (\<lambda>m. bindE (item_String (ci_item m)) (\<lambda>email. Inr (login, password, email)))))))"

definition conf_opers :: "cfg \<Rightarrow> exn + (string \<times> string \<times> string) list" where
  "conf_opers c =
     bindE (from_ptr (GetSection ''irc'' (cf_sections c))) (\<lambda>s.
       foldE (\<lambda>o1 acc. bindE (oper_entry o1) (\<lambda>e. Inr (acc @ [e]))) (GetSectionClones ''oper'' (cs_sections s)) [])"

text \<open>The environment of a session with the values it reads from the configuration.\<close>

definition configure :: "cfg \<Rightarrow> senv \<Rightarrow> exn + senv" where
  "configure c x =
     bindE (conf_opers c) (\<lambda>opers.
     bindE (bindE (conf_get ''irc'' ''password'' c) item_String) (\<lambda>pw.
     bindE (bindE (conf_get ''irc'' ''ping'' c) item_Integer) (\<lambda>freq.
     bindE (bindE (conf_get ''irc'' ''buddy_icons_url'' c) item_String) (\<lambda>url.
     bindE (bindE (conf_get ''aaa'' ''use_local'' c) item_Boolean) (\<lambda>use_local.
     bindE (bindE (conf_get ''aaa'' ''use_connection'' c) item_Boolean) (\<lambda>use_conn.
     bindE (bindE (conf_get ''file_transfers'' ''enabled'' c) item_Boolean) (\<lambda>ft.
       Inr (x\<lparr>x_opers := opers, x_password := pw, x_ping_freq := freq, x_icons_url := url, x_use_local := use_local,
              x_use_connection := use_conn, x_world := (x_world x)\<lparr>w_ft_enabled := ft\<rparr>\<rparr>))))))))"

section \<open>Reloading\<close>

text \<open>
  \<open>Minbif::rehash\<close>, which runs in the process that gets the signal: a failed load asks the program to
  quit and goes on; the logged flags are set in every case, and the poll reloads its sessions.
\<close>

definition set_logged :: "cfg \<Rightarrow> dpoll \<Rightarrow> exn + dpoll" where
  "set_logged c p =
     bindE (bindE (conf_get ''logging'' ''level'' c) item_String) (\<lambda>level.
     bindE (bindE (conf_get ''logging'' ''to_syslog'' c) item_Boolean) (\<lambda>sys.
       Inr (case dp_irc p of
              Some s \<Rightarrow> p\<lparr>dp_irc := Some (s\<lparr>se_logged := setLoggedFlags level, se_to_syslog := sys\<rparr>)\<rparr>
            | None \<Rightarrow> p\<lparr>dp_logged := setLoggedFlags level, dp_to_syslog := sys\<rparr>)))"

definition Minbif_rehash :: "denv \<Rightarrow> (string \<Rightarrow> string option) \<Rightarrow> cfg \<Rightarrow> dpoll \<Rightarrow> exn + (string + cfg \<times> dpoll)" where
  "Minbif_rehash e file c p =
     bindE (Load file [] c) (\<lambda>(r, c1). case r of
         Inl reason \<Rightarrow> Inr (Inl reason)
       | Inr ok \<Rightarrow>
           bindE (if ok then Inr p
                  else bindE (dlog e W_ERR ''Unable to load configuration, exiting..'' p) (\<lambda>p1. Inr (p1\<lparr>dp_quit := True\<rparr>))) (\<lambda>p1.
           bindE (set_logged c1 p1) (\<lambda>p2.
           bindE (poll_rehash e p2) (\<lambda>p3. Inr (Inr (c1, p3))))))"

end
