(* ===== verification/Config_Props.thy ===== *)
theory Config_Props
  imports Minbif_Conf Dispatch_Props
begin

text \<open>
  The configuration: no pointer of the loader dangles, however often files are loaded, items that a
  file does not set have their default, and what a file that lacks a mandatory item leads to.
\<close>

section \<open>The tree of sections\<close>

text \<open>All nodes, and the numbers of those that are not in a copy, which \<open>Clean\<close> keeps.\<close>

fun nodes :: "csection list \<Rightarrow> section_data list" where
  "nodes [] = []"
| "nodes (ConfigSection d ss # rest) = d # nodes ss @ nodes rest"

fun fixed :: "csection list \<Rightarrow> nat set" where
  "fixed [] = {}"
| "fixed (ConfigSection d ss # rest) = (if cs_copy d then {} else insert (cs_id d) (fixed ss)) \<union> fixed rest"

abbreviation ids :: "csection list \<Rightarrow> nat set" where
  "ids t \<equiv> cs_id ` set (nodes t)"

text \<open>Every parent pointer leads to a node outside the copies.\<close>

definition tree_ok :: "csection list \<Rightarrow> bool" where
  "tree_ok t \<longleftrightarrow> (\<forall>d\<in>set (nodes t). case cs_parent d of None \<Rightarrow> True | Some p \<Rightarrow> p \<in> fixed t)"

abbreviation parents :: "csection list \<Rightarrow> nat option set" where
  "parents t \<equiv> cs_parent ` set (nodes t)"

lemma tree_ok_iff: "tree_ok t \<longleftrightarrow> parents t \<subseteq> insert None (Some ` fixed t)"
proof -
  have "(case q of None \<Rightarrow> True | Some p \<Rightarrow> p \<in> fixed t) \<longleftrightarrow> q \<in> insert None (Some ` fixed t)" for q by (cases q) auto
  then show ?thesis by (simp add: tree_ok_def image_subset_iff)
qed

lemma fixed_ids: "fixed t \<subseteq> ids t"
  by (induction t rule: fixed.induct) auto

lemma tree_ok_parent: "tree_ok t \<Longrightarrow> d \<in> set (nodes t) \<Longrightarrow> cs_parent d = Some p \<Longrightarrow> p \<in> ids t"
  using fixed_ids by (fastforce simp: tree_ok_def split: option.splits)

lemma find_section_data:
  "find_section i t = Some s \<Longrightarrow> cs_data s \<in> set (nodes t) \<and> set (nodes (cs_sections s)) \<subseteq> set (nodes t) \<and> cs_id (cs_data s) = i"
  by (induction i t rule: find_section.induct) (auto split: if_splits option.splits)

lemma find_section_Some: "i \<in> ids t \<Longrightarrow> \<exists>s. find_section i t = Some s"
  by (induction i t rule: find_section.induct) (auto split: option.splits)

lemma section_at_ok: "i \<in> ids (cf_sections c) \<Longrightarrow> \<exists>s. section_at i c = Inr s \<and> find_section i (cf_sections c) = Some s"
  using find_section_Some [of i "cf_sections c"] by (auto simp: section_at_def)

lemma top_nodes: "s \<in> set t \<Longrightarrow> cs_data s \<in> set (nodes t) \<and> set (nodes (cs_sections s)) \<subseteq> set (nodes t)"
  by (induction t rule: nodes.induct) auto

text \<open>Changing the data of a node but for its number, parent and mark of a copy keeps the tree.\<close>

definition keeps :: "(section_data \<Rightarrow> section_data) \<Rightarrow> bool" where
  "keeps f \<longleftrightarrow> (\<forall>d. cs_id (f d) = cs_id d \<and> cs_parent (f d) = cs_parent d \<and> cs_copy (f d) = cs_copy d)"

lemma upd_section_keeps:
  assumes "keeps f"
  shows "fixed (upd_section i (upd_data f) t) = fixed t" "ids (upd_section i (upd_data f) t) = ids t"
    "parents (upd_section i (upd_data f) t) = parents t"
  using assms by (induction t rule: nodes.induct) (auto simp: upd_data_def keeps_def image_Un)

lemma upd_at_keeps:
  "keeps f \<Longrightarrow> fixed (cf_sections (upd_at i f c)) = fixed (cf_sections c) \<and> ids (cf_sections (upd_at i f c)) = ids (cf_sections c) \<and>
    parents (cf_sections (upd_at i f c)) = parents (cf_sections c)"
  by (simp add: upd_at_def upd_section_keeps)

lemma insert_section_nodes:
  "set (nodes (insert_section s ss)) = set (nodes [s]) \<union> set (nodes ss)" "fixed (insert_section s ss) = fixed [s] \<union> fixed ss"
proof (induction ss)
  case (Cons e ss)
  { case 1 then show ?case using Cons(1) by (cases e; cases s) auto }
  { case 2 then show ?case using Cons(2) by (cases e; cases s) auto }
qed simp_all

lemma copy_sections_parents: "parents (snd (copy_sections n ss)) = parents ss"
proof (induction n ss rule: copy_sections.induct)
  case (2 n d ss rest)
  obtain n1 ss1 where c1: "copy_sections (Suc n) ss = (n1, ss1)" by force
  obtain n2 rest1 where c2: "copy_sections n1 rest = (n2, rest1)" by force
  have "parents ss1 = parents ss" "parents rest1 = parents rest" using 2(1) 2(2) [OF c1 [symmetric] refl] c1 c2 by simp_all
  then show ?case using c1 c2 by (simp add: copy_data_def image_Un)
qed simp

text \<open>Putting a copy under a node adds its nodes and takes nothing away.\<close>

lemma upd_section_insert:
  fixes s :: csection
  assumes "cs_copy (cs_data s)"
  defines "f \<equiv> (\<lambda>ps. ConfigSection (cs_data ps) (insert_section s (cs_sections ps)))"
  shows "fixed (upd_section p f t) = fixed t" "set (nodes (upd_section p f t)) \<subseteq> set (nodes t) \<union> set (nodes [s])"
    "set (nodes t) \<subseteq> set (nodes (upd_section p f t))" "p \<in> ids t \<Longrightarrow> cs_data s \<in> set (nodes (upd_section p f t))"
proof -
  have s: "fixed [s] = {}" "cs_data s \<in> set (nodes [s])" using assms(1) by (cases s; simp)+
  show "fixed (upd_section p f t) = fixed t"
    by (induction t rule: nodes.induct) (simp_all add: f_def insert_section_nodes s(1))
  show "set (nodes (upd_section p f t)) \<subseteq> set (nodes t) \<union> set (nodes [s])"
    by (induction t rule: nodes.induct) (auto simp: f_def insert_section_nodes)
  show "set (nodes t) \<subseteq> set (nodes (upd_section p f t))"
    by (induction t rule: nodes.induct) (auto simp: f_def insert_section_nodes)
  show "p \<in> ids t \<Longrightarrow> cs_data s \<in> set (nodes (upd_section p f t))"
    using s(2) by (induction t rule: nodes.induct) (auto simp: f_def insert_section_nodes)
qed

lemma GetSection_mem: "GetSection l t = Some s \<Longrightarrow> s \<in> set t"
  by (auto simp: GetSection_def find_Some_iff)

lemma Clean_ok: "tree_ok t \<Longrightarrow> tree_ok (Clean t)"
proof -
  have "fixed (Clean t) = fixed t \<and> parents (Clean t) \<subseteq> parents t" for t
    by (induction t rule: Clean.induct) (simp_all add: clean_data_def image_Un, blast+)
  then show "tree_ok t \<Longrightarrow> tree_ok (Clean t)" unfolding tree_ok_iff by (metis subset_trans)
qed

section \<open>What ends a load\<close>

text \<open>A computation that ends in no other way than reading a value that was never set.\<close>

definition no_dangling :: "('a \<Rightarrow> bool) \<Rightarrow> exn + 'a \<Rightarrow> bool" where
  "no_dangling P r = (case r of Inl e \<Rightarrow> e = Indeterminate | Inr y \<Rightarrow> P y)"

lemma no_dangling_simps [simp]: "no_dangling P (Inr y) = P y" "no_dangling P (Inl e) \<longleftrightarrow> e = Indeterminate"
  by (simp_all add: no_dangling_def)

lemma no_dangling_bind: "no_dangling P r \<Longrightarrow> (\<And>y. P y \<Longrightarrow> no_dangling Q (f y)) \<Longrightarrow> no_dangling Q (bindE r f)"
  by (cases r) simp_all

lemma no_dangling_foldE:
  "(\<And>a s. P s \<Longrightarrow> no_dangling P (f a s)) \<Longrightarrow> P s \<Longrightarrow> no_dangling P (foldE f as s)"
  by (induction as arbitrary: s) (auto intro: no_dangling_bind)

lemma defined_undef: "no_dangling (\<lambda>_. True) (defined v)"
  by (simp add: defined_def split: option.split)

lemma SetValue_undef: "no_dangling (\<lambda>_. True) (item_SetValue s it)"
  by (cases it) (auto simp: item_SetValue_def Let_def intro!: no_dangling_bind [OF defined_undef] split: option.split)

definition load_ok :: "load_state \<Rightarrow> bool" where
  "load_ok st \<longleftrightarrow> (case st of (c, sec, err) \<Rightarrow> tree_ok (cf_sections c) \<and> (\<forall>i. sec = Some i \<longrightarrow> i \<in> ids (cf_sections c)))"

lemma Error_sections [simp]: "cf_sections (Error t c) = cf_sections c" "cf_sections (cerr t c) = cf_sections c"
  by (simp_all add: Error_def cerr_def)

lemma fail_ok: "load_ok (c, sec, err) \<Longrightarrow> no_dangling load_ok (fail t (c, sec))"
  by (simp add: fail_def load_ok_def)

lemma load_ok_upd: "keeps f \<Longrightarrow> load_ok (upd_at i f c, sec, err) \<longleftrightarrow> load_ok (c, sec, err')"
  using upd_at_keeps [of f i c] by (simp add: load_ok_def tree_ok_iff)

lemma keeps_intros [simp]:
  "keeps (\<lambda>d. d\<lparr>cs_name := v\<rparr>)" "keeps (\<lambda>d. d\<lparr>cs_found := b\<rparr>)" "keeps (upd_item l g)"
  by (simp_all add: keeps_def upd_item_def)

lemma named_twin_ok:
  assumes "tree_ok (cf_sections c)" and "cs_data s \<in> set (nodes (cf_sections c))"
  shows "no_dangling (\<lambda>_. True) (named_twin s v c)"
proof (cases "cs_parent (cs_data s)")
  case (Some p)
  then obtain ps where "section_at p c = Inr ps" using section_at_ok tree_ok_parent [OF assms Some] by blast
  then show ?thesis using Some by (simp add: named_twin_def)
qed (simp add: named_twin_def)

lemma store_value_ok: "load_ok (c, sec, err) \<Longrightarrow> no_dangling load_ok (store_value i label it value (c, sec, err))"
  unfolding store_value_def prod.case
  by (rule no_dangling_bind [OF SetValue_undef]) (auto simp: Let_def load_ok_upd [where err' = err] intro!: fail_ok)

lemma give_value_ok:
  assumes "load_ok (c, sec, err)" and "cs_data s \<in> set (nodes (cf_sections c))"
  shows "no_dangling load_ok (give_value i s label it v (c, sec, err))"
proof (cases "cs_name_item (cs_data s) = Some label")
  case True
  have tree: "tree_ok (cf_sections c)" using assms(1) by (simp add: load_ok_def)
  have c1: "load_ok (upd_at i (\<lambda>d. d\<lparr>cs_name := v\<rparr>) c, sec, err)"
    using assms(1) by (simp add: load_ok_upd [where err' = err])
  show ?thesis
    unfolding give_value_def prod.case if_P [OF True]
    by (rule no_dangling_bind [OF named_twin_ok [OF tree assms(2)]]) (simp add: fail_ok [OF assms(1)] store_value_ok [OF c1] split: option.split)
qed (simp add: give_value_def store_value_ok assms(1))

lemma item_line_ok:
  assumes "load_ok (c, sec, err)"
  shows "no_dangling load_ok (item_line ligne (c, sec, err))"
proof (cases sec)
  case None
  then show ?thesis using assms by (simp add: item_line_def fail_ok)
next
  case (Some i)
  then have "i \<in> ids (cf_sections c)" using assms by (simp add: load_ok_def)
  then obtain s where s: "section_at i c = Inr s" "cs_data s \<in> set (nodes (cf_sections c))"
    using section_at_ok find_section_data by blast
  obtain label rest where st: "stringtok ligne '' '' = (label, rest)" by force
  have f: "no_dangling load_ok (fail t (c, Some i))" for t using fail_ok [OF assms] Some by simp
  have g: "no_dangling load_ok (give_value i s label it v (c, Some i, err))" for it v using give_value_ok [OF assms s(2)] Some by simp
  show ?thesis using s(1) st f g Some by (simp add: item_line_def Let_def split: option.split)
qed

lemma close_line_ok: "load_ok (c, sec, err) \<Longrightarrow> no_dangling load_ok (close_line (c, sec, err))"
proof (cases sec)
  case (Some i)
  assume ok: "load_ok (c, sec, err)"
  then have "i \<in> ids (cf_sections c)" and tree: "tree_ok (cf_sections c)" using Some by (simp_all add: load_ok_def)
  then obtain s where s: "section_at i c = Inr s" "cs_data s \<in> set (nodes (cf_sections c))"
    using section_at_ok find_section_data by blast
  have "load_ok (c, cs_parent (cs_data s), b)" for b
    using tree tree_ok_parent [OF tree s(2)] by (simp add: load_ok_def)
  then show ?thesis using Some s(1) by (simp add: close_line_def Let_def fail_ok)
qed (simp add: close_line_def fail_ok)

lemma open_copy_ok:
  assumes "tree_ok (cf_sections c)" and "insert (cs_parent (cs_data s)) (parents (cs_sections s)) \<subseteq> insert None (Some ` fixed (cf_sections c))"
  shows "no_dangling (\<lambda>(c1, n). tree_ok (cf_sections c1) \<and> n \<in> ids (cf_sections c1)) (open_copy s c)"
proof -
  obtain n1 ss where cp: "copy_sections (Suc (cf_next c)) (cs_sections s) = (n1, ss)" by force
  define s1 where "s1 = ConfigSection ((copy_data (cf_next c) (cs_data s))\<lparr>cs_copy := True\<rparr>) ss"
  have copy: "cs_copy (cs_data s1)" "cs_id (cs_data s1) = cf_next c" by (simp_all add: s1_def copy_data_def)
  have "parents ss = parents (cs_sections s)" using copy_sections_parents [of "Suc (cf_next c)" "cs_sections s"] cp by simp
  then have par: "parents [s1] \<subseteq> insert None (Some ` fixed (cf_sections c))" using assms(2) by (auto simp: s1_def copy_data_def)
  show ?thesis
  proof (cases "cs_parent (cs_data s)")
    case None
    have "tree_ok (insert_section s1 (cf_sections c))"
      using assms(1) par copy(1) unfolding tree_ok_iff insert_section_nodes by (auto simp: s1_def)
    moreover have "cf_next c \<in> ids (insert_section s1 (cf_sections c))"
      using copy(2) by (simp add: insert_section_nodes s1_def)
    ultimately show ?thesis using None cp by (simp add: open_copy_def Let_def s1_def)
  next
    case (Some p)
    have p: "p \<in> ids (cf_sections c)" using assms(2) Some fixed_ids by auto
    then obtain ps where ps: "section_at p c = Inr ps" using section_at_ok by blast
    let ?t = "upd_section p (\<lambda>ps. ConfigSection (cs_data ps) (insert_section s1 (cs_sections ps))) (cf_sections c)"
    have "set (nodes ?t) \<subseteq> set (nodes (cf_sections c)) \<union> set (nodes [s1])" by (rule upd_section_insert(2) [OF copy(1)])
    then have "parents ?t \<subseteq> parents (cf_sections c) \<union> parents [s1]" by (metis image_Un image_mono)
    also have "\<dots> \<subseteq> insert None (Some ` fixed (cf_sections c))" using assms(1) par by (simp only: tree_ok_iff Un_least)
    also have "fixed (cf_sections c) = fixed ?t" by (rule upd_section_insert(1) [OF copy(1), symmetric])
    finally have "tree_ok ?t" by (simp only: tree_ok_iff)
    moreover have "cf_next c \<in> ids ?t" using upd_section_insert(4) [OF copy(1) p] copy(2) by (metis imageI)
    ultimately show ?thesis using Some cp ps by (simp add: open_copy_def Let_def s1_def)
  qed
qed

lemma open_line_ok: "load_ok (c, sec, err) \<Longrightarrow> no_dangling load_ok (open_line ligne (c, sec, err))"
proof -
  assume ok: "load_ok (c, sec, err)"
  then have tree: "tree_ok (cf_sections c)" by (simp add: load_ok_def)
  define tab where "tab = fst (stringtok ligne '' '')"
  define look where "look = (case sec of None \<Rightarrow> Inr (GetSection tab (cf_sections c))
      | Some i \<Rightarrow> bindE (section_at i c) (\<lambda>s. Inr (GetSection tab (cs_sections s))))"
  have look_ok: "no_dangling (\<lambda>r. \<forall>s. r = Some s \<longrightarrow> cs_data s \<in> set (nodes (cf_sections c)) \<and> set (nodes (cs_sections s)) \<subseteq> set (nodes (cf_sections c))) look"
  proof (cases sec)
    case None
    then show ?thesis using top_nodes GetSection_mem by (simp add: look_def)
  next
    case (Some i)
    then have "i \<in> ids (cf_sections c)" using ok by (simp add: load_ok_def)
    from section_at_ok [OF this] obtain s where s0: "section_at i c = Inr s" "find_section i (cf_sections c) = Some s" by blast
    have s: "section_at i c = Inr s" "set (nodes (cs_sections s)) \<subseteq> set (nodes (cf_sections c))"
      using s0(1) find_section_data [OF s0(2)] by simp_all
    have "cs_data s' \<in> set (nodes (cs_sections s)) \<and> set (nodes (cs_sections s')) \<subseteq> set (nodes (cs_sections s))"
      if "GetSection tab (cs_sections s) = Some s'" for s'
      using GetSection_mem [OF that] top_nodes by blast
    then have "\<forall>s'. GetSection tab (cs_sections s) = Some s' \<longrightarrow>
        cs_data s' \<in> set (nodes (cf_sections c)) \<and> set (nodes (cs_sections s')) \<subseteq> set (nodes (cf_sections c))"
      using subset_trans [OF _ s(2)] subsetD [OF s(2)] by simp
    then show ?thesis using Some s(1) by (simp add: look_def)
  qed
  have none: "load_ok (c, None, b)" for b using tree by (simp add: load_ok_def)
  have enter: "no_dangling load_ok (enter_section s (c, sec, err))"
    if s: "cs_data s \<in> set (nodes (cf_sections c))" "set (nodes (cs_sections s)) \<subseteq> set (nodes (cf_sections c))" for s
  proof (cases "IsMultiple (cs_data s)")
    case False
    have "load_ok (c, Some (cs_id (cs_data s)), err)" using tree s(1) by (simp add: load_ok_def)
    then show ?thesis using False by (simp add: enter_section_def Let_def load_ok_upd [where err' = err])
  next
    case True
    let ?c1 = "upd_at (cs_id (cs_data s)) (\<lambda>d. d\<lparr>cs_found := True\<rparr>) c" and ?s1 = "upd_data (\<lambda>d. d\<lparr>cs_found := True\<rparr>) s"
    have k: "fixed (cf_sections ?c1) = fixed (cf_sections c)" "parents (cf_sections ?c1) = parents (cf_sections c)"
      using upd_at_keeps [of "\<lambda>d. d\<lparr>cs_found := True\<rparr>"] by simp_all
    have "parents (cs_sections s) \<subseteq> insert None (Some ` fixed (cf_sections c))" "cs_parent (cs_data s) \<in> insert None (Some ` fixed (cf_sections c))"
      using subset_trans [OF image_mono [OF s(2)]] subsetD [OF _ imageI [OF s(1)]] tree by (simp_all only: tree_ok_iff)
    then have "no_dangling (\<lambda>(c1, n). tree_ok (cf_sections c1) \<and> n \<in> ids (cf_sections c1)) (open_copy ?s1 ?c1)"
      using tree k by (intro open_copy_ok) (simp_all add: tree_ok_iff upd_data_def)
    then have "no_dangling load_ok (bindE (open_copy ?s1 ?c1) (\<lambda>(c2, n). Inr (c2, Some n, err)))"
      by (rule no_dangling_bind) (auto simp: load_ok_def)
    then show ?thesis using True by (simp add: enter_section_def Let_def)
  qed
  have "no_dangling load_ok (bindE look (\<lambda>r. case r of None \<Rightarrow> fail (''Unknown section '' @ quoted tab) (c, None) | Some s \<Rightarrow> enter_section s (c, sec, err)))"
  proof (rule no_dangling_bind [OF look_ok])
    fix r assume "\<forall>s. r = Some s \<longrightarrow> cs_data s \<in> set (nodes (cf_sections c)) \<and> set (nodes (cs_sections s)) \<subseteq> set (nodes (cf_sections c))"
    then show "no_dangling load_ok (case r of None \<Rightarrow> fail (''Unknown section '' @ quoted tab) (c, None) | Some s \<Rightarrow> enter_section s (c, sec, err))"
      using fail_ok [OF none] enter by (cases r) simp_all
  qed
  then show ?thesis unfolding open_line_def tab_def [symmetric] look_def prod.case Let_def .
qed

lemma load_line_ok: "load_ok st \<Longrightarrow> no_dangling load_ok (load_line line st)"
proof -
  obtain c sec err where st: "st = (c, sec, err)" by (cases st)
  assume "load_ok st"
  then have "load_ok (c\<lparr>cf_line := cf_line c + 1\<rparr>, sec, err)" using st by (simp add: load_ok_def)
  then show ?thesis using st item_line_ok close_line_ok open_line_ok by (simp add: load_line_def Let_def)
qed

section \<open>Missing items\<close>

lemma empty_items_undef: "no_dangling (\<lambda>_. True) (empty_items d its)"
proof (induction its)
  case (Cons e its)
  obtain k it where e: "e = (k, it)" by force
  show ?case unfolding e empty_items.simps Let_def
    by (rule no_dangling_bind [where P = "\<lambda>_. True"])
      (use Cons.IH in \<open>auto intro!: no_dangling_bind [OF SetValue_undef] no_dangling_bind [where P = "\<lambda>_. True"] split: prod.split\<close>)
qed simp

text \<open>The loop keeps the shape of the tree.\<close>

lemma FindEmpty_shape:
  "no_dangling (\<lambda>(es, ss'). fixed ss' = fixed ss \<and> ids ss' = ids ss \<and> parents ss' = parents ss) (FindEmpty_sections b ss)"
proof (induction ss arbitrary: b rule: nodes.induct)
  case (2 d ss rest)
  have node: "no_dangling (\<lambda>(es, s1). fixed [s1] = fixed [ConfigSection d ss] \<and> ids [s1] = ids [ConfigSection d ss] \<and> parents [s1] = parents [ConfigSection d ss])
      (if \<not> cs_found d \<and> \<not> IsOptional d then Inr ([missing_section b d], ConfigSection d ss)
            else if IsMultiple d \<and> \<not> cs_copy d then Inr ([], ConfigSection d ss)
            else bindE (empty_items d (cs_items d)) (\<lambda>(es, its).
                 bindE (FindEmpty_sections (in_section d) ss) (\<lambda>(es1, ss1).
                   Inr (es @ es1, ConfigSection (d\<lparr>cs_items := its\<rparr>) ss1))))"
    using 2(1) by (auto intro!: no_dangling_bind [OF empty_items_undef] no_dangling_bind [where P = "\<lambda>(es, ss'). fixed ss' = fixed ss \<and> ids ss' = ids ss \<and> parents ss' = parents ss"])
  have cons: "fixed (s1 # rest1) = fixed [s1] \<union> fixed rest1 \<and> ids (s1 # rest1) = ids [s1] \<union> ids rest1 \<and> parents (s1 # rest1) = parents [s1] \<union> parents rest1"
    for s1 rest1 by (cases s1) auto
  show ?case unfolding FindEmpty_sections.simps
  proof (rule no_dangling_bind [OF node], clarify)
    fix es s1
    assume n: "fixed [s1] = fixed [ConfigSection d ss]" "ids [s1] = ids [ConfigSection d ss]" "parents [s1] = parents [ConfigSection d ss]"
    show "no_dangling (\<lambda>(es, ss'). fixed ss' = fixed (ConfigSection d ss # rest) \<and> ids ss' = ids (ConfigSection d ss # rest) \<and>
        parents ss' = parents (ConfigSection d ss # rest)) (bindE (FindEmpty_sections b rest) (\<lambda>(es2, rest1). Inr (es @ es2, s1 # rest1)))"
    proof (rule no_dangling_bind [OF 2(2)], clarify)
      fix es2 rest1
      assume "fixed rest1 = fixed rest" "ids rest1 = ids rest" "parents rest1 = parents rest"
      then show "no_dangling (\<lambda>(es, ss'). fixed ss' = fixed (ConfigSection d ss # rest) \<and> ids ss' = ids (ConfigSection d ss # rest) \<and>
          parents ss' = parents (ConfigSection d ss # rest)) (Inr (es @ es2, s1 # rest1))"
        using cons [of s1 rest1] cons [of "ConfigSection d ss" rest] n by (simp only: no_dangling_simps prod.case)
    qed
  qed
qed simp

lemma fold_Error_sections [simp]: "cf_sections (fold Error es c) = cf_sections c"
  by (induction es arbitrary: c) simp_all

lemma FindEmpty_ok: "tree_ok (cf_sections c) \<Longrightarrow> no_dangling (\<lambda>(b, c1). tree_ok (cf_sections c1)) (FindEmpty c)"
  unfolding FindEmpty_def by (rule no_dangling_bind [OF FindEmpty_shape]) (auto simp: tree_ok_iff)

lemma Load_ok:
  assumes "tree_ok (cf_sections c)"
  shows "no_dangling (\<lambda>(r, c1). tree_ok (cf_sections c1)) (Load file path c)"
proof -
  define c0 where "c0 = (if path \<noteq> [] then c\<lparr>cf_path := path\<rparr> else c)"
  have c0: "tree_ok (cf_sections c0)" using assms by (simp add: c0_def)
  show ?thesis
  proof (cases "cf_path c0 = [] \<or> file (cf_path c0) = None")
    case True
    then show ?thesis using c0 by (auto simp: Load_def c0_def [symmetric] Let_def)
  next
    case False
    then obtain content where f: "file (cf_path c0) = Some content" by auto
    let ?start = "(c0\<lparr>cf_sections := Clean (cf_sections c0), cf_line := 0\<rparr>, None, False) :: load_state"
    have lines: "no_dangling load_ok (foldE load_line (split_lines [] content) ?start)"
      by (rule no_dangling_foldE [OF load_line_ok]) (simp_all add: load_ok_def Clean_ok [OF c0])
    have close: "no_dangling (\<lambda>(c2, err1). tree_ok (cf_sections c2)) (case sec of
                      None \<Rightarrow> Inr (c1, err)
                    | Some i \<Rightarrow> bindE (section_at i c1) (\<lambda>s.
                        Inr (Error (in_section (cs_data s) @ quoted ''}'' @ '' not found to close section !'') c1, True)))"
      if "load_ok (c1, sec, err)" for c1 sec err
    proof (cases sec)
      case (Some i)
      then obtain s where "section_at i c1 = Inr s" using \<open>load_ok (c1, sec, err)\<close> section_at_ok [of i c1] by (auto simp: load_ok_def)
      then show ?thesis using Some \<open>load_ok (c1, sec, err)\<close> by (simp add: load_ok_def)
    qed (use that in \<open>simp add: load_ok_def\<close>)
    have "no_dangling (\<lambda>(r, c1). tree_ok (cf_sections c1)) (bindE (FindEmpty c2) (\<lambda>(missing, c3).
               let error = (err1 \<or> missing) in Inr (Inr (\<not> error), if error then c3 else c3\<lparr>cf_loaded := True\<rparr>)))"
      if "tree_ok (cf_sections c2)" for c2 err1
      by (rule no_dangling_bind [OF FindEmpty_ok [OF that]]) (auto simp: Let_def)
    then have "no_dangling (\<lambda>(r, c1). tree_ok (cf_sections c1)) (bindE (foldE load_line (split_lines [] content) ?start) (\<lambda>(c1, sec, err).
             bindE (case sec of
                      None \<Rightarrow> Inr (c1, err)
                    | Some i \<Rightarrow> bindE (section_at i c1) (\<lambda>s.
                        Inr (Error (in_section (cs_data s) @ quoted ''}'' @ '' not found to close section !'') c1, True))) (\<lambda>(c2, err1).
             bindE (FindEmpty c2) (\<lambda>(missing, c3).
               let error = (err1 \<or> missing) in Inr (Inr (\<not> error), if error then c3 else c3\<lparr>cf_loaded := True\<rparr>)))))"
      by (intro no_dangling_bind [OF lines]) (auto intro!: no_dangling_bind [OF close])
    then show ?thesis using False f by (simp add: Load_def c0_def [symmetric] Let_def)
  qed
qed

text \<open>The configurations of the program: the declared one, after any number of loads.\<close>

inductive configs :: "cfg \<Rightarrow> bool" where
  declared: "Minbif_conf tls pam = Inr (Inr c) \<Longrightarrow> configs c"
| loaded: "configs c \<Longrightarrow> Load file path c = Inr (r, c1) \<Longrightarrow> configs c1"

lemma Minbif_conf_ok:
  "(case Minbif_conf True True of Inr (Inr c) \<Rightarrow> tree_ok (cf_sections c) | _ \<Rightarrow> False) \<and>
   (case Minbif_conf True False of Inr (Inr c) \<Rightarrow> tree_ok (cf_sections c) | _ \<Rightarrow> False) \<and>
   (case Minbif_conf False True of Inr (Inr c) \<Rightarrow> tree_ok (cf_sections c) | _ \<Rightarrow> False) \<and>
   (case Minbif_conf False False of Inr (Inr c) \<Rightarrow> tree_ok (cf_sections c) | _ \<Rightarrow> False)"
  by code_simp

lemma configs_ok: "configs c \<Longrightarrow> tree_ok (cf_sections c)"
proof (induction rule: configs.induct)
  case (declared tls pam c)
  then show ?case using Minbif_conf_ok by (cases tls; cases pam) auto
next
  case (loaded c rd path r c1)
  then show ?case using Load_ok [of c rd path] by auto
qed

text \<open>The sections whose items \<open>FindEmpty\<close> looks at.\<close>

fun checked :: "csection list \<Rightarrow> section_data list" where
  "checked [] = []"
| "checked (ConfigSection d ss # rest) =
     (if \<not> cs_found d \<and> \<not> IsOptional d \<or> IsMultiple d \<and> \<not> cs_copy d then [] else d # checked ss) @ checked rest"

definition has_default :: "citem \<Rightarrow> bool" where
  "has_default it \<longleftrightarrow> (\<exists>v ok. item_SetValue (ci_def it) v = Inr (ok, ci_item it))"

definition defaulted :: "section_data \<Rightarrow> bool" where
  "defaulted d \<longleftrightarrow> (\<forall>(k, it)\<in>set (cs_items d). \<not> ci_found it \<and> ci_def it \<noteq> [] \<longrightarrow> has_default it)"

lemma empty_items_defaulted:
  "empty_items d its = Inr (es, its') \<Longrightarrow> \<forall>(k, it)\<in>set its'. \<not> ci_found it \<and> ci_def it \<noteq> [] \<longrightarrow> has_default it"
proof (induction its arbitrary: es its')
  case (Cons e its)
  obtain k it where e: "e = (k, it)" by force
  define missing where "missing = (if cs_found d
      then [in_section d @ ''missing item '' @ quoted (ci_label it) @ '' ('' @ ci_description it @ '')''] else [])"
  define inner where "inner = (if ci_found it then Inr ([], it) else if ci_def it = [] then Inr (missing, it)
        else bindE (item_SetValue (ci_def it) (ci_item it)) (\<lambda>(ok, v). Inr (if ok then [] else missing, it\<lparr>ci_item := v\<rparr>)))"
  have "bindE inner (\<lambda>(es, it1). bindE (empty_items d its) (\<lambda>(es1, its1). Inr (es @ es1, (k, it1) # its1))) = Inr (es, its')"
    using Cons.prems unfolding e empty_items.simps Let_def missing_def [symmetric] inner_def .
  then obtain es1 it1 es2 its1 where r: "its' = (k, it1) # its1" "empty_items d its = Inr (es2, its1)" "inner = Inr (es1, it1)"
    by (auto simp: bindE_Inr_iff)
  have "ci_found it1 \<or> ci_def it1 = [] \<or> has_default it1"
  proof (cases "ci_found it \<or> ci_def it = []")
    case False
    then obtain ok v where v: "item_SetValue (ci_def it) (ci_item it) = Inr (ok, v)" "it1 = it\<lparr>ci_item := v\<rparr>"
      using r(3) by (auto simp: inner_def bindE_Inr_iff)
    then have "has_default it1" unfolding has_default_def by (intro exI [of _ "ci_item it"] exI [of _ ok]) simp
    then show ?thesis by simp
  qed (use r(3) in \<open>auto simp: inner_def split: if_splits\<close>)
  then show ?case using Cons.IH [OF r(2)] r(1) by auto
qed simp

lemma FindEmpty_defaulted: "FindEmpty_sections b ss = Inr (es, ss') \<Longrightarrow> \<forall>d\<in>set (checked ss'). defaulted d"
proof (induction ss arbitrary: b es ss' rule: nodes.induct)
  case (2 d ss rest)
  obtain es1 s1 es2 rest1 where r: "ss' = s1 # rest1" "FindEmpty_sections b rest = Inr (es2, rest1)"
      "(if \<not> cs_found d \<and> \<not> IsOptional d then Inr ([missing_section b d], ConfigSection d ss)
            else if IsMultiple d \<and> \<not> cs_copy d then Inr ([], ConfigSection d ss)
            else bindE (empty_items d (cs_items d)) (\<lambda>(es, its).
                 bindE (FindEmpty_sections (in_section d) ss) (\<lambda>(es1, ss1).
                   Inr (es @ es1, ConfigSection (d\<lparr>cs_items := its\<rparr>) ss1)))) = Inr (es1, s1)"
    using 2(3) unfolding FindEmpty_sections.simps by (auto simp: bindE_Inr_iff)
  have rest: "\<forall>d\<in>set (checked rest1). defaulted d" using 2(2) [OF r(2)] .
  show ?case
  proof (cases "\<not> cs_found d \<and> \<not> IsOptional d \<or> IsMultiple d \<and> \<not> cs_copy d")
    case True
    then have "s1 = ConfigSection d ss" using r(3) by (auto split: if_splits)
    then show ?thesis using True rest r(1) by simp
  next
    case False
    then obtain es3 its es4 ss1 where n: "empty_items d (cs_items d) = Inr (es3, its)" "FindEmpty_sections (in_section d) ss = Inr (es4, ss1)"
        "s1 = ConfigSection (d\<lparr>cs_items := its\<rparr>) ss1"
      using r(3) by (auto simp: bindE_Inr_iff)
    have "defaulted (d\<lparr>cs_items := its\<rparr>)" using empty_items_defaulted [OF n(1)] by (simp add: defaulted_def)
    then show ?thesis using 2(1) [OF n(2)] rest r(1) n(3) by auto
  qed
qed simp

lemma Load_read:
  assumes "Load rd path c = Inr (Inr True, c1)"
  shows "\<exists>b ss es. FindEmpty_sections b ss = Inr (es, cf_sections c1)"
proof -
  define c0 where "c0 = (if path \<noteq> [] then c\<lparr>cf_path := path\<rparr> else c)"
  obtain content where f: "cf_path c0 \<noteq> []" "rd (cf_path c0) = Some content"
    using assms by (auto simp: Load_def c0_def [symmetric] Let_def split: if_splits option.splits)
  then obtain c2 missing c3 where m: "FindEmpty c2 = Inr (missing, c3)" "cf_sections c1 = cf_sections c3"
    using assms unfolding Load_def c0_def [symmetric] Let_def by (auto simp: bindE_Inr_iff split: if_splits)
  then obtain es where "FindEmpty_sections ''in global porty: '' (cf_sections c2) = Inr (es, cf_sections c3)"
    by (auto simp: FindEmpty_def bindE_Inr_iff)
  then show ?thesis unfolding m(2) by blast
qed

section \<open>Properties\<close>


text \<open>Numbers are read in binary, and a case of \<open>bindE\<close> only after the text it depends on.\<close>

lemma int_read_digits: "int (read_digits s) = foldl (\<lambda>n c. 10 * n + max 0 (of_char c - 48)) 0 s"
proof -
  have "int (foldl (\<lambda>n c. 10 * n + digit_value c) a s) = foldl (\<lambda>n c. 10 * n + max 0 (of_char c - 48)) (int a) s" for a
    by (induction s arbitrary: a) (simp_all add: digit_value_def zdiff_int_split max_def of_char_def of_nat_diff)
  from this [of 0] show ?thesis by (simp add: read_digits_def)
qed

lemma bindE_case: "bindE m f = (case m of Inl e \<Rightarrow> Inl e | Inr x \<Rightarrow> f x)" by (cases m) auto

declare int_read_digits [code_unfold] bindE_case [code_unfold]

text \<open>A configuration file as its lines.\<close>

definition file_of :: "string list \<Rightarrow> string" where
  "file_of ls = concat (map (\<lambda>l. l @ [CHR 0x0A]) ls)"

definition loaded_with :: "string list \<Rightarrow> exn + (string + bool) \<times> cfg" where
  "loaded_with ls = (case Minbif_conf False False of
       Inr (Inr c) \<Rightarrow> Load (\<lambda>_. Some (file_of ls)) ''x'' c | _ \<Rightarrow> Inl NullPointer)"


text \<open>
  C25: After a successful load, an item that the file does not set has its default, in every section
  that is checked: the sections of the first level and the optional ones in them, found or not, and
  every copy of a multiple section.
\<close>

theorem absent_items_default:
  assumes "Load rd path c = Inr (Inr True, c1)" and "d \<in> set (checked (cf_sections c1))" and "(k, it) \<in> set (cs_items d)"
    and "\<not> ci_found it" and "ci_def it \<noteq> []"
  shows "\<exists>v ok. item_SetValue (ci_def it) v = Inr (ok, ci_item it)"
  using Load_read [OF assms(1)] FindEmpty_defaulted assms(2-5) by (fastforce simp: defaulted_def has_default_def)

definition sample_lines :: "string list" where
  "sample_lines = [''path {'', ''users = /u'', ''}'', ''irc {'', '' oper {'', ''  login = root'', '' }'', ''}'', ''logging {'', '' level = ERR'', '' to_syslog = no'', ''}'']"

lemma sample_load:
  "case loaded_with sample_lines of
     Inr (Inr True, c) \<Rightarrow> conf_opers c = Inr [(''root'', [], ''*@*'')] \<and> cf_cerr c \<noteq> [] \<and>
       bindE (conf_get ''irc'' ''password'' c) item_String = Inr '' '' \<and> bindE (conf_get ''irc'' ''ping'' c) item_Integer = Inr 60 \<and>
       bindE (conf_get ''irc'' ''buddy_icons_url'' c) item_String = Inr '' '' \<and> bindE (conf_get ''aaa'' ''use_local'' c) item_Boolean = Inr True \<and>
       bindE (conf_get ''aaa'' ''use_connection'' c) item_Boolean = Inr False \<and> bindE (conf_get ''file_transfers'' ''enabled'' c) item_Boolean = Inr True \<and>
       filter (\<lambda>(k, it). \<not> ci_found it \<and> ci_def it = ''60'') (concat (map cs_items (checked (cf_sections c)))) \<noteq> []
   | _ \<Rightarrow> False"
  by code_simp

lemma sample_loaded:
  obtains c where "loaded_with sample_lines = Inr (Inr True, c)" "conf_opers c = Inr [(''root'', [], ''*@*'')]"
    "bindE (conf_get ''irc'' ''password'' c) item_String = Inr '' ''" "bindE (conf_get ''irc'' ''ping'' c) item_Integer = Inr 60"
    "bindE (conf_get ''irc'' ''buddy_icons_url'' c) item_String = Inr '' ''" "bindE (conf_get ''aaa'' ''use_local'' c) item_Boolean = Inr True"
    "bindE (conf_get ''aaa'' ''use_connection'' c) item_Boolean = Inr False" "bindE (conf_get ''file_transfers'' ''enabled'' c) item_Boolean = Inr True"
    "filter (\<lambda>(k, it). \<not> ci_found it \<and> ci_def it = ''60'') (concat (map cs_items (checked (cf_sections c)))) \<noteq> []"
proof (cases "loaded_with sample_lines")
  case (Inl e)
  then show ?thesis using sample_load by simp
next
  case (Inr r)
  obtain x c where r: "r = (x, c)" by (cases r)
  then obtain b where "x = Inr b" "b" using sample_load Inr by (cases x) (simp_all split: bool.splits)
  with that [of c] show ?thesis using sample_load by (simp add: Inr r del: filter_empty_conv bindE_Inr_iff)
qed

theorem absent_items_default_witness:
  "\<exists>c (d :: section_data) k it v ok. loaded_with sample_lines = Inr (Inr True, c) \<and> (k, it) \<in> set (cs_items d) \<and> ci_def it = ''60'' \<and>
    item_SetValue ''60'' v = Inr (ok, ci_item it)"
proof -
  obtain c where l: "loaded_with sample_lines = Inr (Inr True, c)"
    and f: "filter (\<lambda>(k, it). \<not> ci_found it \<and> ci_def it = ''60'') (concat (map cs_items (checked (cf_sections c)))) \<noteq> []"
    by (rule sample_loaded)
  from f have "\<exists>p\<in>set (concat (map cs_items (checked (cf_sections c)))). \<not> ci_found (snd p) \<and> ci_def (snd p) = ''60''"
    unfolding filter_empty_conv by (auto simp: case_prod_beta)
  then obtain d k it where d: "d \<in> set (checked (cf_sections c))" "(k, it) \<in> set (cs_items d)" "\<not> ci_found it" "ci_def it = ''60''"
    by fastforce
  obtain c0 where "Load (\<lambda>_. Some (file_of sample_lines)) ''x'' c0 = Inr (Inr True, c)"
    using l by (auto simp: loaded_with_def split: sum.splits)
  moreover have "ci_def it \<noteq> []" using d(4) by simp
  ultimately obtain v ok where "item_SetValue (ci_def it) v = Inr (ok, ci_item it)"
    using absent_items_default [OF _ d(1-3)] by blast
  with d(4) have "item_SetValue ''60'' v = Inr (ok, ci_item it)" by simp
  with l d(2,4) show ?thesis by blast
qed

text \<open>
  C26: A mandatory item that is missing is reported but does not make the load fail, since the result
  of \<open>ConfigSection::FindEmpty\<close> is not used: a file with an \<open>oper\<close> block without a password is
  loaded, and then anybody becomes an operator with the line \<open>OPER root :\<close>.
\<close>

theorem oper_block_without_password:
  assumes "host_ok (se_net s)" and "the_user s = Inr u"
  shows "\<exists>c x1 m s' u'. loaded_with sample_lines = Inr (Inr True, c) \<and> configure c x = Inr x1 \<and>
    parse ''OPER root :'' = Inr m \<and> m_oper x1 m s = Inr s' \<and> the_user s' = Inr u' \<and> hasFlag OPER u'"
proof -
  obtain c where l: "loaded_with sample_lines = Inr (Inr True, c)" and o: "conf_opers c = Inr [(''root'', [], ''*@*'')]"
    and g: "bindE (conf_get ''irc'' ''password'' c) item_String = Inr '' ''" "bindE (conf_get ''irc'' ''ping'' c) item_Integer = Inr 60"
      "bindE (conf_get ''irc'' ''buddy_icons_url'' c) item_String = Inr '' ''" "bindE (conf_get ''aaa'' ''use_local'' c) item_Boolean = Inr True"
      "bindE (conf_get ''aaa'' ''use_connection'' c) item_Boolean = Inr False" "bindE (conf_get ''file_transfers'' ''enabled'' c) item_Boolean = Inr True"
    by (rule sample_loaded)
  obtain x1 where x1: "configure c x = Inr x1" "x_opers x1 = [(''root'', [], ''*@*'')]"
    using o g by (simp add: configure_def)
  let ?m = "\<lparr>msg_cmd = ''OPER'', msg_sender = no_entity, msg_receiver = no_entity, msg_args = [''root'', []]\<rparr> :: irc_msg"
  have "parse ''OPER root :'' = Inr ?m" by code_simp
  moreover obtain s' u' where "m_oper x1 ?m s = Inr s'" "the_user s' = Inr u'"
      "hasFlag OPER u' \<longleftrightarrow> hasFlag OPER u \<or> (\<exists>email. (''root'', [], email) \<in> set (x_opers x1))"
    using oper_result [OF assms, of ?m "''root''" "[]" "[]" x1] by auto
  ultimately show ?thesis using l x1 by auto
qed

theorem oper_block_without_password_witness:
  "\<exists>c x1 m s' u'. loaded_with sample_lines = Inr (Inr True, c) \<and> configure c sample_env = Inr x1 \<and>
    parse ''OPER root :'' = Inr m \<and> m_oper x1 m sample_state = Inr s' \<and> the_user s' = Inr u' \<and> hasFlag OPER u'"
  by (rule oper_block_without_password [OF sample_facts(1,2)])

end
