(* ===== verification/Requests.thy ===== *)
theory Requests
  imports Session
begin

text \<open>
  The questions of libpurple to the user, \<open>src/src/im/request.cpp\<close> and \<open>request.h\<close>: the queue of
  requests, the nick \<open>request\<close> that asks them and takes the answers, and the notifications.

  A \<open>Request*\<close> is the number of the request; the requests inside a \<open>RequestFieldList\<close> are values of
  its list, as nothing else points to them. libpurple, and the callbacks it passes to the program, are
  the function \<open>re_run\<close>: what a call does to the state of the program. \<open>rq_calls\<close> keeps the calls.
  The build modelled is the one without libcaca.
\<close>

section \<open>Data\<close>

datatype request_type = REQ_INPUT | REQ_CHOICE | REQ_ACTION | REQ_FIELDS

text \<open>A callback with its data: of an action, of a choice, of a dialog of fields.\<close>

datatype rcallback =
    PurpleRequestActionCb nat nat int
  | PurpleRequestChoiceCb nat nat int
  | PurpleRequestFieldsCb nat nat nat

text \<open>The calls out of the program; a field is a \<open>PurpleRequestField*\<close>.\<close>

datatype rcall =
    RunCallback rcallback
  | InputCb nat nat string
  | FileCb nat nat "string option"
  | SetString nat string
  | SetInt nat int
  | SetBool nat bool
  | SetChoice nat int
  | ClearSelected nat
  | AddSelected nat string
  | CloseRequest request_type nat

datatype rfield =
    RequestFieldTmplt string string "rcallback option"
  | RequestFieldFieldsBoolean nat bool string
  | RequestFieldFieldsChoice nat int string
  | RequestFieldFieldsList nat int string

fun getLabel :: "rfield \<Rightarrow> string" where
  "getLabel (RequestFieldTmplt label txt cb) = label"
| "getLabel (RequestFieldFieldsBoolean fd v txt) = txt"
| "getLabel (RequestFieldFieldsChoice fd v txt) = txt"
| "getLabel (RequestFieldFieldsList fd v txt) = txt"

fun getText :: "rfield \<Rightarrow> string" where
  "getText (RequestFieldTmplt label txt cb) = txt"
| "getText (RequestFieldFieldsBoolean fd v txt) = txt"
| "getText (RequestFieldFieldsChoice fd v txt) = txt"
| "getText (RequestFieldFieldsList fd v txt) = txt"

fun setLabel :: "string \<Rightarrow> rfield \<Rightarrow> rfield" where
  "setLabel l (RequestFieldTmplt label txt cb) = RequestFieldTmplt l txt cb"
| "setLabel l (RequestFieldFieldsBoolean fd v txt) = RequestFieldFieldsBoolean fd v l"
| "setLabel l (RequestFieldFieldsChoice fd v txt) = RequestFieldFieldsChoice fd v l"
| "setLabel l (RequestFieldFieldsList fd v txt) = RequestFieldFieldsList fd v l"

text \<open>The data of the base class \<open>Request\<close>; \<open>None\<close> is an account that is not valid.\<close>

record rdata =
  rd_account :: "im_account option"
  rd_title :: string
  rd_primary :: string
  rd_secondary :: string

type_synonym rfields = "(string, rfield) smap"

datatype subrequest =
    RequestFieldsString rdata string nat
  | RequestFieldsInteger rdata string nat
  | RequestFieldsImage rdata nat
  | RequestFieldsList rdata rfields

datatype request =
    RequestInput rdata string "nat option" nat
  | RequestFieldList request_type rdata rfields "subrequest list"

record rstate =
  rq_session :: session
  rq_nick :: nid
  rq_requests :: "(nat \<times> request) list"
  rq_next :: nat
  rq_calls :: "rcall list"

text \<open>
  \<open>re_tmpfile\<close> is the file \<open>g_file_open_tmp\<close> makes for an image, or its error; \<open>re_strip\<close> is
  \<open>purple_markup_strip_html\<close>; \<open>re_errno\<close> is the text of \<open>errno\<close>.
\<close>

record renv =
  re_x :: senv
  re_run :: "rcall \<Rightarrow> rstate \<Rightarrow> exn + rstate"
  re_tmpfile :: "nat \<Rightarrow> string + string"
  re_strip :: "string \<Rightarrow> string"
  re_errno :: string

section \<open>Talking to the user\<close>

definition rlift :: "(session \<Rightarrow> exn + session) \<Rightarrow> rstate \<Rightarrow> exn + rstate" where
  "rlift f s = bindE (f (rq_session s)) (\<lambda>se. Inr (s\<lparr>rq_session := se\<rparr>))"

text \<open>\<open>nick->privmsg(irc->getUser(), text)\<close>.\<close>

definition say :: "renv \<Rightarrow> string \<Rightarrow> rstate \<Rightarrow> exn + rstate" where
  "say e txt s = rlift (\<lambda>se. on_net (privmsg_nick (sworld (re_x e) se) (rq_nick s) (user_id (se_net se)) txt) se) s"

definition rlog :: "renv \<Rightarrow> string \<Rightarrow> rstate \<Rightarrow> exn + rstate" where
  "rlog e txt = rlift (b_log (re_x e) W_ERR txt)"

definition call :: "renv \<Rightarrow> rcall \<Rightarrow> rstate \<Rightarrow> exn + rstate" where
  "call e c s = re_run e c (s\<lparr>rq_calls := rq_calls s @ [c]\<rparr>)"

section \<open>Fields\<close>

text \<open>The loop of \<open>addField\<close> that appends underscores until the label is free.\<close>

definition longest :: "rfields \<Rightarrow> nat" where
  "longest m = Max (insert 0 ((length \<circ> fst) ` set m))"

lemma map_find_longest: "map_find m l \<noteq> None \<Longrightarrow> length l \<le> longest m"
  unfolding longest_def by (intro Max_ge) (auto simp: map_of_eq_None_iff image_iff)

function free_label :: "rfields \<Rightarrow> string \<Rightarrow> string" where
  "free_label m l = (if map_find m l \<noteq> None then free_label m (l @ ''_'') else l)"
  by pat_completeness auto
termination
proof (relation "measure (\<lambda>(m, l). Suc (longest m) - length l)")
  fix m :: rfields and l :: string
  assume "map_find m l \<noteq> None"
  then show "((m, l @ ''_''), m, l) \<in> measure (\<lambda>(m, l). Suc (longest m) - length l)"
    using map_find_longest [of m l] by auto
qed simp

declare free_label.simps [simp del]

definition addField :: "rfield \<Rightarrow> rfields \<Rightarrow> rfields" where
  "addField f m = (let l = free_label m (getLabel f) in map_set l (setLabel l f) m)"

fun runCallback :: "renv \<Rightarrow> rfield \<Rightarrow> rstate \<Rightarrow> exn + rstate" where
  "runCallback e (RequestFieldTmplt label txt cb) s = (case cb of None \<Rightarrow> Inr s | Some c \<Rightarrow> call e (RunCallback c) s)"
| "runCallback e (RequestFieldFieldsBoolean fd v txt) s = call e (SetBool fd v) s"
| "runCallback e (RequestFieldFieldsChoice fd v txt) s = call e (SetChoice fd v) s"
| "runCallback e (RequestFieldFieldsList fd v txt) s = seqE [call e (ClearSelected fd), call e (AddSelected fd txt)] s"

section \<open>Showing a request\<close>

definition head_lines :: "renv \<Rightarrow> rstate \<Rightarrow> rdata \<Rightarrow> string list" where
  "head_lines e s d =
     [(case rd_account d of
         Some a \<Rightarrow> ''['' @ w_acc_id (sworld (re_x e) (rq_session s)) a @ ''] New request: '' @ rd_title d
       | None \<Rightarrow> ''New request: '' @ rd_title d)] @
     (if rd_primary d = [] then [] else [rd_primary d]) @ (if rd_secondary d = [] then [] else [rd_secondary d])"

definition input_lines :: "renv \<Rightarrow> rstate \<Rightarrow> rdata \<Rightarrow> string \<Rightarrow> string list" where
  "input_lines e s d def = head_lines e s d @ [''Default value is: '' @ def, ''Type answer:'']"

definition list_lines :: "renv \<Rightarrow> rstate \<Rightarrow> rdata \<Rightarrow> rfields \<Rightarrow> string list" where
  "list_lines e s d fs = head_lines e s d @ map (\<lambda>(l, f). ''- '' @ l @ '': '' @ getText f) fs"

text \<open>The image of a \<open>RequestFieldsImage\<close> is written to a temporary file.\<close>

definition show_image :: "renv \<Rightarrow> nat \<Rightarrow> rstate \<Rightarrow> exn + rstate" where
  "show_image e fd s =
     (case re_tmpfile e fd of
        Inl err \<Rightarrow> rlog e (''Unable to create a temporary file: '' @ err) s
      | Inr tmp \<Rightarrow> say e (''Image ('' @ tmp @ '')'') s)"

text \<open>The first request loses its first subrequest.\<close>

fun pop_sub :: "request \<Rightarrow> request" where
  "pop_sub (RequestFieldList ty d fs subs) = RequestFieldList ty d fs (tl subs)"
| "pop_sub r = r"

definition pop_first :: "rstate \<Rightarrow> rstate" where
  "pop_first s = s\<lparr>rq_requests := (case rq_requests s of [] \<Rightarrow> [] | (i, r) # rs \<Rightarrow> (i, pop_sub r) # rs)\<rparr>"

text \<open>
  \<open>RequestFieldList::display\<close> of the first request. An image has no answer: its \<open>display\<close> closes the
  first request, which is the list the image is in, so that the list drops the image and shows the next
  subrequest.
\<close>

fun display_list :: "renv \<Rightarrow> rdata \<Rightarrow> rfields \<Rightarrow> subrequest list \<Rightarrow> rstate \<Rightarrow> exn + rstate" where
  "display_list e d fs [] s = foldE (say e) (list_lines e s d fs) s"
| "display_list e d fs (RequestFieldsImage d1 fd # subs) s =
     bindE (show_image e fd s) (\<lambda>s1. display_list e d fs subs (pop_first s1))"
| "display_list e d fs (RequestFieldsString d1 def fd # subs) s = foldE (say e) (input_lines e s d1 def) s"
| "display_list e d fs (RequestFieldsInteger d1 def fd # subs) s = foldE (say e) (input_lines e s d1 def) s"
| "display_list e d fs (RequestFieldsList d1 fs1 # subs) s = foldE (say e) (list_lines e s d1 fs1) s"

text \<open>\<open>display\<close> is only called on the first request.\<close>

definition display :: "renv \<Rightarrow> rstate \<Rightarrow> exn + rstate" where
  "display e s =
     (case rq_requests s of
        [] \<Rightarrow> Inr s
      | (i, RequestInput d def cb data) # rs \<Rightarrow> foldE (say e) (input_lines e s d def) s
      | (i, RequestFieldList ty d fs subs) # rs \<Rightarrow> display_list e d fs subs s)"

section \<open>Answers\<close>

text \<open>\<open>process\<close>: \<open>None\<close> is the exception \<open>RequestFieldNotFound\<close>, thrown before anything is called.\<close>

definition process_label :: "renv \<Rightarrow> rfields \<Rightarrow> string \<Rightarrow> rstate \<Rightarrow> exn + rstate option" where
  "process_label e fs txt s =
     (case map_find fs txt of None \<Rightarrow> Inr None | Some f \<Rightarrow> bindE (runCallback e f s) (\<lambda>s1. Inr (Some s1)))"

definition processed :: "exn + rstate \<Rightarrow> exn + rstate option" where
  "processed r = bindE r (\<lambda>s. Inr (Some s))"

definition process_sub :: "renv \<Rightarrow> subrequest \<Rightarrow> string \<Rightarrow> rstate \<Rightarrow> exn + rstate option" where
  "process_sub e r txt s =
     (case r of
        RequestFieldsString d def fd \<Rightarrow> processed (call e (SetString fd txt) s)
      | RequestFieldsInteger d def fd \<Rightarrow> processed (bindE (s2t_signed 32 txt) (\<lambda>i. call e (SetInt fd i) s))
      | RequestFieldsImage d fd \<Rightarrow> Inr (Some s)
      | RequestFieldsList d fs \<Rightarrow> process_label e fs txt s)"

definition process :: "renv \<Rightarrow> request \<Rightarrow> string \<Rightarrow> rstate \<Rightarrow> exn + rstate option" where
  "process e r txt s =
     (case r of
        RequestInput d def cb data \<Rightarrow> (case cb of None \<Rightarrow> Inl NullPointer | Some c \<Rightarrow> processed (call e (InputCb c data txt) s))
      | RequestFieldList ty d fs subs \<Rightarrow> (case subs of [] \<Rightarrow> process_label e fs txt s | r1 # _ \<Rightarrow> process_sub e r1 txt s))"

text \<open>
  \<open>close\<close> of the first request: a list with subrequests drops the first one and shows the next, any other
  request is closed by libpurple.
\<close>

definition request_type_of :: "request \<Rightarrow> request_type" where
  "request_type_of r = (case r of RequestInput _ _ _ _ \<Rightarrow> REQ_INPUT | RequestFieldList ty _ _ _ \<Rightarrow> ty)"

definition subs_of :: "request \<Rightarrow> subrequest list" where
  "subs_of r = (case r of RequestInput _ _ _ _ \<Rightarrow> [] | RequestFieldList _ _ _ subs \<Rightarrow> subs)"

definition close_first :: "renv \<Rightarrow> nat \<Rightarrow> request \<Rightarrow> rstate \<Rightarrow> exn + rstate" where
  "close_first e i r s =
     (if subs_of r \<noteq> [] then display e (pop_first s) else call e (CloseRequest (request_type_of r) i) s)"

text \<open>\<open>closeRequest\<close>, which libpurple calls back.\<close>

definition closeRequest :: "renv \<Rightarrow> nat \<Rightarrow> rstate \<Rightarrow> exn + rstate" where
  "closeRequest e i s =
     (if i \<notin> fst ` set (rq_requests s) then Inr s
      else let s1 = s\<lparr>rq_requests := filter (\<lambda>(j, r). j \<noteq> i) (rq_requests s)\<rparr>
           in if fst (hd (rq_requests s)) = i then bindE (say e ''Request closed.'' s1) (display e) else Inr s1)"

text \<open>
  \<open>RequestNick::send\<close>. The request is closed after its answer was processed; when a callback has
  deleted it in the meantime, the pointer dangles.
\<close>

definition RequestNick_send :: "renv \<Rightarrow> irc_msg \<Rightarrow> rstate \<Rightarrow> exn + rstate" where
  "RequestNick_send e m s =
     (if msg_cmd m \<noteq> ''PRIVMSG'' \<or> se_entity (msg_receiver m) \<noteq> Some (ENick (rq_nick s)) then Inr s
      else bindE (getArg m 0) (\<lambda>txt.
        if txt \<noteq> [] \<and> hd txt = CHR 0x01 then Inr s
        else case rq_requests s of
          [] \<Rightarrow> say e ''No active question'' s
        | (i, r) # _ \<Rightarrow>
            bindE (process e r txt s) (\<lambda>res. case res of
                None \<Rightarrow> bindE (say e (''ERROR: Answer '' @ [CHR 0x27] @ txt @ [CHR 0x27] @ '' is not valid.'') s) (display e)
              | Some s1 \<Rightarrow> (case rq_requests s1 of
                    [] \<Rightarrow> Inl Dangling
                  | (j, r1) # _ \<Rightarrow> if j = i then close_first e i r1 s1 else Inl Dangling))))"

section \<open>Questions\<close>

definition title_of :: "request \<Rightarrow> string" where
  "title_of r = (case r of RequestInput d _ _ _ \<Rightarrow> rd_title d | RequestFieldList _ d _ _ \<Rightarrow> rd_title d)"

text \<open>\<open>addRequest\<close>; the handle it returns is the number \<open>rq_next\<close> of the state before.\<close>

definition addRequest :: "renv \<Rightarrow> request \<Rightarrow> rstate \<Rightarrow> exn + rstate" where
  "addRequest e r s =
     (let s1 = s\<lparr>rq_requests := rq_requests s @ [(rq_next s, r)], rq_next := rq_next s + 1\<rparr>
      in if length (rq_requests s1) = 1 then display e s1
         else say e (''Hint: Received a new request ('' @ title_of r @ ''). There are '' @
                t2s (length (rq_requests s1) - 1) @ '' requests in stack'') s1)"

text \<open>\<open>p ? p : ""\<close>.\<close>

definition text_or_empty :: "string option \<Rightarrow> string" where
  "text_or_empty p = (case p of None \<Rightarrow> [] | Some t \<Rightarrow> t)"

definition request_data :: "im_account option \<Rightarrow> string option \<Rightarrow> string option \<Rightarrow> string option \<Rightarrow> rdata" where
  "request_data a title primary secondary =
     \<lparr>rd_account = a, rd_title = text_or_empty title, rd_primary = text_or_empty primary, rd_secondary = text_or_empty secondary\<rparr>"

definition request_input ::
  "renv \<Rightarrow> string option \<Rightarrow> string option \<Rightarrow> string option \<Rightarrow> string option \<Rightarrow> nat option \<Rightarrow> im_account option \<Rightarrow> nat \<Rightarrow> rstate \<Rightarrow> exn + rstate"
where
  "request_input e title primary secondary def ok_cb a data =
     addRequest e (RequestInput (request_data a title primary secondary) (text_or_empty def) ok_cb data)"

text \<open>The answer to a button is the first word of its text, in lower case.\<close>

definition button_label :: "string \<Rightarrow> string" where
  "button_label txt = strlower (fst (stringtok txt ''_ ''))"

fun action_fields :: "nat \<Rightarrow> int \<Rightarrow> (string \<times> nat option) list \<Rightarrow> rfields \<Rightarrow> rfields" where
  "action_fields data i [] m = m"
| "action_fields data i ((txt, cb) # actions) m =
     action_fields data (i + 1) actions
       (addField (RequestFieldTmplt (button_label txt) txt (map_option (\<lambda>c. PurpleRequestActionCb c data i) cb)) m)"

definition request_action ::
  "renv \<Rightarrow> string option \<Rightarrow> string option \<Rightarrow> string option \<Rightarrow> im_account option \<Rightarrow> nat \<Rightarrow> (string \<times> nat option) list \<Rightarrow> rstate \<Rightarrow> exn + rstate"
where
  "request_action e title primary secondary a data actions =
     addRequest e (RequestFieldList REQ_ACTION (request_data a title primary secondary) (action_fields data 0 actions []) [])"

definition choice_field :: "nat \<Rightarrow> nat option \<Rightarrow> string \<Rightarrow> string \<Rightarrow> int \<Rightarrow> rfield" where
  "choice_field data cb label txt v = RequestFieldTmplt label txt (map_option (\<lambda>c. PurpleRequestChoiceCb c data v) cb)"

definition choice_fields :: "nat \<Rightarrow> nat option \<Rightarrow> nat option \<Rightarrow> (string \<times> int) list \<Rightarrow> rfields" where
  "choice_fields data ok_cb cancel_cb choices =
     addField (choice_field data cancel_cb ''cancel'' ''Cancel'' 0)
       (fold (\<lambda>(txt, v). addField (choice_field data ok_cb (button_label txt) txt v)) choices [])"

definition request_choice ::
  "renv \<Rightarrow> string option \<Rightarrow> string option \<Rightarrow> string option \<Rightarrow> nat option \<Rightarrow> nat option \<Rightarrow> im_account option \<Rightarrow> nat \<Rightarrow> (string \<times> int) list \<Rightarrow> rstate \<Rightarrow> exn + rstate"
where
  "request_choice e title primary secondary ok_cb cancel_cb a data choices =
     addRequest e (RequestFieldList REQ_CHOICE (request_data a title primary secondary) (choice_fields data ok_cb cancel_cb choices) [])"

section \<open>Dialogs of fields\<close>

text \<open>What the program reads from a \<open>PurpleRequestField\<close>.\<close>

datatype pfield_type =
    FIELD_STRING
  | FIELD_INTEGER
  | FIELD_IMAGE
  | FIELD_BOOLEAN
  | FIELD_CHOICE
  | FIELD_LIST
  | FIELD_OTHER nat

record pfield =
  fd_ptr :: nat
  fd_type :: pfield_type
  fd_visible :: bool
  fd_label :: "string option"
  fd_default :: "string option"
  fd_int :: int
  fd_labels :: "string list"

text \<open>\<open>title ? title : primary ? primary : ""\<close>, and the text under it.\<close>

definition dialog_title :: "string option \<Rightarrow> string option \<Rightarrow> string" where
  "dialog_title title primary = (case title of Some t \<Rightarrow> t | None \<Rightarrow> text_or_empty primary)"

definition dialog_text :: "string option \<Rightarrow> string option \<Rightarrow> string option \<Rightarrow> string" where
  "dialog_text title primary secondary =
     (case title of
        Some _ \<Rightarrow> (case primary of Some p \<Rightarrow> p | None \<Rightarrow> text_or_empty secondary)
      | None \<Rightarrow> text_or_empty secondary)"

fun numbered_fields :: "(int \<Rightarrow> string \<Rightarrow> rfield) \<Rightarrow> int \<Rightarrow> string list \<Rightarrow> rfields \<Rightarrow> rfields" where
  "numbered_fields f i [] m = m"
| "numbered_fields f i (l # ls) m = numbered_fields f (i + 1) ls (addField (f i l) m)"

text \<open>One field of the dialog: the subrequest for it, or what is logged.\<close>

definition field_subrequest :: "im_account option \<Rightarrow> string option \<Rightarrow> string option \<Rightarrow> string option \<Rightarrow> pfield \<Rightarrow> string + subrequest" where
  "field_subrequest a title primary secondary p =
     (let d = \<lparr>rd_account = a, rd_title = dialog_title title primary, rd_primary = text_or_empty secondary,
               rd_secondary = text_or_empty (fd_label p)\<rparr>
      in case fd_type p of
           FIELD_STRING \<Rightarrow> Inr (RequestFieldsString d (text_or_empty (fd_default p)) (fd_ptr p))
         | FIELD_INTEGER \<Rightarrow> Inr (RequestFieldsInteger d (t2s_int (fd_int p)) (fd_ptr p))
         | FIELD_IMAGE \<Rightarrow> Inr (RequestFieldsImage \<lparr>rd_account = a, rd_title = [], rd_primary = [], rd_secondary = []\<rparr> (fd_ptr p))
         | FIELD_BOOLEAN \<Rightarrow> Inr (RequestFieldsList d
             (addField (RequestFieldFieldsBoolean (fd_ptr p) False ''false'') (addField (RequestFieldFieldsBoolean (fd_ptr p) True ''true'') [])))
         | FIELD_CHOICE \<Rightarrow> Inr (RequestFieldsList d (numbered_fields (RequestFieldFieldsChoice (fd_ptr p)) 0 (fd_labels p) []))
         | FIELD_LIST \<Rightarrow> Inr (RequestFieldsList d (numbered_fields (RequestFieldFieldsList (fd_ptr p)) 0 (fd_labels p) []))
         | FIELD_OTHER t \<Rightarrow> Inl (''Skipped a field '' @ t2s t))"

fun dialog_fields :: "renv \<Rightarrow> im_account option \<Rightarrow> string option \<Rightarrow> string option \<Rightarrow> string option \<Rightarrow> pfield list \<Rightarrow> rstate \<Rightarrow>
  exn + subrequest list \<times> rstate" where
  "dialog_fields e a title primary secondary [] s = Inr ([], s)"
| "dialog_fields e a title primary secondary (p # ps) s =
     (if \<not> fd_visible p then dialog_fields e a title primary secondary ps s
      else case field_subrequest a title primary secondary p of
             Inl msg \<Rightarrow> bindE (rlog e msg s) (dialog_fields e a title primary secondary ps)
           | Inr r \<Rightarrow> bindE (dialog_fields e a title primary secondary ps s) (\<lambda>(rs, s1). Inr (r # rs, s1)))"

definition confirm_fields :: "string \<Rightarrow> nat option \<Rightarrow> string \<Rightarrow> nat option \<Rightarrow> nat \<Rightarrow> nat \<Rightarrow> rfields" where
  "confirm_fields ok ok_cb cancel cancel_cb data dialog =
     addField (RequestFieldTmplt ''cancel'' cancel (map_option (\<lambda>c. PurpleRequestFieldsCb c data dialog) cancel_cb))
       (addField (RequestFieldTmplt ''ok'' ok (map_option (\<lambda>c. PurpleRequestFieldsCb c data dialog) ok_cb)) [])"

definition request_fields ::
  "renv \<Rightarrow> string option \<Rightarrow> string option \<Rightarrow> string option \<Rightarrow> nat \<Rightarrow> pfield list list \<Rightarrow> string \<Rightarrow> nat option \<Rightarrow> string \<Rightarrow> nat option \<Rightarrow>
   im_account option \<Rightarrow> nat \<Rightarrow> rstate \<Rightarrow> exn + rstate"
where
  "request_fields e title primary secondary dialog groups ok ok_cb cancel cancel_cb a data s =
     bindE (dialog_fields e a title primary secondary (concat groups) s) (\<lambda>(subs, s1).
       addRequest e (RequestFieldList REQ_FIELDS
         \<lparr>rd_account = a, rd_title = dialog_title title primary, rd_primary = dialog_text title primary secondary,
          rd_secondary = ''Do you confirm?''\<rparr>
         (confirm_fields ok ok_cb cancel cancel_cb data dialog) subs) s1)"

section \<open>Files and notifications\<close>

text \<open>\<open>request_file\<close>: files are saved in the directory of downloads, opening one is refused.\<close>

definition request_file ::
  "renv \<Rightarrow> string option \<Rightarrow> string \<Rightarrow> bool \<Rightarrow> nat \<Rightarrow> nat \<Rightarrow> nat \<Rightarrow> rstate \<Rightarrow> exn + rstate" where
  "request_file e title filename savedialog ok_cb cancel_cb data s =
     (let w = sworld (re_x e) (rq_session s); path = w_user_path w @ ''/downloads/'' in
      if \<not> w_ft_enabled w
      then seqE [rlog e ''File transfers are disabled on this server.'', call e (FileCb cancel_cb data None)] s
      else if savedialog
      then if \<not> check_write_file w path filename
           then seqE [rlog e (''Unable to write into the download directory '' @ [CHR 0x27] @ path @ [CHR 0x27] @ '': '' @ re_errno e),
                      call e (FileCb cancel_cb data None)] s
           else call e (FileCb ok_cb data (Some (path @ filename))) s
      else seqE [say e (''Warning: something tries to ask you to open a filename ('' @ text_or_empty title @ ''). But it is not yet implemented.''),
                 call e (FileCb cancel_cb data None)] s)"

text \<open>The texts of a notification: the first is a title when it is one line.\<close>

fun notify_texts :: "bool \<Rightarrow> string option list \<Rightarrow> string list" where
  "notify_texts titled [] = []"
| "notify_texts titled (None # ts) = notify_texts titled ts"
| "notify_texts titled (Some txt # ts) =
     (if txt = [] then notify_texts titled ts
      else (if \<not> titled \<and> CHR 0x0A \<notin> set txt then ['':: '' @ txt @ '' ::''] else tokens txt [CHR 0x0D, CHR 0x0A]) @ notify_texts True ts)"

definition notify_message :: "renv \<Rightarrow> string option \<Rightarrow> string option \<Rightarrow> string option \<Rightarrow> rstate \<Rightarrow> exn + rstate" where
  "notify_message e title primary secondary = foldE (say e) (notify_texts False [title, primary, secondary])"

definition notify_formatted :: "renv \<Rightarrow> string option \<Rightarrow> string option \<Rightarrow> string option \<Rightarrow> string \<Rightarrow> rstate \<Rightarrow> exn + rstate" where
  "notify_formatted e title primary secondary txt =
     foldE (say e) (notify_texts False [title, primary, secondary, Some (re_strip e txt)])"

text \<open>The information about a contact, as replies of \<open>WHOIS\<close>; \<open>b\<close> is the contact libpurple finds.\<close>

definition info_text :: "renv \<Rightarrow> string \<Rightarrow> string option \<Rightarrow> string" where
  "info_text e label value = (case value of Some v \<Rightarrow> label @ '': '' @ re_strip e v | None \<Rightarrow> '':: '' @ label @ '' ::'')"

definition notify_userinfo :: "renv \<Rightarrow> im_buddy option \<Rightarrow> string \<Rightarrow> (string option \<times> string option) list \<Rightarrow> rstate \<Rightarrow> exn + rstate" where
  "notify_userinfo e b who entries s =
     (case b of
        None \<Rightarrow> rlog e (''Received WHOIS replies about unknown buddy '' @ who) s
      | Some buddy \<Rightarrow>
          let alias = w_buddy_alias (x_world (re_x e)) buddy
          in seqE [foldE (\<lambda>(label, value). case label of
                       None \<Rightarrow> Inr
                     | Some l \<Rightarrow> foldE (\<lambda>line. rlift (answer ''320'' [alias, line])) (tokens (info_text e l value) [CHR 0x0D, CHR 0x0A])) entries,
                   rlift (answer ''318'' [alias, ''End of /WHOIS list''])] s)"

text \<open>\<open>Request::init\<close>: the nick that asks.\<close>

definition Request_init :: "session \<Rightarrow> exn + rstate" where
  "Request_init s =
     (let (n, net1) = new_nick (Nick CNick (irc_id (se_net s)) ''request'' ''request'' (my_name s) ''Eric Cartman'') (se_net s)
      in bindE (addNick n net1) (\<lambda>net2.
           Inr \<lparr>rq_session = s\<lparr>se_net := net2\<rparr>, rq_nick = n, rq_requests = [], rq_next = 0, rq_calls = []\<rparr>))"

text \<open>The virtual \<open>send\<close> with this class of nicks.\<close>

definition rsend :: "renv \<Rightarrow> nid \<Rightarrow> irc_msg \<Rightarrow> rstate \<Rightarrow> exn + rstate" where
  "rsend e n m s =
     (if n = rq_nick s then RequestNick_send e m s else rlift (\<lambda>se. on_net (send (sworld (re_x e) se) n m) se) s)"

end
