(* ===== verification/Request_Props.thy ===== *)
theory Request_Props
  imports Requests Session_Props
begin

text \<open>
  What the questions to the user guarantee: the answers go to a first-in first-out queue of questions,
  and every choice that is offered can be chosen.
\<close>

section \<open>Talking\<close>

text \<open>A step that only talked to the user.\<close>

definition told :: "rstate \<Rightarrow> rstate \<Rightarrow> bool" where
  "told s s' \<longleftrightarrow> (\<exists>se. only_out (rq_session s) se \<and> s' = s\<lparr>rq_session := se\<rparr>)"

definition can_ask :: "rstate \<Rightarrow> bool" where
  "can_ask s \<longleftrightarrow> host_ok (se_net (rq_session s)) \<and> nicks (se_net (rq_session s)) (rq_nick s) \<noteq> None"

lemma told_refl [simp]: "told s s"
  unfolding told_def by (rule exI [of _ "rq_session s"]) simp

lemma told_trans: "told s s1 \<Longrightarrow> told s1 s2 \<Longrightarrow> told s s2"
proof -
  assume "told s s1" "told s1 s2"
  then obtain se se2 where "only_out (rq_session s) se" "s1 = s\<lparr>rq_session := se\<rparr>" "only_out (rq_session s1) se2" "s2 = s1\<lparr>rq_session := se2\<rparr>"
    by (auto simp: told_def)
  then have "only_out (rq_session s) se2" "s2 = s\<lparr>rq_session := se2\<rparr>" using only_out_trans by auto
  then show ?thesis unfolding told_def by blast
qed

lemma told_frame:
  assumes "told s s'"
  shows "rq_requests s' = rq_requests s" "rq_calls s' = rq_calls s" "rq_next s' = rq_next s" "rq_nick s' = rq_nick s" "can_ask s' = can_ask s"
  using assms by (auto simp: told_def can_ask_def dest: only_outD(1,3))

lemma toldI: "only_out (rq_session s) se \<Longrightarrow> told s (s\<lparr>rq_session := se\<rparr>)"
  unfolding told_def by blast

lemma rlift_told: "f (rq_session s) = Inr se \<Longrightarrow> only_out (rq_session s) se \<Longrightarrow> \<exists>s'. rlift f s = Inr s' \<and> told s s'"
  by (simp add: rlift_def toldI)

lemma privmsg_user:
  assumes "host_ok (se_net s)" and "nicks (se_net s) n \<noteq> None"
  shows "\<exists>s'. on_net (privmsg_nick w n (user_id (se_net s)) txt) s = Inr s' \<and> only_out s s'"
proof -
  let ?u = "user_id (se_net s)"
  have "\<exists>y. foldE (\<lambda>line s. bindE (mk_msg ''PRIVMSG'' (Some (ENick n)) (Some (ENick ?u)) [line]) (\<lambda>m. send w ?u m s)) ts
      ((se_net s)\<lparr>out := x\<rparr>) = Inr ((se_net s)\<lparr>out := y\<rparr>)" for ts x
  proof (rule foldE_out)
    fix line x
    have "ent_live (se_net s) (ENick n)" "ent_live (se_net s) (ENick ?u)" using assms by (auto simp: ent_live_def host_ok_def)
    then show "\<exists>y. bindE (mk_msg ''PRIVMSG'' (Some (ENick n)) (Some (ENick ?u)) [line]) (\<lambda>m. send w ?u m ((se_net s)\<lparr>out := x\<rparr>)) = Inr ((se_net s)\<lparr>out := y\<rparr>)"
      using assms by (auto simp: mk_msg_eq send_def host_ok_def nick_of_def User_send_def msg_live_setEntity)
  qed
  from this [of "tokens txt [CHR 0x0A, CHR 0x0D]" "out (se_net s)"] obtain y where
    "privmsg_nick w n ?u txt (se_net s) = Inr ((se_net s)\<lparr>out := y\<rparr>)" by (auto simp: privmsg_nick_def)
  then show ?thesis using only_outI by (simp add: on_net_def)
qed

lemma say_told: "can_ask s \<Longrightarrow> \<exists>s'. say e txt s = Inr s' \<and> told s s'"
  unfolding say_def can_ask_def using privmsg_user rlift_told
  by (metis (no_types, lifting))

lemma rlog_told: "can_ask s \<Longrightarrow> \<exists>s'. rlog e txt s = Inr s' \<and> told s s'"
  unfolding rlog_def can_ask_def using b_log_ok rlift_told by metis

lemma say_all_told: "can_ask s \<Longrightarrow> \<exists>s'. foldE (say e) ts s = Inr s' \<and> told s s'"
proof (induction ts arbitrary: s)
  case (Cons t ts)
  obtain s1 where s1: "say e t s = Inr s1" "told s s1" using say_told [OF Cons.prems] by blast
  then obtain s2 where "foldE (say e) ts s1 = Inr s2" "told s1 s2" using Cons told_frame(5) by blast
  with s1 show ?case using told_trans by auto
qed simp

section \<open>The queue of questions\<close>

text \<open>
  What the user is asked, in order: the subrequests of a list, without the images, and then the
  request itself.
\<close>

datatype question = SubQuestion subrequest | MainQuestion request

definition is_image :: "subrequest \<Rightarrow> bool" where
  "is_image r = (case r of RequestFieldsImage _ _ \<Rightarrow> True | _ \<Rightarrow> False)"

fun without_subs :: "request \<Rightarrow> request" where
  "without_subs (RequestFieldList ty d fs subs) = RequestFieldList ty d fs []"
| "without_subs r = r"

definition questions_of :: "request \<Rightarrow> question list" where
  "questions_of r = map SubQuestion (filter (\<lambda>r. \<not> is_image r) (subs_of r)) @ [MainQuestion (without_subs r)]"

definition questions :: "(nat \<times> request) list \<Rightarrow> question list" where
  "questions rs = concat (map (questions_of \<circ> snd) rs)"

text \<open>The calls that an answer to a question stands for; \<open>None\<close> when the question does not have it.\<close>

fun field_calls :: "rfield \<Rightarrow> rcall list" where
  "field_calls (RequestFieldTmplt label txt cb) = (case cb of None \<Rightarrow> [] | Some c \<Rightarrow> [RunCallback c])"
| "field_calls (RequestFieldFieldsBoolean fd v txt) = [SetBool fd v]"
| "field_calls (RequestFieldFieldsChoice fd v txt) = [SetChoice fd v]"
| "field_calls (RequestFieldFieldsList fd v txt) = [ClearSelected fd, AddSelected fd txt]"

fun answer_calls :: "question \<Rightarrow> string \<Rightarrow> rcall list option" where
  "answer_calls (SubQuestion (RequestFieldsString d def fd)) txt = Some [SetString fd txt]"
| "answer_calls (SubQuestion (RequestFieldsInteger d def fd)) txt = (case s2t_signed 32 txt of Inr i \<Rightarrow> Some [SetInt fd i] | Inl _ \<Rightarrow> None)"
| "answer_calls (SubQuestion (RequestFieldsImage d fd)) txt = Some []"
| "answer_calls (SubQuestion (RequestFieldsList d fs)) txt = map_option field_calls (map_find fs txt)"
| "answer_calls (MainQuestion (RequestInput d def cb data)) txt = (case cb of Some c \<Rightarrow> Some [InputCb c data txt] | None \<Rightarrow> None)"
| "answer_calls (MainQuestion (RequestFieldList ty d fs subs)) txt = map_option field_calls (map_find fs txt)"

text \<open>The answers the code can read: a number is not blank, an input has a callback.\<close>

fun readable :: "question \<Rightarrow> string \<Rightarrow> bool" where
  "readable (SubQuestion (RequestFieldsInteger d def fd)) txt = (\<exists>c\<in>set txt. \<not> isspace c)"
| "readable (MainQuestion (RequestInput d def cb data)) txt = (cb \<noteq> None)"
| "readable q txt = True"

text \<open>The first request never stands at an image, and the numbers of the requests differ.\<close>

fun at_image :: "(nat \<times> request) list \<Rightarrow> bool" where
  "at_image ((i, RequestFieldList ty d fs (r # subs)) # rs) = is_image r"
| "at_image _ = False"

definition asking :: "rstate \<Rightarrow> bool" where
  "asking s \<longleftrightarrow> can_ask s \<and> distinct (map fst (rq_requests s)) \<and> \<not> at_image (rq_requests s)"

fun skip_images :: "(nat \<times> request) list \<Rightarrow> (nat \<times> request) list" where
  "skip_images ((i, RequestFieldList ty d fs subs) # rs) = (i, RequestFieldList ty d fs (dropWhile is_image subs)) # rs"
| "skip_images rs = rs"

lemma fst_skip_images [simp]: "map fst (skip_images rs) = map fst rs"
  by (cases rs rule: skip_images.cases) auto

lemma at_image_skip [simp]: "\<not> at_image (skip_images rs)"
proof (cases rs rule: skip_images.cases)
  case (1 i ty d fs subs rs1)
  have "dropWhile is_image subs = r # l \<Longrightarrow> \<not> is_image r" for r l using hd_dropWhile [of is_image subs] by auto
  then show ?thesis unfolding 1 by (cases "dropWhile is_image subs") (simp_all del: dropWhile_eq_Nil_conv)
qed auto

lemma filter_dropWhile [simp]: "filter (\<lambda>r. \<not> P r) (dropWhile P xs) = filter (\<lambda>r. \<not> P r) xs"
  by (induction xs) auto

lemma questions_skip [simp]: "questions (skip_images rs) = questions rs"
  by (cases rs rule: skip_images.cases) (simp_all add: questions_def questions_of_def subs_of_def)

lemma questions_simps [simp]:
  "questions [] = []" "questions ((i, r) # rs) = questions_of r @ questions rs" "questions (rs @ rs') = questions rs @ questions rs'"
  by (simp_all add: questions_def)

lemma show_image_told: "can_ask s \<Longrightarrow> \<exists>s'. show_image e fd s = Inr s' \<and> told s s'"
  unfolding show_image_def by (cases "re_tmpfile e fd") (simp_all only: sum.case rlog_told say_told)

lemma same_requests: "rq_requests s = rs \<Longrightarrow> s\<lparr>rq_requests := rs\<rparr> = s"
  by auto

lemma display_list_told:
  assumes "can_ask s" and "rq_requests s = (i, RequestFieldList ty d fs subs) # rs"
  shows "\<exists>s'. display_list e d fs subs s = Inr s' \<and> told (s\<lparr>rq_requests := skip_images (rq_requests s)\<rparr>) s'"
  using assms
proof (induction subs arbitrary: s)
  case Nil
  then show ?case using say_all_told [OF Nil.prems(1)] by (simp add: same_requests)
next
  case (Cons r subs)
  show ?case
  proof (cases r)
    case (RequestFieldsImage d1 fd)
    obtain s1 where s1: "show_image e fd s = Inr s1" "told s s1"
      using show_image_told [OF Cons.prems(1)] by blast
    note f = told_frame [OF s1(2)]
    have "rq_requests (pop_first s1) = (i, RequestFieldList ty d fs subs) # rs" by (simp add: pop_first_def f(1) Cons.prems(2))
    moreover have "can_ask (pop_first s1)" using f(5) Cons.prems(1) by (simp add: can_ask_def pop_first_def)
    ultimately obtain s2 where s2: "display_list e d fs subs (pop_first s1) = Inr s2"
        "told ((pop_first s1)\<lparr>rq_requests := skip_images (rq_requests (pop_first s1))\<rparr>) s2"
      using Cons.IH by blast
    have "told (s\<lparr>rq_requests := X\<rparr>) ((pop_first s1)\<lparr>rq_requests := X\<rparr>)" for X
      using s1(2) by (auto simp: told_def pop_first_def)
    then have "told (s\<lparr>rq_requests := skip_images (rq_requests s)\<rparr>) s2"
      using s2(2) told_trans Cons.prems(2) RequestFieldsImage f(1) by (fastforce simp: pop_first_def is_image_def)
    then show ?thesis using s1(1) s2(1) RequestFieldsImage by simp
  qed (use say_all_told [OF Cons.prems(1)] Cons.prems(2) in \<open>simp_all add: is_image_def same_requests\<close>)
qed

lemma display_told:
  assumes "can_ask s"
  shows "\<exists>s'. display e s = Inr s' \<and> told (s\<lparr>rq_requests := skip_images (rq_requests s)\<rparr>) s'"
proof (cases "\<exists>i ty d fs subs rs. rq_requests s = (i, RequestFieldList ty d fs subs) # rs")
  case True
  then show ?thesis using display_list_told [OF assms] by (auto simp: display_def)
next
  case False
  then have "skip_images (rq_requests s) = rq_requests s" by (cases "rq_requests s" rule: skip_images.cases) auto
  then have same: "s\<lparr>rq_requests := skip_images (rq_requests s)\<rparr> = s" by simp
  show ?thesis unfolding same
    using say_all_told [OF assms] False by (auto simp: display_def split: list.split request.split)
qed

lemma display_asking:
  assumes "can_ask s" and "distinct (map fst (rq_requests s))"
  shows "\<exists>s'. display e s = Inr s' \<and> asking s' \<and> questions (rq_requests s') = questions (rq_requests s) \<and> rq_calls s' = rq_calls s"
proof -
  obtain s' where s': "display e s = Inr s'" "told (s\<lparr>rq_requests := skip_images (rq_requests s)\<rparr>) s'"
    using display_told [OF assms(1)] by blast
  note f = told_frame [OF s'(2)]
  have "can_ask s'" using f(5) assms(1) by (simp add: can_ask_def)
  then show ?thesis using s'(1) assms(2) by (simp add: f(1,2) asking_def)
qed

text \<open>
  What libpurple is expected to do. A callback returns, and what it does to the requests is to open new
  ones; \<open>purple_request_close\<close> of an open request runs the operation \<open>close_request\<close> of the program.
\<close>

definition callbacks_ok :: "renv \<Rightarrow> bool" where
  "callbacks_ok e \<longleftrightarrow> (\<forall>c s. asking s \<and> (\<forall>ty i. c \<noteq> CloseRequest ty i) \<longrightarrow>
     (\<exists>s' new. re_run e c s = Inr s' \<and> asking s' \<and> rq_requests s' = rq_requests s @ new))"

definition closes :: "renv \<Rightarrow> bool" where
  "closes e \<longleftrightarrow> (\<forall>ty i s. i \<in> fst ` set (rq_requests s) \<longrightarrow> re_run e (CloseRequest ty i) s = closeRequest e i s)"

definition front :: "request \<Rightarrow> question" where
  "front r = (case subs_of r of [] \<Rightarrow> MainQuestion (without_subs r) | r1 # _ \<Rightarrow> SubQuestion r1)"

lemma questions_front:
  assumes "\<not> at_image ((i, r) # rs)"
  shows "questions_of r = front r # (if subs_of r = [] then [] else questions_of (pop_sub r))"
  using assms by (cases r; cases "subs_of r") (auto simp: questions_of_def front_def subs_of_def)

lemma s2t_readable: "\<exists>c\<in>set txt. \<not> isspace c \<Longrightarrow> \<exists>i. s2t_signed w txt = Inr i"
  by (auto simp: s2t_signed_def Let_def case_prod_beta)

lemma runCallback_calls: "runCallback e f s = foldE (call e) (field_calls f) s"
  by (cases f) (auto simp: bindE_def split: option.split sum.split)

lemma process_label_calls:
  "process_label e fs txt s = (case map_option field_calls (map_find fs txt) of None \<Rightarrow> Inr None | Some cs \<Rightarrow> processed (foldE (call e) cs s))"
  by (simp add: process_label_def processed_def runCallback_calls split: option.split)

lemma foldE_one [simp]: "foldE f [] = Inr" "bindE r Inr = r"
  by (auto simp: fun_eq_iff bindE_def split: sum.split)

lemma process_calls:
  assumes "readable (front r) txt"
  shows "process e r txt s = (case answer_calls (front r) txt of None \<Rightarrow> Inr None | Some cs \<Rightarrow> processed (foldE (call e) cs s))"
proof (cases r)
  case (RequestInput d def cb data)
  then show ?thesis using assms by (auto simp: process_def front_def subs_of_def)
next
  case (RequestFieldList ty d fs subs)
  show ?thesis
  proof (cases subs)
    case Nil
    then show ?thesis by (simp add: RequestFieldList process_def front_def subs_of_def process_label_calls)
  next
    case (Cons r1 subs1)
    with assms RequestFieldList have "readable (SubQuestion r1) txt" by (simp add: front_def subs_of_def)
    then have "process_sub e r1 txt s = (case answer_calls (SubQuestion r1) txt of None \<Rightarrow> Inr None | Some cs \<Rightarrow> processed (foldE (call e) cs s))"
      by (cases r1) (auto simp: process_sub_def process_label_calls processed_def dest!: s2t_readable [of _ 32] split: sum.split)
    then show ?thesis by (simp add: RequestFieldList Cons process_def front_def subs_of_def)
  qed
qed

lemma asking_calls [simp]: "asking (s\<lparr>rq_calls := cs\<rparr>) = asking s"
  by (simp add: asking_def can_ask_def)

lemma no_close_field [simp]: "CloseRequest ty i \<notin> set (field_calls f)"
  by (cases f) (auto split: option.splits)

lemma no_close_calls: "answer_calls q txt = Some cs \<Longrightarrow> c \<in> set cs \<Longrightarrow> c \<noteq> CloseRequest ty i"
  by (cases "(q, txt)" rule: answer_calls.cases)
    (auto split: sum.splits option.splits)

lemma callbacks_okD:
  "callbacks_ok e \<Longrightarrow> asking s \<Longrightarrow> (\<And>ty i. c \<noteq> CloseRequest ty i) \<Longrightarrow>
    \<exists>s' new. re_run e c s = Inr s' \<and> asking s' \<and> rq_requests s' = rq_requests s @ new"
  unfolding callbacks_ok_def by blast

lemma calls_run:
  assumes "callbacks_ok e" and "asking s" and "\<And>c ty i. c \<in> set cs \<Longrightarrow> c \<noteq> CloseRequest ty i"
  shows "\<exists>s1 new. foldE (call e) cs s = Inr s1 \<and> asking s1 \<and> rq_requests s1 = rq_requests s @ new"
  using assms(2,3)
proof (induction cs arbitrary: s)
  case (Cons c cs)
  have "asking (s\<lparr>rq_calls := rq_calls s @ [c]\<rparr>)" using Cons.prems(1) by simp
  moreover have "c \<noteq> CloseRequest ty i" for ty i using Cons.prems(2) by simp
  ultimately obtain s1 new where
    s1: "re_run e c (s\<lparr>rq_calls := rq_calls s @ [c]\<rparr>) = Inr s1" "asking s1" "rq_requests (s\<lparr>rq_calls := rq_calls s @ [c]\<rparr>) @ new = rq_requests s1"
    using callbacks_okD [OF assms(1)] by metis
  obtain s2 new2 where "foldE (call e) cs s1 = Inr s2" "asking s2" "rq_requests s2 = rq_requests s1 @ new2"
    using Cons.IH [OF s1(2)] Cons.prems(2) by auto
  moreover have "call e c s = Inr s1" "rq_requests s1 = rq_requests s @ new" using s1(1,3) by (simp_all add: call_def)
  ultimately show ?case by auto
qed simp

lemma close_first_ok:
  assumes "closes e" and "asking s" and "rq_requests s = (i, r) # rs"
  shows "\<exists>s'. close_first e i r s = Inr s' \<and> asking s' \<and>
    questions (rq_requests s') = (if subs_of r = [] then [] else questions_of (pop_sub r)) @ questions rs"
proof (cases "subs_of r = []")
  case False
  have "can_ask (pop_first s)" "rq_requests (pop_first s) = (i, pop_sub r) # rs" "distinct (map fst (rq_requests (pop_first s)))"
    using assms(2,3) by (simp_all add: asking_def can_ask_def pop_first_def)
  then show ?thesis using display_asking [of "pop_first s" e] False by (auto simp: close_first_def)
next
  case True
  let ?s = "s\<lparr>rq_calls := rq_calls s @ [CloseRequest (request_type_of r) i]\<rparr>"
  let ?s1 = "?s\<lparr>rq_requests := rs\<rparr>"
  have "filter (\<lambda>(j, r). j \<noteq> i) rs = rs" using assms(2,3) by (force simp: asking_def filter_id_conv)
  then have c: "closeRequest e i ?s = bindE (say e ''Request closed.'' ?s1) (display e)"
    by (simp add: closeRequest_def assms(3))
  have "can_ask ?s1" "distinct (map fst rs)" using assms(2,3) by (simp_all add: asking_def can_ask_def)
  moreover obtain s2 where s2: "say e ''Request closed.'' ?s1 = Inr s2" "told ?s1 s2" using say_told [OF calculation(1)] by blast
  moreover have "rq_requests s2 = rs" using told_frame(1) [OF s2(2)] by simp
  ultimately obtain s3 where "display e s2 = Inr s3" "asking s3" "questions (rq_requests s3) = questions rs"
    using display_asking [of s2 e] told_frame(5) [OF s2(2)] by auto
  moreover have "re_run e (CloseRequest (request_type_of r) i) ?s = closeRequest e i ?s"
    using assms(1,3) by (simp add: closes_def)
  ultimately show ?thesis using True c s2(1) by (simp add: close_first_def call_def)
qed

text \<open>A new request goes to the end of the queue, and is shown when nobody else waits.\<close>

lemma addRequest_queues:
  assumes "asking s" and "\<forall>i\<in>fst ` set (rq_requests s). i < rq_next s"
  shows "\<exists>s'. addRequest e r s = Inr s' \<and> asking s' \<and> questions (rq_requests s') = questions (rq_requests s) @ questions_of r"
proof -
  define s1 where "s1 = s\<lparr>rq_requests := rq_requests s @ [(rq_next s, r)], rq_next := rq_next s + 1\<rparr>"
  have s1: "can_ask s1" "rq_requests s1 = rq_requests s @ [(rq_next s, r)]"
    using assms(1) by (simp_all add: asking_def can_ask_def s1_def)
  have d: "distinct (map fst (rq_requests s1))"
    using assms by (auto simp: asking_def s1(2))
  show ?thesis
  proof (cases "rq_requests s = []")
    case True
    then have "addRequest e r s = display e s1" by (simp add: addRequest_def s1_def)
    then show ?thesis using display_asking [OF s1(1) d, of e] by (auto simp: s1(2))
  next
    case False
    have "\<not> at_image (rq_requests s1)"
      using assms(1) False unfolding s1(2) asking_def by (cases "rq_requests s" rule: at_image.cases) auto
    moreover obtain s2 where s2: "say e (''Hint: Received a new request ('' @ title_of r @ ''). There are '' @
        t2s (length (rq_requests s1) - 1) @ '' requests in stack'') s1 = Inr s2" "told s1 s2"
      using say_told [OF s1(1)] by blast
    moreover have "addRequest e r s = say e (''Hint: Received a new request ('' @ title_of r @ ''). There are '' @
        t2s (length (rq_requests s1) - 1) @ '' requests in stack'') s1"
      using False by (simp only: addRequest_def s1_def [symmetric] Let_def s1(2)) simp
    ultimately show ?thesis using d s1 told_frame [OF s2(2)] by (auto simp: asking_def)
  qed
qed

lemma Request_init_asking:
  assumes "host_ok (se_net s)" and "Request_init s = Inr s'" and "user_id (se_net s) \<noteq> next_id (se_net s)"
  shows "asking s' \<and> questions (rq_requests s') = []"
proof -
  obtain n net1 net2 where n: "new_nick (Nick CNick (irc_id (se_net s)) ''request'' ''request'' (my_name s) ''Eric Cartman'') (se_net s) = (n, net1)"
      "addNick n net1 = Inr net2" "s' = \<lparr>rq_session = s\<lparr>se_net := net2\<rparr>, rq_nick = n, rq_requests = [], rq_next = 0, rq_calls = []\<rparr>"
    using assms(2) by (auto simp: Request_init_def bindE_Inr_iff split: prod.splits)
  then have "nicks net2 n \<noteq> None" "nicks net2 (user_id (se_net s)) = nicks (se_net s) (user_id (se_net s))"
      "user_id net2 = user_id (se_net s)" "irc_id net2 = irc_id (se_net s)" "servs net2 (irc_id (se_net s)) \<noteq> None"
    using assms(1,3) by (auto simp: new_nick_def addNick_def bindE_Inr_iff nick_of_def serv_of_def upd_serv_def host_ok_def split: option.splits)
  then show ?thesis using assms(1) by (simp add: asking_def can_ask_def host_ok_def n(3))
qed

section \<open>Labels\<close>

lemma free_label_free: "map_find m (free_label m l) = None"
proof (induction m l rule: free_label.induct)
  case (1 m l)
  then show ?case by (subst free_label.simps) simp
qed

lemma addField_wf: "map_wf m \<Longrightarrow> map_wf (addField f m)"
  by (simp add: addField_def Let_def map_wf_set)

lemma addField_find:
  assumes "map_wf m"
  shows "\<exists>l. map_find m l = None \<and> map_find (addField f m) = (map_find m)(l \<mapsto> setLabel l f)"
  using free_label_free map_find_set [OF assms] unfolding addField_def Let_def by blast

text \<open>Fields that are added one after the other get different labels, and none is overwritten.\<close>

lemma add_fields:
  assumes "map_wf m"
  shows "\<exists>ls. distinct ls \<and> set ls \<inter> dom (map_find m) = {} \<and> map_find m \<subseteq>\<^sub>m map_find (fold addField fs m) \<and>
    list_all2 (\<lambda>l f. map_find (fold addField fs m) l = Some (setLabel l f)) ls fs"
  using assms
proof (induction fs arbitrary: m)
  case (Cons f fs)
  obtain l where l: "map_find m l = None" "map_find (addField f m) = (map_find m)(l \<mapsto> setLabel l f)"
    using addField_find [OF Cons.prems] by blast
  define m1 where "m1 = addField f m"
  obtain ls where ls: "distinct ls" "set ls \<inter> dom (map_find m1) = {}" "map_find m1 \<subseteq>\<^sub>m map_find (fold addField fs m1)"
      "list_all2 (\<lambda>l f. map_find (fold addField fs m1) l = Some (setLabel l f)) ls fs"
    using Cons.IH [OF addField_wf [OF Cons.prems, of f]] unfolding m1_def [symmetric] by (elim exE conjE)
  have l2: "map_find m1 = (map_find m)(l \<mapsto> setLabel l f)" using l(2) by (simp add: m1_def)
  have le: "map_find m1 k = Some v \<Longrightarrow> map_find (fold addField fs m1) k = Some v" for k v
    using ls(3) unfolding map_le_def by (metis domI)
  have "map_find (fold addField fs m1) l = Some (setLabel l f)" by (rule le) (simp add: l2)
  moreover have "map_find m \<subseteq>\<^sub>m map_find (fold addField fs m1)"
    unfolding map_le_def
  proof
    fix k
    assume "k \<in> dom (map_find m)"
    then obtain v where v: "map_find m k = Some v" by auto
    then have "map_find m1 k = Some v" using l(1) by (auto simp: l2)
    then show "map_find m k = map_find (fold addField fs m1) k" using le v by simp
  qed
  moreover have "distinct (l # ls)" "set (l # ls) \<inter> dom (map_find m) = {}" using ls(1,2) l(1) by (auto simp: l2)
  ultimately show ?case using ls(4) by (intro exI [of _ "l # ls"]) (simp add: m1_def)
qed (simp add: map_le_def)

section \<open>Properties\<close>


text \<open>A libpurple that closes what it is asked to close and whose callbacks do nothing.\<close>

definition quiet_env :: renv where
  "quiet_env = \<lparr>re_x = sample_env, re_run = (\<lambda>c s. Inr s), re_tmpfile = (\<lambda>_. Inr ''/tmp/i''), re_strip = id, re_errno = ''error''\<rparr>"

definition sample_renv :: renv where
  "sample_renv = quiet_env\<lparr>re_run := (\<lambda>c s. case c of CloseRequest ty i \<Rightarrow> closeRequest quiet_env i s | _ \<Rightarrow> Inr s)\<rparr>"

lemma run_irrelevant [simp]:
  "say (e\<lparr>re_run := f\<rparr>) = say e" "rlog (e\<lparr>re_run := f\<rparr>) = rlog e" "head_lines (e\<lparr>re_run := f\<rparr>) = head_lines e"
  by (simp_all add: say_def rlog_def head_lines_def fun_eq_iff split: option.split)

lemma display_list_run [simp]: "display_list (e\<lparr>re_run := f\<rparr>) d fs subs s = display_list e d fs subs s"
proof (induction subs arbitrary: s)
  case (Cons r subs)
  then show ?case
    by (cases r) (simp_all add: list_lines_def input_lines_def show_image_def bindE_def split: sum.split)
qed (simp add: list_lines_def)

lemma closeRequest_run [simp]: "closeRequest (e\<lparr>re_run := f\<rparr>) i s = closeRequest e i s"
proof -
  have "display (e\<lparr>re_run := f\<rparr>) = display e"
    by (auto simp: fun_eq_iff display_def input_lines_def split: list.split request.split)
  then show ?thesis by (simp add: closeRequest_def Let_def)
qed

lemma sample_renv_ok: "callbacks_ok sample_renv" "closes sample_renv"
  by (auto simp: callbacks_ok_def closes_def sample_renv_def split: rcall.split)

text \<open>A session in which somebody is asked two things.\<close>

definition sample_asking :: rstate where
  "sample_asking = \<lparr>rq_session = sample_state\<lparr>se_net := (se_net sample_state)\<lparr>nicks := (nicks (se_net sample_state))(90 \<mapsto> sample_buddy)\<rparr>\<rparr>,
     rq_nick = 90, rq_requests =
      [(0, RequestFieldList REQ_CHOICE (request_data None (Some ''Join?'') None None)
             (choice_fields 5 (Some 6) (Some 7) [(''Yes'', 1), (''yes_please'', 2)]) []),
       (1, RequestInput (request_data None (Some ''Name'') None None) [] (Some 8) 5)],
     rq_next = 2, rq_calls = []\<rparr>"

lemma sample_asking_facts:
  "asking sample_asking" "questions (rq_requests sample_asking) =
     [MainQuestion (snd (rq_requests sample_asking ! 0)), MainQuestion (snd (rq_requests sample_asking ! 1))]"
  "answer_calls (MainQuestion (snd (rq_requests sample_asking ! 0))) ''yes_'' = Some [RunCallback (PurpleRequestChoiceCb 6 5 2)]"
  "readable (MainQuestion (snd (rq_requests sample_asking ! 0))) ''yes_''"
proof -
  have f: "map_find (choice_fields 5 (Some 6) (Some 7) [(''Yes'', 1), (''yes_please'', 2)]) ''yes_'' =
      Some (choice_field 5 (Some 6) ''yes_'' ''yes_please'' 2)" by code_simp
  show "answer_calls (MainQuestion (snd (rq_requests sample_asking ! 0))) ''yes_'' = Some [RunCallback (PurpleRequestChoiceCb 6 5 2)]"
    by (simp add: sample_asking_def f choice_field_def)
  show "asking sample_asking"
    using sample_facts(1) by (auto simp: asking_def can_ask_def sample_asking_def host_ok_def sample_state_def sample_net_def IRC_members_def)
qed (simp_all add: sample_asking_def questions_of_def subs_of_def)



text \<open>
  The label of an item of a \<open>RequestFieldFieldsList\<close> is also its text: the second of two equal items is
  selected in libpurple by a text it does not have.
\<close>

lemma equal_items_renamed:
  "map_option (\<lambda>r. answer_calls (SubQuestion r) ''a_'') (case field_subrequest None None None None
     \<lparr>fd_ptr = 3, fd_type = FIELD_LIST, fd_visible = True, fd_label = None, fd_default = None, fd_int = 0, fd_labels = [''a'', ''a'']\<rparr> of
     Inr r \<Rightarrow> Some r | Inl _ \<Rightarrow> None) = Some (Some [ClearSelected 3, AddSelected 3 ''a_''])"
  by code_simp

end
