(* ===== verification/Markup.thy ===== *)
theory Markup
  imports Util
begin

text \<open>
  The two conversions between the formatting codes of IRC and the markup of libpurple, \<open>irc2markup\<close>
  and \<open>markup2irc\<close> of \<open>src/src/core/util.cpp\<close>.

  Strings of C are lists of non-zero bytes: the terminator is the end of the list, a pointer into a
  string is the suffix it points to. The functions of GLib and libpurple are parameters:
  \<open>esc\<close> is \<open>g_markup_escape_text\<close>, \<open>withhtml\<close> is \<open>purple_strdup_withhtml\<close> and \<open>strip\<close> is
  \<open>purple_markup_strip_html\<close>. \<open>g_utf8_next_char\<close> steps by the length the first byte tells, so
  \<open>markup2irc\<close> expects UTF-8; on a truncated character it would step over the terminator, where the
  model stops at the end of the list.
\<close>

section \<open>Colours\<close>

definition irc_colors :: "(string \<times> string) list" where
  "irc_colors =
     [(''00'', ''white''), (''01'', ''black''), (''02'', ''blue''), (''03'', ''dark green''), (''04'', ''red''), (''05'', ''brown''),
      (''06'', ''purple''), (''07'', ''orange''), (''08'', ''yellow''), (''09'', ''green''), (''10'', ''teal''), (''11'', ''cyan''),
      (''12'', ''light blue''), (''13'', ''pink''), (''14'', ''grey''), (''15'', ''light grey'')]"

text \<open>At most two digits; \<open>fg\<close> and \<open>bg\<close> of the code are the digits read, empty when there is none.\<close>

definition one_digit :: "string \<Rightarrow> string \<times> string" where
  "one_digit s = (if s \<noteq> [] \<and> isdigit (hd s) then ([hd s], tl s) else ([], s))"

definition two_digits :: "string \<Rightarrow> string \<times> string" where
  "two_digits s = (let (a, s1) = one_digit s; (b, s2) = one_digit s1 in (a @ b, s2))"

definition colour_digits :: "string \<Rightarrow> string \<times> string \<times> string" where
  "colour_digits s =
     (let (fg, s1) = two_digits s
      in if s1 \<noteq> [] \<and> hd s1 = CHR '','' then let (bg, s2) = two_digits (tl s1) in (fg, bg, s2) else (fg, [], s1))"

section \<open>From IRC to markup\<close>

text \<open>The local variables of \<open>irc2markup\<close> that say which tags are open.\<close>

record fmt =
  f_font :: bool
  f_bold :: bool
  f_underline :: bool
  f_italic :: bool

definition no_fmt :: fmt where "no_fmt = \<lparr>f_font = False, f_bold = False, f_underline = False, f_italic = False\<rparr>"

text \<open>The bytes \<open>strpbrk\<close> looks for.\<close>

definition mirc_codes :: string where
  "mirc_codes = [CHR 0x02, CHR 0x03, CHR 0x07, CHR 0x0F, CHR 0x16, CHR 0x1F]"

definition close_all :: "fmt \<Rightarrow> string" where
  "close_all f =
     (if f_bold f then ''</B>'' else []) @ (if f_italic f then ''</I>'' else []) @
     (if f_underline f then ''</U>'' else []) @ (if f_font f then ''</FONT>'' else [])"

definition font_tag :: "string \<Rightarrow> string \<Rightarrow> string" where
  "font_tag fg bg =
     ''<FONT COLOR='' @ [CHR 0x22] @ snd (irc_colors ! read_digits fg) @ [CHR 0x22] @
     (if bg \<noteq> [] \<and> read_digits bg < 16 then '' BACK='' @ [CHR 0x22] @ snd (irc_colors ! read_digits bg) @ [CHR 0x22] else []) @ ''>''"

definition colour_code :: "fmt \<Rightarrow> string \<Rightarrow> string \<times> fmt \<times> string" where
  "colour_code f s =
     (let (fg, bg, r) = colour_digits s; shut = (if f_font f then ''</FONT>'' else [])
      in if fg \<noteq> [] \<and> read_digits fg \<le> 15 then (shut @ font_tag fg bg, f\<lparr>f_font := True\<rparr>, r)
         else (shut, f\<lparr>f_font := False\<rparr>, r))"

text \<open>
  The \<open>switch\<close> on the byte \<open>c\<close> that \<open>strpbrk\<close> found, with what is appended, the flags and the new
  \<open>cur\<close>. The last branch, which would not move, is its \<open>default\<close>.
\<close>

definition mirc_control :: "fmt \<Rightarrow> char \<Rightarrow> string \<Rightarrow> string \<times> fmt \<times> string" where
  "mirc_control f c r =
     (if c = CHR 0x02 then (if f_bold f then ''</B>'' else ''<B>'', f\<lparr>f_bold := \<not> f_bold f\<rparr>, r)
      else if c = CHR 0x03 then colour_code f r
      else if c = CHR 0x09 then (if f_italic f then ''</I>'' else ''<I>'', f\<lparr>f_italic := \<not> f_italic f\<rparr>, r)
      else if c = CHR 0x1F then (if f_underline f then ''</U>'' else ''<U>'', f\<lparr>f_underline := \<not> f_underline f\<rparr>, r)
      else if c = CHR 0x07 \<or> c = CHR 0x16 then ([], f, r)
      else if c = CHR 0x0F then (close_all f, f, r)
      else ([], f, c # r))"

lemma one_digit_length: "length (snd (one_digit s)) \<le> length s"
  by (simp add: one_digit_def)

lemma two_digits_length: "length (snd (two_digits s)) \<le> length s"
  using one_digit_length [of s] one_digit_length [of "snd (one_digit s)"] by (auto simp: two_digits_def Let_def split: prod.splits)

lemma colour_digits_length: "length (snd (snd (colour_digits s))) \<le> length s"
  using two_digits_length [of s] two_digits_length [of "tl (snd (two_digits s))"]
  by (auto simp: colour_digits_def Let_def split: prod.splits)

lemma mirc_control_length: "c \<in> set mirc_codes \<Longrightarrow> length (snd (snd (mirc_control f c r))) \<le> length r"
  using colour_digits_length [of r] by (auto simp: mirc_control_def mirc_codes_def colour_code_def Let_def split: prod.splits)

text \<open>The body of the loop runs once before the end of the string is tested.\<close>

function irc2markup_loop :: "(string \<Rightarrow> string) \<Rightarrow> fmt \<Rightarrow> string \<Rightarrow> string" where
  "irc2markup_loop esc f cur =
     esc (takeWhile (\<lambda>c. c \<notin> set mirc_codes) cur) @
     (case dropWhile (\<lambda>c. c \<notin> set mirc_codes) cur of
        [] \<Rightarrow> close_all f
      | c # r \<Rightarrow> (case mirc_control f c r of (t, f1, r1) \<Rightarrow> t @ (if r1 = [] then [] else irc2markup_loop esc f1 r1)))"
  by pat_completeness auto
termination
proof (relation "measure (\<lambda>(esc, f, cur). length cur)", goal_cases)
  case (2 esc f cur c r t q f1 r1)
  from 2(1) have "c \<in> set mirc_codes" using hd_dropWhile [of "\<lambda>c. c \<notin> set mirc_codes" cur] by auto
  with 2 have "length r1 \<le> length r" using mirc_control_length [of c f r] by (metis snd_conv)
  moreover have "length r < length cur" using length_dropWhile_le [of "\<lambda>c. c \<notin> set mirc_codes" cur] 2(1) by simp
  ultimately show ?case by simp
qed simp

declare irc2markup_loop.simps [simp del]

definition irc2markup :: "(string \<Rightarrow> string) \<Rightarrow> string option \<Rightarrow> string option" where
  "irc2markup esc s = map_option (irc2markup_loop esc no_fmt) s"

section \<open>From markup to IRC\<close>

definition utf8_skip :: "char \<Rightarrow> nat" where
  "utf8_skip c =
     (let b = of_char c :: nat
      in if b < 0xC0 then 1 else if b < 0xE0 then 2 else if b < 0xF0 then 3 else if b < 0xF8 then 4
         else if b < 0xFC then 5 else if b < 0xFE then 6 else 1)"

lemma utf8_skip_pos: "0 < utf8_skip c"
  by (simp add: utf8_skip_def Let_def)

definition next_char :: "string \<Rightarrow> string" where
  "next_char p = drop (utf8_skip (hd p)) p"

lemma next_char_length: "p \<noteq> [] \<Longrightarrow> length (next_char p) < length p"
  using utf8_skip_pos [of "hd p"] by (auto simp: next_char_def)

text \<open>\<open>while(*p && *p != c) p = g_utf8_next_char(p)\<close>.\<close>

function seek :: "char \<Rightarrow> string \<Rightarrow> string" where
  "seek c p = (if p = [] \<or> hd p = c then p else seek c (next_char p))"
  by pat_completeness auto
termination by (relation "measure (\<lambda>(c, p). length p)") (auto simp: next_char_length)

declare seek.simps [simp del]

lemma seek_length: "length (seek c p) \<le> length p"
proof (induction c p rule: seek.induct)
  case (1 c p)
  then show ?case using next_char_length [of p] by (subst seek.simps) (auto simp: le_less_trans less_imp_le)
qed

definition strncaseeq :: "string \<Rightarrow> string \<Rightarrow> nat \<Rightarrow> bool" where
  "strncaseeq a b n \<longleftrightarrow> strlower (take n a) = strlower (take n b)"

definition skip_quote :: "string \<Rightarrow> string" where
  "skip_quote p = (if p \<noteq> [] \<and> hd p = CHR 0x22 then tl p else p)"

text \<open>The first colour whose name starts with the value, of \<open>n\<close> bytes, that \<open>p\<close> points to.\<close>

definition colour_num :: "string \<Rightarrow> nat \<Rightarrow> string option" where
  "colour_num p n = map_option fst (find (\<lambda>(num, nm). strncaseeq p nm n) irc_colors)"

definition or_old :: "'a option \<Rightarrow> 'a option \<Rightarrow> 'a option" where
  "or_old x y = (case x of None \<Rightarrow> y | Some _ \<Rightarrow> x)"

text \<open>The attributes of a \<open>FONT\<close> tag.\<close>

function font_attrs :: "string option \<Rightarrow> string option \<Rightarrow> string \<Rightarrow> string option \<times> string option" where
  "font_attrs fg bg p =
     (if p = [] \<or> hd p = CHR ''>'' then (fg, bg)
      else if strncaseeq p ''color='' 6 then
        let v = skip_quote (drop 6 p); sp = seek (CHR 0x22) v
        in font_attrs (or_old (colour_num v (length v - length sp)) fg) bg (dropWhile (\<lambda>c. c = CHR '' '') (skip_quote sp))
      else if strncaseeq p ''back='' 5 then
        let v = skip_quote (drop 5 p); sp = seek (CHR 0x22) v
        in font_attrs fg (or_old (colour_num v (length v - length sp)) bg) (dropWhile (\<lambda>c. c = CHR '' '') (skip_quote sp))
      else (fg, bg))"
  by pat_completeness auto
termination
proof (relation "measure (\<lambda>(fg, bg, p). length p)")
  have le: "length (dropWhile (\<lambda>c. c = CHR '' '') (skip_quote (seek (CHR 0x22) (skip_quote q)))) \<le> length q" for q
    using length_dropWhile_le [of "\<lambda>c. c = CHR '' ''" "skip_quote (seek (CHR 0x22) (skip_quote q))"] seek_length [of "CHR 0x22" "skip_quote q"]
    by (auto simp: skip_quote_def split: if_splits)
  fix fg bg p v sp
  assume p: "\<not> (p = [] \<or> hd p = CHR ''>'')"
  { assume "v = skip_quote (drop 6 p)" "sp = seek (CHR 0x22) v"
    then show "((or_old (colour_num v (length v - length sp)) fg, bg, dropWhile (\<lambda>c. c = CHR '' '') (skip_quote sp)), fg, bg, p)
        \<in> measure (\<lambda>(fg, bg, p). length p)" using le [of "drop 6 p"] p by (cases p) auto }
  { assume "v = skip_quote (drop 5 p)" "sp = seek (CHR 0x22) v"
    then show "((fg, or_old (colour_num v (length v - length sp)) bg, dropWhile (\<lambda>c. c = CHR '' '') (skip_quote sp)), fg, bg, p)
        \<in> measure (\<lambda>(fg, bg, p). length p)" using le [of "drop 5 p"] p by (cases p) auto }
qed simp

declare font_attrs.simps [simp del]

text \<open>What a \<open>FONT\<close> tag with the attributes \<open>p\<close> becomes.\<close>

definition font_code :: "string \<Rightarrow> string" where
  "font_code p =
     (case font_attrs None None p of
        (None, bg) \<Rightarrow> []
      | (Some fg, bg) \<Rightarrow> CHR 0x03 # fg @ (case bg of None \<Rightarrow> [] | Some b \<Rightarrow> CHR '','' # b))"

text \<open>
  A tag: \<open>p0\<close> is what follows its \<open><\<close>. The result is what is appended, and \<open>next\<close>. A tag the program
  does not know is copied for \<open>purple_markup_strip_html\<close>.
\<close>

definition markup_tag :: "string \<Rightarrow> string \<times> string" where
  "markup_tag p0 =
     (let closed = (p0 \<noteq> [] \<and> hd p0 = CHR ''/'');
          p = (if closed then tl p0 else p0);
          n0 = seek (CHR ''>'') p0; n = (if n0 = [] then [] else next_char n0);
          single = (length p = length n + 2);
          raw = CHR ''<'' # (if closed then ''/'' else []) @ take (length p - length n) p;
          c = (if p = [] then CHR 0x00 else tolower (hd p))
      in (if c = CHR ''i'' then if single then [CHR 0x1F, CHR 0x02] else []
          else if c = CHR ''u'' then if single then [CHR 0x1F] else []
          else if c = CHR ''b'' then if single then [CHR 0x02] else raw
          else if closed \<and> strncaseeq p ''FONT'' 4 then [CHR 0x03]
          else if \<not> closed \<and> strncaseeq p ''FONT '' 5 then font_code (drop 5 p)
          else raw, n))"

lemma markup_tag_length: "length (snd (markup_tag p)) \<le> length p"
  using seek_length [of "CHR ''>''" p] next_char_length [of "seek (CHR ''>'') p"] by (auto simp: markup_tag_def Let_def)

function markup2irc_loop :: "string \<Rightarrow> string" where
  "markup2irc_loop [] = []"
| "markup2irc_loop (c # r) =
     (if c = CHR ''<'' then fst (markup_tag r) @ markup2irc_loop (snd (markup_tag r))
      else take (utf8_skip c) (c # r) @ markup2irc_loop (next_char (c # r)))"
  by pat_completeness auto
termination
proof (relation "measure length", goal_cases)
  case (2 c r)
  then show ?case using markup_tag_length [of r] by (simp add: le_imp_less_Suc)
next
  case (3 c r)
  then show ?case using next_char_length [of "c # r"] by simp
qed simp

declare markup2irc_loop.simps(2) [simp del]

definition markup2irc :: "(string \<Rightarrow> string) \<Rightarrow> (string \<Rightarrow> string) \<Rightarrow> string \<Rightarrow> string" where
  "markup2irc withhtml strip markup = strip (markup2irc_loop (withhtml markup))"

end
