(* ===== verification/Conversations.thy ===== *)
theory Conversations
  imports Session Markup
begin

text \<open>
  The conversations of libpurple, \<open>src/src/im/conversation.cpp\<close>: what a line of the user becomes on the
  network (\<open>Conversation::sendMessage\<close>), what a message of the network becomes for the user
  (\<open>write_im\<close>, \<open>write_conv\<close>), and the callbacks of libpurple with the warnings they log. What the
  callbacks do to the nicks and channels is in \<open>Channels\<close> and \<open>Delivery\<close>.

  \<open>venv\<close> is what the code asks libpurple and GLib; the constants \<open>PURPLE_MESSAGE_*\<close> are among it.
  A \<open>char*\<close> that may be \<open>NULL\<close> is an option.
\<close>

section \<open>The environment\<close>

datatype conv_type = ConvIM | ConvChat | ConvOther

datatype typing_state = Typing | Typed | NotTyping

text \<open>The broken-down time of \<open>localtime_r\<close>.\<close>

record tm =
  tm_year :: nat
  tm_mon :: nat
  tm_mday :: nat
  tm_hour :: nat
  tm_min :: nat
  tm_sec :: nat

record venv =
  ve_x :: senv
  ve_type :: "im_conv \<Rightarrow> conv_type"
  ve_utf8 :: "string \<Rightarrow> string option"
  ve_esc :: "string \<Rightarrow> string"
  ve_withhtml :: "string \<Rightarrow> string"
  ve_strip :: "string \<Rightarrow> string"
  ve_strreplace :: "string \<Rightarrow> string \<Rightarrow> string \<Rightarrow> string"
  ve_meify :: "string \<Rightarrow> string option"
  ve_do_command :: "im_conv \<Rightarrow> string option \<Rightarrow> string option \<Rightarrow> bool"
  ve_typing_timeout :: "im_conv \<Rightarrow> int"
  ve_typing :: "im_conv \<Rightarrow> typing_state"
  ve_cb_find :: "im_conv \<Rightarrow> string \<Rightarrow> im_cbuddy option"
  ve_chat_users :: "im_conv \<Rightarrow> im_cbuddy list"
  ve_find_im :: "string option \<Rightarrow> im_account \<Rightarrow> im_conv option"
  ve_find_buddy :: "im_account \<Rightarrow> string \<Rightarrow> im_buddy option"
  ve_contact_alias :: "im_buddy \<Rightarrow> string option"
  ve_now :: int
  ve_localtime :: "int \<Rightarrow> tm"
  ve_SEND :: "32 word"
  ve_RECV :: "32 word"
  ve_SYSTEM :: "32 word"
  ve_NOTIFY :: "32 word"
  ve_DELAYED :: "32 word"

text \<open>The calls into libpurple that \<open>sendMessage\<close> and \<open>write_im\<close> make.\<close>

datatype conv_call =
    CmdDo im_conv "string option" "string option"
  | ServTyping im_conv bool
  | TypeAgain im_conv int
  | StopTyped im_conv
  | ImSend im_conv "string option"
  | ChatSend im_conv "string option"
  | IdleTouch
  | ConvWrite im_conv "string option" string "32 word" int

section \<open>From the user to the network\<close>

text \<open>\<open>text.find(p) == 0\<close>, and \<open>text.substr(8, text.size() - 8 - 1)\<close>: the argument of a CTCP command.\<close>

definition starts :: "string \<Rightarrow> string \<Rightarrow> bool" where
  "starts p text \<longleftrightarrow> take (length p) text = p"

definition ctcp_arg :: "string \<Rightarrow> string" where
  "ctcp_arg text = substr text 8 (length text - 8 - 1)"

text \<open>The markup of a text: \<open>NULL\<close> where it cannot be converted to UTF-8.\<close>

definition out_markup :: "venv \<Rightarrow> string \<Rightarrow> string option" where
  "out_markup v text = map_option (\<lambda>m. ve_strreplace v m ''&apos;'' [CHR 0x27]) (irc2markup (ve_esc v) (ve_utf8 v text))"

definition send_text :: "venv \<Rightarrow> im_conv \<Rightarrow> string \<Rightarrow> conv_call list" where
  "send_text v c text =
     (case ve_type v c of ConvIM \<Rightarrow> [ImSend c (out_markup v text)] | ConvChat \<Rightarrow> [ChatSend c (out_markup v text)] | ConvOther \<Rightarrow> []) @ [IdleTouch]"

definition Conversation_sendMessage :: "venv \<Rightarrow> im_conv \<Rightarrow> string \<Rightarrow> conv_call list" where
  "Conversation_sendMessage v c text =
     (if starts (CHR 0x01 # ''ACTION '') text
      then let me = ''/me '' @ ctcp_arg text;
               utf8 = ve_utf8 v (tl me); escape = map_option (ve_esc v) utf8
           in CmdDo c utf8 escape # (if ve_do_command v c utf8 escape then [] else send_text v c me)
      else if starts (CHR 0x01 # ''TYPING '') text
      then let typing = ctcp_arg text
           in if typing = ''1'' then [ServTyping c True, TypeAgain c (ve_typing_timeout v c)]
              else if typing = ''0'' then [StopTyped c, ServTyping c False]
              else []
      else send_text v c text)"

section \<open>From the network to the user\<close>

definition write_im :: "venv \<Rightarrow> session \<Rightarrow> im_conv \<Rightarrow> string option \<Rightarrow> string \<Rightarrow> 32 word \<Rightarrow> int \<Rightarrow> conv_call" where
  "write_im v s c who message flags mtime =
     (let w = sworld (ve_x v) s;
          who1 = (if flags AND ve_RECV v \<noteq> 0
                  then (case ve_find_buddy v (w_conv_account w c) (w_conv_name w c) of Some b \<Rightarrow> ve_contact_alias v b | None \<Rightarrow> who)
                  else who)
      in ConvWrite c who1 message flags mtime)"

text \<open>\<open>printf("%0kd")\<close> of a number that is not negative.\<close>

definition padded :: "nat \<Rightarrow> nat \<Rightarrow> string" where
  "padded k n = replicate (k - length (t2s n)) CHR ''0'' @ t2s n"

definition clock_text :: "tm \<Rightarrow> string" where
  "clock_text t = padded 2 (tm_hour t) @ '':'' @ padded 2 (tm_min t) @ '':'' @ padded 2 (tm_sec t)"

text \<open>The time in front of a delayed message, with the date when it is not of today.\<close>

definition delayed_text :: "venv \<Rightarrow> int \<Rightarrow> string \<Rightarrow> string" where
  "delayed_text v mtime txt =
     (let lt = ve_localtime v mtime; today = ve_localtime v (ve_now v)
      in ''['' @ [CHR 0x02] @
         (if tm_mday lt \<noteq> tm_mday today \<or> tm_mon lt \<noteq> tm_mon today \<or> tm_year lt \<noteq> tm_year today
          then padded 4 (tm_year lt + 1900) @ ''-'' @ padded 2 (tm_mon lt + 1) @ ''-'' @ padded 2 (tm_mday lt) @ ''@'' else []) @
         clock_text lt @ [CHR 0x02] @ ''] '' @ txt)"

text \<open>\<open>Conversation::recvMessage\<close>, with the warning for a chat without channel.\<close>

definition recvMessage :: "venv \<Rightarrow> im_conv \<Rightarrow> string \<Rightarrow> string \<Rightarrow> bool \<Rightarrow> session \<Rightarrow> exn + session" where
  "recvMessage v c from text action s =
     (let x = ve_x v; w = sworld x s
      in case ve_type v c of
           ConvIM \<Rightarrow> on_net (recv_im w c from text action) s
         | ConvChat \<Rightarrow>
             if conv_chan (se_net s) c = None
             then b_log x W_WARNING (''Received message in unknown chat '' @ getChanName w c @ '': '' @ text) s
             else on_net (recv_chat w c from text action) s
         | ConvOther \<Rightarrow> Inr s)"

definition non_empty :: "string option \<Rightarrow> string option" where
  "non_empty t = (case t of None \<Rightarrow> None | Some u \<Rightarrow> if u = [] then None else Some u)"

text \<open>
  \<open>purple_message_meify\<close> takes the leading \<open>/me \<close> out of the message in place and tells whether there
  was one.
\<close>

definition write_conv ::
  "venv \<Rightarrow> im_conv \<Rightarrow> string option \<Rightarrow> string option \<Rightarrow> string \<Rightarrow> 32 word \<Rightarrow> int \<Rightarrow> session \<Rightarrow> exn + session"
where
  "write_conv v c who alias message flags mtime s =
     (let flags1 = (if flags AND ve_SYSTEM v \<noteq> 0 \<and> flags AND ve_NOTIFY v = 0
                    then flags AND NOT (ve_SEND v OR ve_RECV v) else flags)
      in if flags1 AND ve_RECV v = 0 then Inr s
         else
           let me = (if who = None then None else ve_meify v message);
               txt = markup2irc (ve_withhtml v) (ve_strip v) (case me of None \<Rightarrow> message | Some m \<Rightarrow> m);
               from = (case non_empty alias of Some a \<Rightarrow> a | None \<Rightarrow> (case non_empty who of Some h \<Rightarrow> h | None \<Rightarrow> []));
               msg = (if flags1 AND ve_DELAYED v \<noteq> 0 then delayed_text v mtime txt else txt)
           in recvMessage v c from msg (me \<noteq> None) s)"

section \<open>Callbacks\<close>

text \<open>The channel of a chat, or a line in the log.\<close>

definition with_conv_channel :: "venv \<Rightarrow> 32 word \<Rightarrow> im_conv \<Rightarrow> (cid \<Rightarrow> session \<Rightarrow> exn + session) \<Rightarrow> session \<Rightarrow> exn + session" where
  "with_conv_channel v level c f s =
     (case conv_chan (se_net s) c of
        None \<Rightarrow> b_log (ve_x v) level (''Conversation channel doesn'' @ [CHR 0x27] @ ''t exist: '' @ getChanName (sworld (ve_x v) s) c) s
      | Some ch \<Rightarrow> f ch s)"

definition conv_create :: "venv \<Rightarrow> im_conv \<Rightarrow> session \<Rightarrow> exn + session" where
  "conv_create v c s =
     (case ve_type v c of
        ConvChat \<Rightarrow>
          bindE (on_net (createChannel (sworld (ve_x v) s) c) s)
            (foldE (\<lambda>k s. b_log (ve_x v) W_DEBUG (w_cb_name (x_world (ve_x v)) k) s) (ve_chat_users v c))
      | _ \<Rightarrow> Inr s)"

definition conv_destroy :: "venv \<Rightarrow> im_conv \<Rightarrow> session \<Rightarrow> exn + session" where
  "conv_destroy v c s =
     (case ve_type v c of ConvIM \<Rightarrow> on_net (destroy_im c) s | ConvChat \<Rightarrow> on_net (destroyChannel c) s | ConvOther \<Rightarrow> Inr s)"

text \<open>\<open>add_users\<close> looks the channel up for every arrival, and gives up at the first time it is missing.\<close>

definition conv_add_users :: "venv \<Rightarrow> im_conv \<Rightarrow> im_cbuddy list \<Rightarrow> session \<Rightarrow> exn + session" where
  "conv_add_users v c ks s =
     (if ks = [] then Inr s
      else with_conv_channel v W_ERR c (\<lambda>_ s. on_net (add_users (sworld (ve_x v) s) c ks) s) s)"

definition conv_update_user :: "venv \<Rightarrow> im_conv \<Rightarrow> string \<Rightarrow> session \<Rightarrow> exn + session" where
  "conv_update_user v c user s =
     (case ve_cb_find v c user of
        None \<Rightarrow> b_log (ve_x v) W_DESYNCH (''Update channel user '' @ user @ '' who is not found'') s
      | Some k \<Rightarrow> with_conv_channel v W_DESYNCH c (\<lambda>ch s. on_net (updateBuddy (sworld (ve_x v) s) ch k) s) s)"

definition conv_remove_user :: "venv \<Rightarrow> im_conv \<Rightarrow> string \<Rightarrow> string option \<Rightarrow> session \<Rightarrow> exn + session" where
  "conv_remove_user v c cbname reason s =
     with_conv_channel v W_ERR c (\<lambda>ch s.
       bindE (getChanUser_name (sworld (ve_x v) s) (se_net s) ch cbname) (\<lambda>r.
         if r = None
         then b_log (ve_x v) W_ERR (cbname @ '' tries to leave channel, but I don'' @ [CHR 0x27] @ ''t know who is it!'') s
         else on_net (remove_user (sworld (ve_x v) s) c cbname (case reason of None \<Rightarrow> [] | Some t \<Rightarrow> t)) s)) s"

definition chat_rename_user :: "venv \<Rightarrow> im_conv \<Rightarrow> string \<Rightarrow> string \<Rightarrow> string \<Rightarrow> session \<Rightarrow> exn + session" where
  "chat_rename_user v c old new_n new_a s =
     (case ve_cb_find v c old of
        None \<Rightarrow> b_log (ve_x v) W_ERR (''Rename from '' @ old @ '' to '' @ new_n @ '' ('' @ new_a @ '') which is an unknown chat buddy'') s
      | Some _ \<Rightarrow>
          with_conv_channel v W_ERR c (\<lambda>ch s.
            (case ve_cb_find v c new_n of
               None \<Rightarrow> b_log (ve_x v) W_ERR (''New chat buddy '' @ new_n @ '' ('' @ new_a @ '') unknown'') s
             | Some k \<Rightarrow>
                 bindE (getChanUser_name (sworld (ve_x v) s) (se_net s) ch old) (\<lambda>u.
                   on_net (renameBuddy (sworld (ve_x v) s) ch u k) s))) s)"

definition conv_topic_changed :: "venv \<Rightarrow> im_conv \<Rightarrow> string option \<Rightarrow> string option \<Rightarrow> session \<Rightarrow> exn + session" where
  "conv_topic_changed v c who topic s =
     with_conv_channel v W_ERR c (\<lambda>ch s.
       on_net (topic_changed (sworld (ve_x v) s) c who (case topic of None \<Rightarrow> [] | Some t \<Rightarrow> t)) s) s"

definition typing_digit :: "typing_state \<Rightarrow> char" where
  "typing_digit t = (case t of Typing \<Rightarrow> CHR ''1'' | Typed \<Rightarrow> CHR ''2'' | NotTyping \<Rightarrow> CHR ''0'')"

definition buddy_typing :: "venv \<Rightarrow> im_account \<Rightarrow> string option \<Rightarrow> session \<Rightarrow> exn + session" where
  "buddy_typing v a who s =
     (if pf_typing_notice (se_prefs s) = 0 then Inr s
      else case ve_find_im v who a of
        None \<Rightarrow> Inr s
      | Some c \<Rightarrow>
          if who = None then Inr s
          else bindE (case conv_ui (se_net s) c of Some n \<Rightarrow> Inr (Some n) | None \<Rightarrow> getNick_conv (se_net s) c) (\<lambda>r. case r of
              None \<Rightarrow> Inr s
            | Some n \<Rightarrow>
                bindE (mk_msg ''PRIVMSG'' (Some (ENick n)) (Some (ENick (user_id (se_net s))))
                         [[CHR 0x01] @ ''TYPING '' @ [typing_digit (ve_typing v c), CHR 0x01]]) (\<lambda>m.
                  on_net (send (sworld (ve_x v) s) (user_id (se_net s)) m) s)))"

end
