(* ===== verification/Connections.thy ===== *)
theory Connections
  imports Requests Lifecycle
begin

text \<open>
  What libpurple tells the program about accounts and their connections: the static methods of
  \<open>src/src/im/account.cpp\<close> (\<open>connecting\<close>, \<open>connected\<close>, \<open>disconnected\<close>, \<open>disconnect_reason\<close>,
  \<open>account_signed_on_cb\<close>, \<open>account_removed\<close>, \<open>init\<close>) and the questions about contacts that add the
  user (\<open>notify_added\<close>, \<open>request_add\<close>, \<open>request_authorize\<close>).

  \<open>aenv\<close> is the state of libpurple at the call: its chats, which of them were left, the numbers of new
  timeouts, the display names of connections. That a conversation has the data \<open>want-to-rejoin\<close> is
  read from the calls that were made: the program is the only one that sets it, and nothing takes it
  back.
\<close>

section \<open>The environment\<close>

datatype connection_error = NetworkError | EncryptionError | OtherError | FinalError

record aenv =
  ae_x :: senv
  ae_chats :: "im_conv list"
  ae_left :: "im_conv \<Rightarrow> bool"
  ae_timeout :: int
  ae_display :: "im_account \<Rightarrow> string option"
  ae_connections :: "im_account \<Rightarrow> bool"

definition acct_of :: "im_account \<Rightarrow> session \<Rightarrow> exn + acct" where
  "acct_of a s = (case map_of (se_accts s) a of None \<Rightarrow> Inl Dangling | Some ac \<Rightarrow> Inr ac)"

definition sno_log :: "aenv \<Rightarrow> string \<Rightarrow> session \<Rightarrow> exn + session" where
  "sno_log e = b_log (ae_x e) (W_INFO OR W_SNO)"

section \<open>Connections\<close>

text \<open>\<open>step\<close> and \<open>step_count\<close> are \<open>size_t\<close>s.\<close>

definition connecting :: "aenv \<Rightarrow> im_account \<Rightarrow> string \<Rightarrow> 64 word \<Rightarrow> 64 word \<Rightarrow> session \<Rightarrow> exn + session" where
  "connecting e a txt step step_count s =
     bindE (acct_of a s) (\<lambda>ac.
       if step = 0 then sno_log e (''Connection to '' @ getServername ac @ '' in progress...'') s
       else sno_log e (ac_id ac @ ''('' @ t2s (unat step) @ ''/'' @ t2s (unat (step_count - 1)) @ ''): '' @ txt) s)"

text \<open>\<open>flushChannelJoins\<close>: the channels of the queue are joined, then the queue is emptied.\<close>

definition join_queued :: "aenv \<Rightarrow> im_account \<Rightarrow> session \<Rightarrow> exn + session" where
  "join_queued e a s =
     bindE (acct_of a s) (\<lambda>ac.
     bindE (foldE (\<lambda>c s. bindE (joinChat (ae_x e) a c [] s) (\<lambda>(ok, s1). Inr s1)) (fst (flushChannelJoins ac)) s) (\<lambda>s1.
       Inr (upd_acct a (\<lambda>ac. snd (flushChannelJoins ac)) s1)))"

definition open_server :: "acct \<Rightarrow> im_account \<Rightarrow> net \<Rightarrow> exn + net" where
  "open_server ac a n = addServer (next_id n) (new_remote_server (getServername ac) (proto_name (ac_proto ac)) a n)"

definition account_connected :: "aenv \<Rightarrow> im_account \<Rightarrow> session \<Rightarrow> exn + session" where
  "account_connected e a s =
     bindE (acct_of a s) (\<lambda>ac.
     bindE (sno_log e (''Connection to '' @ getServername ac @ '' established!'') (upd_acct a removeReconnection s)) (\<lambda>s1.
     bindE (on_net (open_server ac a) s1) (\<lambda>s2.
       join_queued e a s2)))"

definition abort_joins :: "aenv \<Rightarrow> im_account \<Rightarrow> session \<Rightarrow> exn + session" where
  "abort_joins e a s =
     bindE (acct_of a s) (\<lambda>ac.
     bindE (abortChannelJoins (x_connected (ae_x e) a) ac (se_net s)) (\<lambda>(ac1, n1).
       Inr (upd_acct a (\<lambda>_. ac1) (s\<lparr>se_net := n1\<rparr>))))"

definition own_chats :: "aenv \<Rightarrow> im_account \<Rightarrow> session \<Rightarrow> im_conv list" where
  "own_chats e a s = filter (\<lambda>c. w_conv_account (sworld (ae_x e) s) c = a) (ae_chats e)"

text \<open>A chat that was left is closed and queued; one that was not shall be joined again.\<close>

definition close_chat :: "aenv \<Rightarrow> im_account \<Rightarrow> im_conv \<Rightarrow> session \<Rightarrow> session" where
  "close_chat e a c s =
     (if ae_left e c
      then upd_acct a (enqueueChannelJoin (w_conv_name (sworld (ae_x e) s) c)) (im_do_s (Leave c) s)
      else im_do_s (WantRejoin c) s)"

definition disconnected :: "aenv \<Rightarrow> im_account \<Rightarrow> session \<Rightarrow> exn + session" where
  "disconnected e a s =
     bindE (acct_of a s) (\<lambda>ac.
     bindE (abort_joins e a s) (\<lambda>s1.
     bindE (sno_log e (''Closing link with '' @ getServername ac) (fold (close_chat e a) (own_chats e a s) s1)) (\<lambda>s2.
       on_net (removeServer (getServername ac)) s2)))"

text \<open>\<open><<\<close> prints the delay as a signed \<open>int\<close>.\<close>

definition disconnect_reason :: "aenv \<Rightarrow> im_account \<Rightarrow> connection_error \<Rightarrow> string \<Rightarrow> session \<Rightarrow> exn + session" where
  "disconnect_reason e a reason txt s =
     bindE (acct_of a s) (\<lambda>ac.
     bindE (b_log (ae_x e) (W_ERR OR W_SNO) (''Error('' @ getServername ac @ ''): '' @ txt) s) (\<lambda>s1.
       if reason = FinalError then Inr s1
       else let (delay, ac1) = delayReconnect (ae_timeout e) ac
            in b_log (ae_x e) (W_ERR OR W_SNO) (''Reconnection in '' @ t2s_int (sint delay) @ '' seconds'') (upd_acct a (\<lambda>_. ac1) s1)))"

definition account_signed_on_cb :: "aenv \<Rightarrow> im_account \<Rightarrow> session \<Rightarrow> session" where
  "account_signed_on_cb e a s =
     fold (\<lambda>c s. if WantRejoin c \<in> set (im_calls (se_net s)) then im_do_s (ServJoinChat a c) s else s) (own_chats e a s) s"

section \<open>Accounts\<close>

definition leave_status_channel :: "aenv \<Rightarrow> im_account \<Rightarrow> session \<Rightarrow> exn + session" where
  "leave_status_channel e a s = on_net (leaveStatusChannel (sworld (ae_x e) s) a (x_buddies (ae_x e) a)) s"

definition account_removed :: "aenv \<Rightarrow> im_account \<Rightarrow> session \<Rightarrow> exn + session" where
  "account_removed e a s =
     bindE (abort_joins e a s) (\<lambda>s1. leave_status_channel e a (upd_acct a removeReconnection s1))"

definition init_accounts :: "aenv \<Rightarrow> session \<Rightarrow> exn + session" where
  "init_accounts e s =
     foldE (\<lambda>a s. on_net (createStatusChannel (sworld (ae_x e) s) a (x_buddies (ae_x e) a) (x_status_message (ae_x e) a) (x_UNSET (ae_x e))) s)
       (map snd (getAccountsList s)) s"

definition updatedAllBuddies :: "aenv \<Rightarrow> im_account \<Rightarrow> session \<Rightarrow> exn + session" where
  "updatedAllBuddies e a s = foldE (\<lambda>b s. on_net (Channels.updated (sworld (ae_x e) s) b) s) (x_buddies (ae_x e) a) s"

section \<open>Contacts that add the user\<close>

text \<open>The texts; \<open>ident\<close>, \<open>alias\<close> and \<open>msg\<close> may be \<open>NULL\<close>.\<close>

definition in_brackets :: "string option \<Rightarrow> string" where
  "in_brackets alias = (case alias of None \<Rightarrow> [] | Some t \<Rightarrow> '' ('' @ t @ '')'')"

definition own_name :: "aenv \<Rightarrow> im_account \<Rightarrow> acct \<Rightarrow> string option \<Rightarrow> string" where
  "own_name e a ac ident =
     (case ident of Some t \<Rightarrow> t | None \<Rightarrow> (case ae_display e a of Some t \<Rightarrow> t | None \<Rightarrow> ac_username ac))"

definition tail_message :: "string option \<Rightarrow> string" where
  "tail_message msg = (case msg of None \<Rightarrow> ''.'' | Some t \<Rightarrow> if t = [] then ''.'' else '': '' @ t)"

definition make_info :: "aenv \<Rightarrow> im_account \<Rightarrow> acct \<Rightarrow> string \<Rightarrow> string option \<Rightarrow> string option \<Rightarrow> string option \<Rightarrow> string" where
  "make_info e a ac remote_user ident alias msg =
     remote_user @ in_brackets alias @ '' has made '' @ own_name e a ac ident @ '' his or her buddy'' @ tail_message msg"

definition authorize_text :: "aenv \<Rightarrow> im_account \<Rightarrow> acct \<Rightarrow> string \<Rightarrow> string option \<Rightarrow> string option \<Rightarrow> string option \<Rightarrow> string" where
  "authorize_text e a ac remote_user ident alias message =
     remote_user @ in_brackets alias @ '' wants to add '' @ own_name e a ac ident @ '' to his or her buddy list'' @ tail_message message"

text \<open>
  The two callbacks of a question are numbers; \<open>data\<close> is the address of the \<open>AddUserData\<close> or
  \<open>auth_and_add\<close> that the program allocates for it, or of libpurple's own data.
\<close>

definition notify_added :: "aenv \<Rightarrow> renv \<Rightarrow> im_account \<Rightarrow> string \<Rightarrow> string option \<Rightarrow> string option \<Rightarrow> string option \<Rightarrow> rstate \<Rightarrow> exn + rstate" where
  "notify_added e q a remote_user ident alias msg s =
     bindE (acct_of a (rq_session s)) (\<lambda>ac. notify_message q None (Some (make_info e a ac remote_user ident alias msg)) None s)"

definition request_add ::
  "aenv \<Rightarrow> renv \<Rightarrow> nat \<Rightarrow> nat \<Rightarrow> nat \<Rightarrow> im_account \<Rightarrow> string \<Rightarrow> string option \<Rightarrow> string option \<Rightarrow> string option \<Rightarrow> rstate \<Rightarrow> exn + rstate"
where
  "request_add e q add_cb free_cb data a remote_user ident alias msg s =
     bindE (acct_of a (rq_session s)) (\<lambda>ac.
       request_action q None (Some ''Add buddy to your list?'') (Some (make_info e a ac remote_user ident alias msg)) (Some a) data
         [(''Add'', Some add_cb), (''Cancel'', Some free_cb)] s)"

definition request_authorize ::
  "aenv \<Rightarrow> renv \<Rightarrow> nat \<times> nat \<times> nat \<Rightarrow> nat \<times> nat \<times> nat \<Rightarrow> bool \<Rightarrow> im_account \<Rightarrow> string \<Rightarrow> string option \<Rightarrow> string option \<Rightarrow> string option \<Rightarrow> rstate \<Rightarrow>
   exn + rstate"
where
  "request_authorize e q own lib on_list a remote_user ident alias message s =
     bindE (acct_of a (rq_session s)) (\<lambda>ac.
       let (auth_cb, deny_cb, data) = (if on_list then lib else own)
       in request_action q (Some ''Authorize buddy?'') (Some (authorize_text e a ac remote_user ident alias message)) None (Some a) data
            [(''Authorize'', Some auth_cb), (''Deny'', Some deny_cb)] s)"

text \<open>The callbacks of the program: \<open>add_user_cb\<close>, \<open>authorize_and_add_cb\<close> and \<open>deny_no_add_cb\<close>.\<close>

definition add_user_cb :: "aenv \<Rightarrow> im_account \<Rightarrow> string \<Rightarrow> string option \<Rightarrow> session \<Rightarrow> session" where
  "add_user_cb e a username alias s = (if ae_connections e a then im_do_s (RequestAddBuddy a username alias) s else s)"

definition authorize_and_add_cb :: "(session \<Rightarrow> session) \<Rightarrow> im_account \<Rightarrow> string \<Rightarrow> string option \<Rightarrow> session \<Rightarrow> session" where
  "authorize_and_add_cb auth_cb a username alias s = im_do_s (RequestAddBuddy a username alias) (auth_cb s)"

definition deny_no_add_cb :: "(session \<Rightarrow> session) \<Rightarrow> session \<Rightarrow> session" where
  "deny_no_add_cb deny_cb s = deny_cb s"

end
