(* ===== verification/Callbacks.thy ===== *)
theory Callbacks
  imports Connections
begin

text \<open>
  The other callbacks of libpurple: file transfers (\<open>src/src/im/ft.cpp\<close> with the transfers of the
  \<open>IRC\<close> object, \<open>irc.cpp\<close> and \<open>dcc.cpp\<close>), lists of rooms (\<open>roomlist.cpp\<close>), debug messages and first
  preferences (\<open>purple.cpp\<close>), and what an account does when its status or icon is set (\<open>account.cpp\<close>).

  \<open>fenv\<close> is what the code asks libpurple about a transfer, which is a number, and the two settings
  of the section \<open>file_transfers\<close>. A \<open>DCC\<close> object that a callback gets as its data is given by its
  place in the list of transfers.
\<close>

section \<open>The environment\<close>

record fenv =
  fe_x :: senv
  fe_dcc :: bool
  fe_own_ip :: string
  fe_my_ip :: string
  fe_aton :: "string \<Rightarrow> nat option"
  fe_filename :: "nat \<Rightarrow> string"
  fe_local :: "nat \<Rightarrow> string"
  fe_size :: "nat \<Rightarrow> nat"
  fe_remote :: "nat \<Rightarrow> string"
  fe_buddy :: "nat \<Rightarrow> im_buddy option"
  fe_receiving :: "nat \<Rightarrow> bool"
  fe_sending :: "nat \<Rightarrow> bool"
  fe_completed :: "nat \<Rightarrow> bool"
  fe_content :: "nat \<Rightarrow> string option"
  fe_listens :: bool
  fe_now :: int

section \<open>File transfers\<close>

text \<open>\<open>IRC::createDCCSend\<close>; nothing is stored when the constructor throws \<open>DCCListenError\<close>.\<close>

definition createDCCSend :: "fenv \<Rightarrow> nat \<Rightarrow> nid option \<Rightarrow> net \<Rightarrow> net option" where
  "createDCCSend e ft sender n =
     map_option (\<lambda>d. n\<lparr>dccs := dccs n @ [Server d]\<rparr>)
       (DCCSend (fe_filename e ft) (fe_size e ft) ft sender (Some (user_id n)) (fe_now e) (fe_listens e))"

definition ft_destroy :: "fenv \<Rightarrow> nat \<Rightarrow> session \<Rightarrow> exn + session" where
  "ft_destroy e ft s =
     (let s1 = s\<lparr>se_net := updateDCC ft True (fe_now e) (fe_content e ft) (se_net s)\<rparr>
      in if \<not> fe_completed e ft then Inr s1
         else if fe_sending e ft then b_log (fe_x e) (W_INFO OR W_SNO) (''File '' @ fe_filename e ft @ '' sent to '' @ fe_remote e ft) s1
         else if \<not> fe_dcc e then b_log (fe_x e) (W_INFO OR W_SNO) (''File saved as: '' @ fe_local e ft) s1
         else Inr s1)"

definition add_xfer :: "fenv \<Rightarrow> nat \<Rightarrow> session \<Rightarrow> exn + session" where
  "add_xfer e ft s =
     bindE (case fe_buddy e ft of None \<Rightarrow> Inr None | Some b \<Rightarrow> getNick_buddy (se_net s) b) (\<lambda>n.
       if fe_receiving e ft
       then bindE (b_log (fe_x e) (W_INFO OR W_SNO) (''Starting receiving file '' @ fe_filename e ft @ '' from '' @ fe_remote e ft) s) (\<lambda>s1.
              if \<not> fe_dcc e then Inr s1
              else case createDCCSend e ft n (se_net s1) of
                     Some n1 \<Rightarrow> Inr (s1\<lparr>se_net := n1\<rparr>)
                   | None \<Rightarrow> b_log (fe_x e) (W_SNO OR W_ERR)
                       (''Unable to listen for DCC, you'' @ [CHR 0x27] @ ''ll might retrieve yourself the file.'') s1)
       else b_log (fe_x e) (W_INFO OR W_SNO) (''Starting sending file '' @ fe_filename e ft @ '' to '' @ fe_remote e ft) s)"

definition update_progress :: "fenv \<Rightarrow> nat \<Rightarrow> session \<Rightarrow> session" where
  "update_progress e ft s =
     (if fe_dcc e then s\<lparr>se_net := updateDCC ft False (fe_now e) (fe_content e ft) (se_net s)\<rparr> else s)"

definition cancel_local :: "fenv \<Rightarrow> nat \<Rightarrow> session \<Rightarrow> exn + session" where
  "cancel_local e ft =
     b_log (fe_x e) (W_SNO OR W_ERR)
       (if fe_sending e ft then ''Aborted sending file '' @ fe_filename e ft @ '' to '' @ fe_remote e ft
        else ''Aborted receiving file '' @ fe_filename e ft @ '' from '' @ fe_remote e ft)"

definition cancel_remote :: "fenv \<Rightarrow> nat \<Rightarrow> session \<Rightarrow> exn + session" where
  "cancel_remote e ft =
     b_log (fe_x e) (W_SNO OR W_ERR)
       (fe_remote e ft @ (if fe_sending e ft then '' aborted receiving file '' else '' aborted sending file '') @ fe_filename e ft)"

text \<open>
  \<open>DCCServer::listen_cb\<close> in the session: the socket of the transfer at place \<open>k\<close> listens, and the
  receiver is sent the offer in the name of the sender, or of \<open>some.one\<close> when there is none.
\<close>

definition sender_name :: "net \<Rightarrow> nid option \<Rightarrow> exn + string" where
  "sender_name n sender = (case sender of None \<Rightarrow> Inr ''some.one'' | Some k \<Rightarrow> bindE (nick_of n k) (\<lambda>nk. Inr (nick_longname nk)))"

definition offer_file :: "world \<Rightarrow> dcc_server \<Rightarrow> string \<Rightarrow> net \<Rightarrow> exn + net" where
  "offer_file w d text n =
     bindE (sender_name n (dcc_sender d)) (\<lambda>from.
       case dcc_receiver d of
         None \<Rightarrow> Inl Dangling
       | Some r \<Rightarrow> bindE (mk_msg ''PRIVMSG'' None (Some (ENick r)) [text]) (\<lambda>m. send w r (setSenderName from m) n))"

definition listen_ready :: "fenv \<Rightarrow> nat \<Rightarrow> int \<Rightarrow> nat \<Rightarrow> nat \<Rightarrow> session \<Rightarrow> exn + session" where
  "listen_ready e k sock port watch s =
     (if length (dccs (se_net s)) \<le> k then Inl Dangling
      else case dccs (se_net s) ! k of
        Get g \<Rightarrow> Inr s
      | Server d \<Rightarrow>
          let (d1, offer) = listen_cb (fe_aton e) (fe_own_ip e) (fe_my_ip e) sock port watch d;
              s1 = s\<lparr>se_net := (se_net s)\<lparr>dccs := (dccs (se_net s))[k := Server d1]\<rparr>\<rparr>
          in case offer of
               None \<Rightarrow> b_log (fe_x e) W_ERR (''Unable to parse this IP address: ['' @
                 (if fe_own_ip e = '' '' then fe_my_ip e else fe_own_ip e) @ '']: Unable to send DCC request.'') s1
             | Some text \<Rightarrow> on_net (offer_file (sworld (fe_x e) s) d1 text) s1)"

text \<open>\<open>DCCChat::dcc_send\<close> writes a line to the connection of a chat.\<close>

definition chat_send :: "string \<Rightarrow> dcc_server \<Rightarrow> dcc_server" where
  "chat_send buf d = (if srv_finished d \<or> listen_data d \<or> srv_fd d < 0 then d else d\<lparr>wire := Dcc.wire d @ buf\<rparr>)"

section \<open>Lists of rooms\<close>

text \<open>
  A field of a list has a label, a flag that hides it and a kind; the values of a room come in the
  same order. A value is a pointer, which the kind of its field tells how to read.
\<close>

datatype room_value = RoomBool bool | RoomInt nat | RoomString string | RoomOther

record renv_rooms =
  rv_x :: senv
  rv_connection :: "im_account \<Rightarrow> bool"

definition list_fields :: "(string \<times> bool) list \<Rightarrow> string" where
  "list_fields cols = concat (map (\<lambda>(label, hidden). if hidden then [] else label @ '' '') cols)"

definition set_fields :: "(string \<times> bool) list \<Rightarrow> session \<Rightarrow> exn + session" where
  "set_fields cols = answer ''321'' [''Channel'', list_fields cols]"

definition room_text :: "(string \<times> bool) list \<Rightarrow> room_value list \<Rightarrow> string" where
  "room_text cols values =
     concat (map (\<lambda>(v, label, hidden).
       if hidden then []
       else case v of
              RoomBool b \<Rightarrow> (if b then ''True '' else ''False '')
            | RoomInt i \<Rightarrow> t2s i @ '' ''
            | RoomString t \<Rightarrow> t @ '' ''
            | RoomOther \<Rightarrow> []) (zip values cols))"

definition add_room :: "renv_rooms \<Rightarrow> im_account \<Rightarrow> string \<Rightarrow> (string \<times> bool) list \<Rightarrow> room_value list \<Rightarrow> session \<Rightarrow> exn + session" where
  "add_room e a room cols values s =
     (if \<not> rv_connection e a then Inr s
      else answer ''322'' [normalizeIRCName (sworld (rv_x e) s) room a, room_text cols values] s)"

definition in_progress :: "bool \<Rightarrow> session \<Rightarrow> exn + session" where
  "in_progress flag s = (if flag then Inr s else answer ''323'' [''End of /LIST''] s)"

section \<open>Debug messages and first preferences\<close>

datatype debug_level = DebugFatal | DebugError | DebugWarning | DebugOther

definition purple_debug :: "senv \<Rightarrow> debug_level \<Rightarrow> string \<Rightarrow> string \<Rightarrow> session \<Rightarrow> exn + session" where
  "purple_debug x level category args s =
     (let line = ''['' @ category @ ''] '' @ args
      in case level of
           DebugFatal \<Rightarrow> b_log x W_ERR line s
         | DebugError \<Rightarrow> b_log x W_PURPLE line s
         | DebugWarning \<Rightarrow> b_log x W_DEBUG line s
         | DebugOther \<Rightarrow> Inr s)"

section \<open>Status and icon of an account\<close>

text \<open>
  \<open>Account::setStatus\<close>: what \<open>purple_account_set_status\<close> gets as the message, \<open>None\<close> when it is not
  called. A status that comes without a message gets the topic of the status channel, or the message
  libpurple has for it, which then becomes the topic if the status is \<open>available\<close>.
\<close>

record tenv =
  te_x :: senv
  te_has_status :: "im_account \<Rightarrow> nat \<Rightarrow> bool"
  te_status_text :: "im_account \<Rightarrow> nat \<Rightarrow> string option"
  te_utf8 :: "string \<Rightarrow> string option"
  te_icon_format :: "im_account \<Rightarrow> nat option"
  te_file :: "string \<Rightarrow> string + string"

definition p2s :: "string option \<Rightarrow> string" where
  "p2s t = (case t of None \<Rightarrow> [] | Some u \<Rightarrow> u)"

definition Account_setStatus :: "tenv \<Rightarrow> im_account \<Rightarrow> nat \<Rightarrow> string \<Rightarrow> session \<Rightarrow> exn + string option option \<times> session" where
  "Account_setStatus e a prim message s =
     (let w = sworld (te_x e) s in
      if \<not> te_has_status e a prim then Inr (None, s)
      else
        bindE (getStatusChannel w (se_net s) a) (\<lambda>chan.
        bindE (case chan of
                 None \<Rightarrow> Inr message
               | Some c \<Rightarrow> if message = [] then bindE (chan_of (se_net s) c) (\<lambda>ch. Inr (ch_topic ch)) else Inr message) (\<lambda>message1.
          if message1 \<noteq> [] \<or> prim = x_UNSET (te_x e) then Inr (Some (te_utf8 e message1), s)
          else
            let message2 = p2s (te_status_text e a prim) in
            bindE (case chan of
                     Some c \<Rightarrow> if message2 \<noteq> [] \<and> prim = x_AVAILABLE (te_x e)
                               then bindE (setTopic w c None message2 (se_net s)) (\<lambda>(_, n). Inr (s\<lparr>se_net := n\<rparr>)) else Inr s
                   | None \<Rightarrow> Inr s) (\<lambda>s1. Inr (Some (te_utf8 e message2), s1)))))"

text \<open>
  \<open>Account::setBuddyIcon\<close> as it is built without Imlib: \<open>te_icon_format\<close> is the largest size the
  protocol takes, or \<open>None\<close> when it takes no icons. The result is the picture libpurple gets.
\<close>

definition Account_setBuddyIcon :: "tenv \<Rightarrow> im_account \<Rightarrow> string \<Rightarrow> session \<Rightarrow> exn + string option \<times> session" where
  "Account_setBuddyIcon e a filename s =
     (case te_icon_format e a of
        None \<Rightarrow> Inr (None, s)
      | Some max_filesize \<Rightarrow>
          bindE (acct_of a s) (\<lambda>ac.
            case te_file e filename of
              Inl reason \<Rightarrow>
                bindE (b_log (te_x e) W_ERR (''Unable to get image content on '' @ ac_id ac @ '': '' @ reason) s) (\<lambda>s1. Inr (None, s1))
            | Inr contents \<Rightarrow>
                if max_filesize \<noteq> 0 \<and> max_filesize < length contents
                then bindE (b_log (te_x e) W_ERR (''Unable to set image on '' @ ac_id ac @ '': image too large'') s) (\<lambda>s1. Inr (None, s1))
                else Inr (Some contents, s)))"

text \<open>\<open>BuddyIcon::receivedIcon\<close>, the callback of a received picture, with \<open>IM::setBuddyIcon\<close>.\<close>

definition IM_setBuddyIcon :: "tenv \<Rightarrow> string \<Rightarrow> session \<Rightarrow> exn + (im_account \<times> string) list \<times> session" where
  "IM_setBuddyIcon e filename s =
     foldE (\<lambda>a (icons, s). bindE (Account_setBuddyIcon e a filename s) (\<lambda>(r, s1).
         Inr (case r of None \<Rightarrow> icons | Some c \<Rightarrow> icons @ [(a, c)], s1)))
       (map snd (getAccountsList s)) ([], s)"

definition receivedIcon :: "tenv \<Rightarrow> string option \<Rightarrow> session \<Rightarrow> exn + (im_account \<times> string) list \<times> session" where
  "receivedIcon e filename s =
     bindE (case filename of None \<Rightarrow> Inr ([], s) | Some f \<Rightarrow> IM_setBuddyIcon e f s) (\<lambda>(icons, s1).
     bindE (b_log (te_x e) (W_SNO OR W_INFO) ''New icon set!'' s1) (\<lambda>s2. Inr (icons, s2)))"

end
