(* ===== verification/Connection_Props.thy ===== *)
theory Connection_Props
  imports Connections Session_Props
begin

text \<open>
  What happens around a connection: losing it takes the contacts of the account away and nothing else,
  and getting it back joins the chats again; a conversation channel that outlives the connection.
\<close>

section \<open>What deleting nicks leaves\<close>

text \<open>Calls are only added, and no channel gets another up-server.\<close>

definition upservers :: "net \<Rightarrow> cid \<Rightarrow> sid option option" where
  "upservers n c = map_option ch_upserver (chans n c)"

lemma upservers_simps [simp]:
  "upservers (n\<lparr>out := y\<rparr>) = upservers n" "upservers (n\<lparr>conv_ui := u\<rparr>) = upservers n" "upservers (n\<lparr>buddy_ui := u2\<rparr>) = upservers n"
  "upservers (n\<lparr>nicks := ns\<rparr>) = upservers n" "upservers (n\<lparr>cusers := us\<rparr>) = upservers n" "upservers (n\<lparr>servs := vs\<rparr>) = upservers n"
  "upservers (n\<lparr>reg_users := ru\<rparr>) = upservers n" "upservers (n\<lparr>reg_servers := rs\<rparr>) = upservers n" "upservers (im_do c n) = upservers n"
  "upservers (upd_nick k g n) = upservers n"
  by (simp_all add: upservers_def fun_eq_iff im_do_def upd_nick_def)

lemma calls_upd [simp]: "im_calls (upd_nick k g n) = im_calls n" "im_calls (upd_chan c g2 n) = im_calls n"
  by (simp_all add: upd_nick_def upd_chan_def)

lemma upservers_chan [simp]: "(\<And>ch. ch_upserver (g ch) = ch_upserver ch) \<Longrightarrow> upservers (upd_chan c g n) = upservers n"
  by (auto simp: upservers_def upd_chan_def fun_eq_iff option.map_comp comp_def)

definition grows :: "net \<Rightarrow> net \<Rightarrow> bool" where
  "grows n n' \<longleftrightarrow> (\<exists>x. im_calls n' = im_calls n @ x) \<and> upservers n' = upservers n"

lemma grows_same: "im_calls n' = im_calls n \<and> upservers n' = upservers n \<Longrightarrow> grows n n'"
  by (simp add: grows_def)

lemma grows_refl [simp]: "grows n n"
  by (simp add: grows_same)

lemma grows_trans: "grows n n1 \<Longrightarrow> grows n1 n2 \<Longrightarrow> grows n n2"
  unfolding grows_def by force

lemma grows_do: "grows n (im_do c n)"
  by (simp add: grows_def) (simp add: im_do_def)

lemma grows_deliver: "deliver k m n = Inr n' \<Longrightarrow> grows n n'"
  by (auto simp: deliver_def User_send_def bindE_Inr_iff grows_def split: if_splits)

lemma grows_foldE:
  assumes "foldE f xs n = Inr n'" and "\<And>x n n'. f x n = Inr n' \<Longrightarrow> grows n n'"
  shows "grows n n'"
  using foldE_keeps [OF assms(1), of "grows n"] assms(2) grows_trans grows_refl by blast

lemma grows_delUser_step:
  assumes "delUser_step c k m u n = Inr n'"
  shows "grows n n'"
proof -
  obtain cu where cu: "cuser_of n u = Inr cu" using assms by (auto simp: delUser_step_def bindE_Inr_iff)
  show ?thesis
  proof (cases "cu_nick cu = k \<or> msg_cmd m = []")
    case True
    then show ?thesis using assms cu by (auto simp: delUser_step_def grows_def split: if_splits)
  next
    case False
    then show ?thesis using assms cu grows_deliver by (simp add: delUser_step_def)
  qed
qed

lemma grows_Channel_delUser: "Channel_delUser c k m n = Inr n' \<Longrightarrow> grows n n'"
  unfolding Channel_delUser_def bindE_Inr_iff using grows_foldE grows_delUser_step by metis

lemma grows_conv_delUser: "conv_delUser c k m n = Inr n' \<Longrightarrow> grows n n'"
  unfolding conv_delUser_def bindE_Inr_iff
  by (elim exE conjE, drule grows_Channel_delUser) (simp add: grows_def split: option.splits)

lemma grows_dying:
  assumes "delUser_dying c k n = Inr n'"
  shows "grows n n'"
proof -
  from assms obtain ch where ch: "chan_of n c = Inr ch" by (auto simp: delUser_dying_def bindE_Inr_iff)
  show ?thesis
  proof (cases "ch_class ch")
    case StatusChan
    then show ?thesis using assms ch grows_Channel_delUser by (simp add: delUser_dying_def)
  next
    case ConvChan
    then obtain n1 where n1: "conv_delUser c k (Message []) n = Inr n1" "n' = n1 \<or> n' = im_do (Leave (ch_conv ch)) n1"
      using assms ch by (auto simp: delUser_dying_def bindE_Inr_iff split: if_splits)
    then show ?thesis using grows_conv_delUser grows_trans grows_do by metis
  qed
qed

lemma grows_notify:
  "foldE (quit_notify m) us (sent, n) = Inr (sent', n') \<Longrightarrow> grows n n'"
proof (induction us arbitrary: sent n)
  case Nil
  then show ?case by simp
next
  case (Cons u us)
  then obtain sent1 n1 where "quit_notify m u (sent, n) = Inr (sent1, n1)" "foldE (quit_notify m) us (sent1, n1) = Inr (sent', n')"
    by (auto simp: bindE_Inr_iff)
  moreover from this(1) have "grows n n1" by (auto simp: quit_notify_def bindE_Inr_iff dest: grows_deliver split: if_splits)
  ultimately show ?case using Cons.IH grows_trans by blast
qed

lemma grows_quit_steps:
  "foldE (quit_step delUser_dying k m) us (sent, n) = Inr (sent', n') \<Longrightarrow> grows n n'"
proof (induction us arbitrary: sent n)
  case Nil
  then show ?case by simp
next
  case (Cons u us)
  then obtain sent1 n1 where step: "quit_step delUser_dying k m u (sent, n) = Inr (sent1, n1)"
      "foldE (quit_step delUser_dying k m) us (sent1, n1) = Inr (sent', n')"
    by (auto simp: bindE_Inr_iff)
  then obtain c us' n2 n3 where n: "foldE (quit_notify m) us' (sent, n) = Inr (sent1, n2)" "delUser_dying c k n2 = Inr n3"
      "im_calls n1 = im_calls n3 \<and> upservers n1 = upservers n3"
    by (auto simp: quit_step_def bindE_Inr_iff split: prod.splits)
  have "grows n n1" using grows_trans [OF grows_trans [OF grows_notify [OF n(1)] grows_dying [OF n(2)]] grows_same [OF n(3)]] .
  then show ?case using Cons.IH [OF step(2)] grows_trans by blast
qed

lemma grows_setConversation:
  assumes "setConversation k c n = Inr n'"
  shows "grows n n'"
proof -
  obtain nk where nk: "nick_of n k = Inr nk" using assms by (auto simp: setConversation_def bindE_Inr_iff)
  then show ?thesis
    using assms by (cases "nk_class nk"; cases "nk_conv nk") (auto simp: setConversation_def Let_def grows_def split: if_splits)
qed

lemma grows_dtor:
  assumes "nick_dtor k n = Inr n'"
  shows "grows n n'"
proof -
  obtain nk where nk: "nick_of n k = Inr nk" using assms by (auto simp: nick_dtor_def bindE_Inr_iff)
  have drop: "grows n n1" if "setConversation k None (n\<lparr>conv_ui := u\<rparr>) = Inr n1" for u n1
    using grows_setConversation [OF that] by (simp add: grows_def)
  have conv: "grows n n'"
    if r: "(case nk_conv nk of Some v \<Rightarrow> if conv_ui n v = Some k then setConversation k None (n\<lparr>conv_ui := (conv_ui n)(v := None)\<rparr>) else Inr n
      | None \<Rightarrow> Inr n) = Inr n'"
  proof (cases "nk_conv nk")
    case None
    then show ?thesis using r by simp
  next
    case (Some v)
    then show ?thesis using r drop by (cases "conv_ui n v = Some k") simp_all
  qed
  show ?thesis
  proof (cases "nk_class nk")
    case (CBuddy b)
    then obtain n1 where n1: "setConversation k None n = Inr n1" "im_calls n' = im_calls n1 \<and> upservers n' = upservers n1"
      using assms nk by (auto simp: nick_dtor_def bindE_Inr_iff)
    show ?thesis using grows_trans [OF grows_setConversation [OF n1(1)] grows_same [OF n1(2)]] .
  next
    case (CChatBuddy b)
    then show ?thesis using assms nk conv by (simp add: nick_dtor_def)
  next
    case CUnknownBuddy
    then show ?thesis using assms nk conv by (simp add: nick_dtor_def)
  qed (use assms nk in \<open>simp_all add: nick_dtor_def\<close>)
qed

lemma grows_delete: "delete_nick k n = Inr n' \<Longrightarrow> grows n n'"
proof -
  assume "delete_nick k n = Inr n'"
  then obtain n1 n2 where n: "nick_dtor k n = Inr n1"
      "quit_with delUser_dying k ''*.net *.split'' (upd_nick k (\<lambda>nk. nk\<lparr>nk_class := CNick\<rparr>) n1) = Inr n2"
      "im_calls n' = im_calls n2 \<and> upservers n' = upservers n2"
    by (auto simp: delete_nick_def bindE_Inr_iff)
  from n(2) have "grows (upd_nick k (\<lambda>nk. nk\<lparr>nk_class := CNick\<rparr>) n1) n2"
    unfolding quit_with_def bindE_Inr_iff by (auto split: prod.splits dest: grows_quit_steps)
  then have "grows n1 n2" by (simp add: grows_def)
  from grows_trans [OF grows_trans [OF grows_dtor [OF n(1)] this] grows_same [OF n(3)]] show ?thesis .
qed

lemma grows_purge: "purge_server j i n = Inr n' \<Longrightarrow> grows n n'"
proof (induction j arbitrary: n)
  case (Suc j)
  then obtain r where r: "first_of_server n i (reg_users n) = Inr r" by (auto simp: bindE_Inr_iff)
  show ?case
  proof (cases r)
    case (Some p)
    then obtain n1 where n1: "delete_nick (snd p) n = Inr n1" "purge_server j i (n1\<lparr>reg_users := map_erase (fst p) (reg_users n1)\<rparr>) = Inr n'"
      using Suc.prems r by (auto simp: bindE_Inr_iff split: prod.splits)
    have "grows (n1\<lparr>reg_users := map_erase (fst p) (reg_users n1)\<rparr>) n'" using Suc.IH [OF n1(2)] .
    then have "grows n1 n'" by (simp add: grows_def)
    then show ?thesis using grows_delete [OF n1(1)] grows_trans by blast
  qed (use Suc.prems r in simp)
qed simp

lemma grows_removeServer: "removeServer nm n = Inr n' \<Longrightarrow> grows n n'"
  unfolding removeServer_def
  by (auto simp: bindE_Inr_iff grows_def split: option.splits dest!: grows_purge)

section \<open>What an event leaves of the session\<close>

text \<open>\<open>after a f cs s s'\<close>: the account \<open>a\<close> was changed by \<open>f\<close>, the calls \<open>cs\<close> were made, something was written.\<close>

definition after :: "im_account \<Rightarrow> (acct \<Rightarrow> acct) \<Rightarrow> im_call list \<Rightarrow> session \<Rightarrow> session \<Rightarrow> bool" where
  "after a f cs s s' \<longleftrightarrow>
     (\<exists>y z. s' = upd_acct a f (s\<lparr>se_net := (se_net s)\<lparr>im_calls := im_calls (se_net s) @ cs, out := y\<rparr>, se_syslog := z\<rparr>))"

lemma upd_acct_id: "upd_acct a (\<lambda>ac. ac) s = s"
proof -
  have "map (\<lambda>(k, ac). (k, if k = a then ac else ac)) xs = xs" for xs :: "(im_account \<times> acct) list" by (induction xs) auto
  then show ?thesis by (simp add: upd_acct_def)
qed

lemma upd_twice:
  "map (\<lambda>(k, ac). (k, if k = a then g ac else ac)) (map (\<lambda>(k, ac). (k, if k = a then f ac else ac)) xs) =
    map (\<lambda>(k, ac). (k, if k = a then g (f ac) else ac)) xs"
  by (induction xs) auto

lemma afterI: "after a f cs s (upd_acct a f (s\<lparr>se_net := (se_net s)\<lparr>im_calls := im_calls (se_net s) @ cs\<rparr>\<rparr>))"
  unfolding after_def by (rule exI [of _ "out (se_net s)"], rule exI [of _ "se_syslog s"]) simp

lemma after_do: "after a (\<lambda>ac. ac) [c] s (im_do_s c s)"
  using afterI [of a "\<lambda>ac. ac" "[c]" s] by (simp add: upd_acct_id im_do_s_def im_do_def)

lemma after_upd: "after a f [] s (upd_acct a f s)"
  using afterI [of a f "[]" s] by simp

lemma after_out: "only_out s s' \<Longrightarrow> after a (\<lambda>ac. ac) [] s s'"
  unfolding only_out_def after_def by (auto simp: upd_acct_id)

lemma after_trans:
  assumes "after a f cs s s1" and "after a g ds s1 s2"
  shows "after a (\<lambda>ac. g (f ac)) (cs @ ds) s s2"
proof -
  obtain y z where s1: "s1 = upd_acct a f (s\<lparr>se_net := (se_net s)\<lparr>im_calls := im_calls (se_net s) @ cs, out := y\<rparr>, se_syslog := z\<rparr>)"
    using assms(1) by (auto simp: after_def)
  obtain y2 z2 where "s2 = upd_acct a g (s1\<lparr>se_net := (se_net s1)\<lparr>im_calls := im_calls (se_net s1) @ ds, out := y2\<rparr>, se_syslog := z2\<rparr>)"
    using assms(2) by (auto simp: after_def)
  with s1 show ?thesis unfolding after_def
    by (intro exI [of _ y2] exI [of _ z2]) (simp add: upd_acct_def upd_twice del: map_map)
qed

lemma map_of_upd: "map_of (map (\<lambda>(k, ac). (k, if k = a then f ac else ac)) xs) b = map_option (if b = a then f else id) (map_of xs b)"
  by (induction xs) auto

lemma afterD:
  assumes "after a f cs s s'"
  shows "im_calls (se_net s') = im_calls (se_net s) @ cs" and "session_ok (se_net s') = session_ok (se_net s)"
    and "nicks (se_net s') = nicks (se_net s)" and "servs (se_net s') = servs (se_net s)" and "reg_servers (se_net s') = reg_servers (se_net s)"
    and "user_id (se_net s') = user_id (se_net s)" and "irc_id (se_net s') = irc_id (se_net s)"
    and "acct_of a s = Inr ac \<Longrightarrow> acct_of a s' = Inr (f ac)" and "host_ok (se_net s') = host_ok (se_net s)"
    and "dccs (se_net s') = dccs (se_net s)"
  using assms by (auto simp: after_def upd_acct_def acct_of_def map_of_upd host_ok_def split: option.splits)

section \<open>Losing and getting a connection\<close>

lemma sworld_conv [simp]: "w_conv_name (sworld x s) = w_conv_name (x_world x)" "w_conv_account (sworld x s) = w_conv_account (x_world x)"
  by (simp_all add: sworld_def)

definition left_names :: "aenv \<Rightarrow> im_conv list \<Rightarrow> string list" where
  "left_names e cs = map (w_conv_name (x_world (ae_x e))) (filter (ae_left e) cs)"

definition close_call :: "aenv \<Rightarrow> im_conv \<Rightarrow> im_call" where
  "close_call e c = (if ae_left e c then Leave c else WantRejoin c)"

lemma close_chats:
  "after a (fold enqueueChannelJoin (left_names e cs)) (map (close_call e) cs) s (fold (close_chat e a) cs s)"
proof (induction cs arbitrary: s)
  case Nil
  then show ?case using after_upd [of a "\<lambda>ac. ac" s] by (simp add: left_names_def upd_acct_id id_def)
next
  case (Cons c cs)
  have "after a (if ae_left e c then enqueueChannelJoin (w_conv_name (x_world (ae_x e)) c) else (\<lambda>ac. ac)) [close_call e c] s (close_chat e a c s)"
    using after_trans [OF after_do [of a "Leave c" s] after_upd [of a "enqueueChannelJoin (w_conv_name (x_world (ae_x e)) c)"]]
      after_do [of a "WantRejoin c" s]
    by (simp add: close_chat_def close_call_def)
  from after_trans [OF this Cons.IH] show ?case by (simp add: left_names_def comp_def split: if_splits)
qed

lemma enqueue_simps [simp]:
  "getServername (fold enqueueChannelJoin ns ac) = getServername ac" "ac_proto (fold enqueueChannelJoin ns ac) = ac_proto ac"
  by (induction ns arbitrary: ac) (simp_all add: enqueueChannelJoin_def getServername_def)

lemma acct_queue [simp]: "getServername (ac\<lparr>ac_join_queue := q\<rparr>) = getServername ac"
  by (simp add: getServername_def)

lemma enqueue_timer:
  "ac_pending (fold enqueueChannelJoin ns ac) = ac_pending ac \<and> ac_reconnect_id (fold enqueueChannelJoin ns ac) = ac_reconnect_id ac"
  by (induction ns arbitrary: ac) (simp_all add: enqueueChannelJoin_def)

definition plain_name :: "string \<Rightarrow> bool" where
  "plain_name nm \<longleftrightarrow> nm \<noteq> [] \<and> CHR '','' \<notin> set nm"

lemma queue_tokens:
  "\<forall>nm\<in>set ns. plain_name nm \<Longrightarrow> tokens (ac_join_queue (fold enqueueChannelJoin ns ac)) '','' = tokens (ac_join_queue ac) '','' @ ns"
proof (induction ns arbitrary: ac)
  case (Cons nm ns)
  then have "tokens nm '','' = [nm]" using tokens_token(2) [of nm "'',''" "CHR '',''"] by (auto simp: plain_name_def)
  then have "tokens (ac_join_queue (enqueueChannelJoin nm ac)) '','' = tokens (ac_join_queue ac) '','' @ [nm]"
    using tokens_append_delim [of "CHR '',''" "'',''" "ac_join_queue ac" nm] by (simp add: enqueueChannelJoin_def append_word_def)
  then show ?case using Cons by simp
qed simp

lemma disconnected_eq:
  assumes "host_ok (se_net s)" and "acct_of a s = Inr ac" and "\<not> x_connected (ae_x e) a"
  shows "\<exists>s2. after a (\<lambda>_. fold enqueueChannelJoin (left_names e (own_chats e a s)) (ac\<lparr>ac_join_queue := []\<rparr>))
      (map (close_call e) (own_chats e a s)) s s2 \<and> disconnected e a s = on_net (removeServer (getServername ac)) s2"
proof -
  let ?s1 = "upd_acct a (\<lambda>_. ac\<lparr>ac_join_queue := []\<rparr>) s"
  let ?s2 = "fold (close_chat e a) (own_chats e a s) ?s1"
  have s1: "abort_joins e a s = Inr ?s1" using assms(2,3) by (simp add: abort_joins_def abortChannelJoins_def)
  note both = after_trans [OF after_upd [of a "\<lambda>_. ac\<lparr>ac_join_queue := []\<rparr>" s] close_chats [of a e "own_chats e a s" ?s1]]
  have "host_ok (se_net ?s2)" using afterD(9) [OF both] assms(1) by simp
  then obtain s3 where s3: "sno_log e (''Closing link with '' @ getServername ac) ?s2 = Inr s3" "only_out ?s2 s3"
    using b_log_ok unfolding sno_log_def by blast
  have "after a (\<lambda>_. fold enqueueChannelJoin (left_names e (own_chats e a s)) (ac\<lparr>ac_join_queue := []\<rparr>))
      (map (close_call e) (own_chats e a s)) s s3"
    using after_trans [OF both after_out [OF s3(2)]] by simp
  moreover have "disconnected e a s = on_net (removeServer (getServername ac)) s3"
    using s1 s3(1) assms(2) by (simp add: disconnected_def)
  ultimately show ?thesis by blast
qed

lemma lost_connection_ok:
  assumes "session_ok (se_net s)" and "acct_of a s = Inr ac" and "\<not> x_connected (ae_x e) a"
    and "map_find (reg_servers (se_net s)) (getServername ac) = Some i" and "i \<noteq> irc_id (se_net s)"
    and "\<And>nk. nicks (se_net s) (user_id (se_net s)) = Some nk \<Longrightarrow> nk_server nk \<noteq> i"
  shows "\<exists>s'. disconnected e a s = Inr s' \<and> upservers (se_net s') = upservers (se_net s) \<and> dccs (se_net s') = dccs (se_net s) \<and> session_ok (se_net s') \<and> servs (se_net s') i = None \<and>
    (\<forall>n. nicks (se_net s') n = (case nicks (se_net s) n of None \<Rightarrow> None | Some nk \<Rightarrow> if nk_server nk = i then None else Some nk)) \<and>
    acct_of a s' = Inr (fold enqueueChannelJoin (left_names e (own_chats e a s)) (ac\<lparr>ac_join_queue := []\<rparr>)) \<and>
    (\<forall>c\<in>set (own_chats e a s). close_call e c \<in> set (im_calls (se_net s')))"
proof -
  from disconnected_eq [OF session_host [OF assms(1)] assms(2,3)] obtain s2 where
    s2: "after a (\<lambda>_. fold enqueueChannelJoin (left_names e (own_chats e a s)) (ac\<lparr>ac_join_queue := []\<rparr>))
        (map (close_call e) (own_chats e a s)) s s2" "disconnected e a s = on_net (removeServer (getServername ac)) s2" by blast
  note eq = afterD [OF s2(1)]
  obtain n where n: "removeServer (getServername ac) (se_net s2) = Inr n" "session_ok n" "servs n = (servs (se_net s2))(i := None)"
      "\<forall>k. nicks n k = (case nicks (se_net s2) k of None \<Rightarrow> None | Some nk \<Rightarrow> if nk_server nk = i then None else Some nk)"
      "dccs n = dccs (se_net s2)"
    using removeServer_ok [of "se_net s2" "getServername ac" i] eq(2-7) assms(1,4-6) by auto
  obtain x where x: "im_calls n = im_calls (se_net s2) @ x" "upservers n = upservers (se_net s2)"
    using grows_removeServer [OF n(1)] by (auto simp: grows_def)
  have ups: "upservers (se_net s2) = upservers (se_net s)" using s2(1) by (auto simp: after_def upd_acct_def upservers_def fun_eq_iff)
  have "disconnected e a s = Inr (s2\<lparr>se_net := n\<rparr>)" using s2(2) n(1) by (simp add: on_net_def)
  moreover have "acct_of a (s2\<lparr>se_net := n\<rparr>) = acct_of a s2" by (simp add: acct_of_def)
  ultimately show ?thesis using n(2-5) x ups eq(1,3,10) eq(8) [OF assms(2)]
    by (intro exI [of _ "s2\<lparr>se_net := n\<rparr>"]) auto
qed


lemma joins_eq:
  assumes "x_connected (ae_x e) a" and "x_supports_chats (ae_x e) a" and "\<And>c. c \<in> set cs \<Longrightarrow> x_new_chat (ae_x e) a c [] = ChatToJoin"
  shows "\<exists>s'. foldE (\<lambda>c s. bindE (joinChat (ae_x e) a c [] s) (\<lambda>(ok, s1). Inr s1)) cs s = Inr s' \<and>
    after a (\<lambda>ac. ac) (map (\<lambda>c. JoinChat a c []) cs) s s'"
  using assms(3)
proof (induction cs arbitrary: s)
  case Nil
  then show ?case using after_upd [of a "\<lambda>ac. ac" s] by (simp add: upd_acct_id)
next
  case (Cons c cs)
  have none: "chat_parameters [] = []" by (simp add: chat_parameters_def)
  have "joinChat (ae_x e) a c [] s = Inr (True, im_do_s (JoinChat a c []) s)"
    using assms(1,2) Cons.prems none by (simp add: joinChat_def)
  moreover obtain s' where "foldE (\<lambda>c s. bindE (joinChat (ae_x e) a c [] s) (\<lambda>(ok, s1). Inr s1)) cs (im_do_s (JoinChat a c []) s) = Inr s'"
      "after a (\<lambda>ac. ac) (map (\<lambda>c. JoinChat a c []) cs) (im_do_s (JoinChat a c []) s) s'"
    using Cons.IH Cons.prems by (metis list.set_intros(2))
  ultimately show ?case using after_trans [OF after_do] by fastforce
qed

lemma map_find_set_same: "map_find (map_set k v m) k = Some v"
  by (induction m) auto

lemma connected_ok:
  assumes "session_ok (se_net s)" and "acct_of a s = Inr ac" and "x_connected (ae_x e) a" and "x_supports_chats (ae_x e) a"
    and "\<And>c. c \<in> set (tokens (ac_join_queue ac) '','') \<Longrightarrow> x_new_chat (ae_x e) a c [] = ChatToJoin"
  shows "\<exists>s' i. account_connected e a s = Inr s' \<and> session_ok (se_net s') \<and>
    im_calls (se_net s') = im_calls (se_net s) @ map (\<lambda>c. JoinChat a c []) (tokens (ac_join_queue ac) '','') \<and>
    acct_of a s' = Inr ((removeReconnection ac)\<lparr>ac_join_queue := []\<rparr>) \<and>
    map_find (reg_servers (se_net s')) (getServername ac) = Some i \<and> servs (se_net s') i \<noteq> None"
proof -
  let ?s0 = "upd_acct a removeReconnection s"
  note s0 = afterD [OF after_upd [of a removeReconnection s]]
  have "host_ok (se_net ?s0)" using s0(9) session_host [OF assms(1)] by simp
  then obtain s1 where s1: "sno_log e (''Connection to '' @ getServername ac @ '' established!'') ?s0 = Inr s1" "only_out ?s0 s1"
    using b_log_ok unfolding sno_log_def by blast
  note e1 = afterD [OF after_trans [OF after_upd [of a removeReconnection s] after_out [OF s1(2)]]]
  let ?n = "se_net s1" and ?i = "next_id (se_net s1)"
  define n2 where "n2 = (new_remote_server (getServername ac) (proto_name (ac_proto ac)) a ?n)\<lparr>reg_servers := map_set (getServername ac) ?i (reg_servers ?n)\<rparr>"
  have n2: "open_server ac a ?n = Inr n2"
    by (simp add: open_server_def addServer_def new_remote_server_def serv_of_def n2_def)
  have ok2: "session_ok n2" using inv_server [OF _ n2 [unfolded open_server_def]] e1(2) assms(1) by simp
  let ?s2 = "s1\<lparr>se_net := n2\<rparr>"
  have ac2: "acct_of a ?s2 = Inr (removeReconnection ac)" using e1(8) [OF assms(2)] by (simp add: acct_of_def)
  have queue: "ac_join_queue (removeReconnection ac) = ac_join_queue ac"
    by (simp add: removeReconnection_def source_remove_def Let_def)
  obtain s3 where s3: "foldE (\<lambda>c s. bindE (joinChat (ae_x e) a c [] s) (\<lambda>(ok, s1). Inr s1)) (tokens (ac_join_queue ac) '','') ?s2 = Inr s3"
      "after a (\<lambda>ac. ac) (map (\<lambda>c. JoinChat a c []) (tokens (ac_join_queue ac) '','')) ?s2 s3"
    using joins_eq [OF assms(3-5)] by blast
  let ?s4 = "upd_acct a (\<lambda>ac. snd (flushChannelJoins ac)) s3"
  have "join_queued e a ?s2 = Inr ?s4" using ac2 s3(1) queue by (simp add: join_queued_def flushChannelJoins_def)
  then have run: "account_connected e a s = Inr ?s4" using assms(2) s1(1) n2 by (simp add: account_connected_def on_net_def)
  note e4 = afterD [OF after_trans [OF s3(2) after_upd [of a "\<lambda>ac. snd (flushChannelJoins ac)" s3]]]
  have "im_calls (se_net ?s2) = im_calls (se_net s)" using e1(1) by (simp add: n2_def new_remote_server_def)
  moreover have "map_find (reg_servers n2) (getServername ac) = Some ?i" "servs n2 ?i \<noteq> None"
    by (simp_all add: n2_def new_remote_server_def map_find_set_same)
  ultimately show ?thesis using run e4(1,2,4,5) ok2 e4(8) [OF ac2]
    by (intro exI [of _ ?s4] exI [of _ ?i]) (simp add: flushChannelJoins_def)
qed

lemma signed_on_calls:
  "im_calls (se_net (account_signed_on_cb e a s)) =
     im_calls (se_net s) @ map (ServJoinChat a) (filter (\<lambda>c. WantRejoin c \<in> set (im_calls (se_net s))) (own_chats e a s))"
proof -
  have "im_calls (se_net (fold (\<lambda>c s. if WantRejoin c \<in> set (im_calls (se_net s)) then im_do_s (ServJoinChat a c) s else s) cs t)) =
      im_calls (se_net t) @ map (ServJoinChat a) (filter (\<lambda>c. WantRejoin c \<in> set (im_calls (se_net t))) cs)" for cs t
    by (induction cs arbitrary: t) (simp_all add: im_do_s_def im_do_def)
  then show ?thesis by (simp add: account_signed_on_cb_def)
qed


text \<open>
  A conversation channel keeps the pointer to the server its account had. When the connection is
  lost the server is deleted and the channel is not told, so the next person who arrives on the channel
  is built on a dangling pointer.
\<close>

lemma stale_server_dangles:
  assumes "session_ok (se_net s)" and "acct_of a s = Inr ac" and "\<not> x_connected (ae_x e) a"
    and "map_find (reg_servers (se_net s)) (getServername ac) = Some i" and "i \<noteq> irc_id (se_net s)"
    and "\<And>nk. nicks (se_net s) (user_id (se_net s)) = Some nk \<Longrightarrow> nk_server nk \<noteq> i"
    and "chans (se_net s) c = Some ch" and "ch_upserver ch = Some i" and "\<not> isMe w k"
  shows "\<exists>s' ch'. disconnected e a s = Inr s' \<and> chans (se_net s') c = Some ch' \<and>
    (map_find (ch_cbuddies ch') k = None \<longrightarrow> addBuddy w c k st (se_net s') = Inl Dangling)"
proof -
  obtain s' where s': "disconnected e a s = Inr s'" "servs (se_net s') i = None" "upservers (se_net s') = upservers (se_net s)"
    using lost_connection_ok [OF assms(1-6)] by blast
  have "map_option ch_upserver (chans (se_net s') c) = Some (Some i)"
    using s'(3) assms(7,8) by (simp add: upservers_def fun_eq_iff)
  then obtain ch' where ch': "chans (se_net s') c = Some ch'" "ch_upserver ch' = Some i" by auto
  have "addBuddy w c k st (se_net s') = Inl Dangling" if "map_find (ch_cbuddies ch') k = None"
    using ch' that assms(9) s'(2) ChatBuddy_shape(1) [of w i k]
    by (simp add: addBuddy_def enter_nick_def new_nick_def addNick_def serv_of_def nick_of_def Let_def)
  with s'(1) ch'(1) show ?thesis by (intro exI [of _ s'] exI [of _ ch'] conjI impI) simp_all
qed

section \<open>Examples\<close>

text \<open>An account with a contact and a chat, and one that was left.\<close>

definition sample_acct :: acct where
  "sample_acct = (Account_new ''me'' \<lparr>proto_id = ''prpl-jabber'', proto_name = ''XMPP'', proto_options = []\<rparr>)\<lparr>ac_id := ''jabber0''\<rparr>"

definition sample_linked :: session where
  "sample_linked = sample_state\<lparr>se_accts := [(1, sample_acct)],
     se_net := sample_net\<lparr>nicks := [1 \<mapsto> sample_user, 3 \<mapsto> sample_buddy\<lparr>nk_server := 2\<rparr>],
       servs := (servs sample_net)(2 \<mapsto> \<lparr>sv_name = ''me:jabber0'', sv_info = ''XMPP'', sv_users = [3], sv_account = Some 1\<rparr>),
       chans := [4 \<mapsto> ConversationChannel sample_world 7 (Some 2)], conv_chan := [7 \<mapsto> 4], next_id := 5,
       reg_users := [(''alice'', 1), (''bob'', 3)], reg_servers := [(''me:jabber0'', 2)], reg_chans := [(''#room:jabber0'', 4)]\<rparr>\<rparr>"

definition sample_purple :: aenv where
  "sample_purple = \<lparr>ae_x = sample_env, ae_chats = [7, 8], ae_left = (\<lambda>c. c = 8), ae_timeout = 1, ae_display = (\<lambda>_. None), ae_connections = (\<lambda>_. False)\<rparr>"

definition sample_online :: aenv where
  "sample_online = sample_purple\<lparr>ae_x := sample_env\<lparr>x_connected := (\<lambda>_. True), x_new_chat := (\<lambda>_ _ _. ChatToJoin)\<rparr>\<rparr>"

lemma sample_linked_ok: "session_ok (se_net sample_linked)"
proof -
  let ?n = "se_net sample_linked"
  have n: "nicks ?n = [1 \<mapsto> sample_user, 3 \<mapsto> sample_buddy\<lparr>nk_server := 2\<rparr>]" "cusers ?n = Map.empty" "user_id ?n = 1" "irc_id ?n = 0" "next_id ?n = 5"
      "chans ?n = [4 \<mapsto> ConversationChannel sample_world 7 (Some 2)]" "reg_users ?n = [(''alice'', 1), (''bob'', 3)]"
      "servs ?n 0 \<noteq> None" "servs ?n 2 \<noteq> None"
    by (simp_all add: sample_linked_def sample_net_def IRC_members_def)
  have user: "nk_channels sample_user = []" "nk_name sample_user = ''alice''" "nk_class sample_user = CUser" "nk_server sample_user = 0"
      "nk_channels sample_buddy = []" "nk_name sample_buddy = ''bob''" "nk_class sample_buddy = CBuddy 9"
    by (simp_all add: sample_user_def sample_buddy_def)
  have ch: "ch_users (ConversationChannel sample_world 7 (Some 2)) = []" "ch_cbuddies (ConversationChannel sample_world 7 (Some 2)) = []"
      "ch_class (ConversationChannel sample_world 7 (Some 2)) = ConvChan" "\<not> has_space (ch_name (ConversationChannel sample_world 7 (Some 2)))"
    by (simp_all add: ConversationChannel_def getChanName_def normalizeIRCName_def sample_world_def has_space_def)
  have "net_ok ?n" unfolding net_ok_def n by (auto simp: user ch split: if_splits)
  moreover have "cb_ok ?n" unfolding cb_ok_def n by (auto simp: ch map_wf_def split: if_splits)
  moreover have "env_ok ?n" unfolding env_ok_def n(1-7) using n(8) by (auto simp: user ch(4) split: if_splits) (simp_all add: has_space_def)
  moreover have "reg_ok ?n" unfolding reg_ok_def n(1-7) using n(8,9) by (auto simp: user map_wf_def split: if_splits)
  ultimately show ?thesis by (simp add: session_ok_def all_ok_def)
qed

lemma sample_linked_facts:
  "acct_of 1 sample_linked = Inr sample_acct" "\<not> x_connected (ae_x sample_purple) 1" "getServername sample_acct = ''me:jabber0''"
  "map_find (reg_servers (se_net sample_linked)) (getServername sample_acct) = Some 2" "2 \<noteq> irc_id (se_net sample_linked)"
  "nicks (se_net sample_linked) (user_id (se_net sample_linked)) = Some nk \<Longrightarrow> nk_server nk \<noteq> 2"
  "own_chats sample_purple 1 sample_linked = [7, 8]" "left_names sample_purple [7, 8] = [''room'']"
  "chans (se_net sample_linked) 4 = Some (ConversationChannel sample_world 7 (Some 2))"
  by (auto simp: acct_of_def sample_linked_def sample_purple_def sample_acct_def getServername_def Account_new_def sample_net_def IRC_members_def
      sample_env_def own_chats_def sample_world_def left_names_def sample_user_def sample_buddy_def sworld_def)



theorem stale_server_dangles_witness:
  "\<exists>s' ch'. disconnected sample_purple 1 sample_linked = Inr s' \<and> chans (se_net s') 4 = Some ch' \<and>
    (map_find (ch_cbuddies ch') 2 = None \<longrightarrow> addBuddy sample_world 4 2 0 (se_net s') = Inl Dangling)"
proof -
  have "ch_upserver (ConversationChannel sample_world 7 (Some 2)) = Some 2" by (simp add: ConversationChannel_def)
  moreover have "\<not> isMe sample_world 2" by (simp add: isMe_def sample_world_def)
  ultimately show ?thesis
    using stale_server_dangles [OF sample_linked_ok sample_linked_facts(1,2,4-6,9)] by blast
qed

end
