(* ===== verification/Markup_Props.thy ===== *)
theory Markup_Props
  imports Markup
begin

text \<open>
  What the markup conversions keep: no text is lost or added, the tags of a text are paired, and a
  formatted text comes back from the network as it was typed.
\<close>

section \<open>UTF-8\<close>

text \<open>\<open>utf8_from k s\<close>: \<open>s\<close> continues a character that needs \<open>k\<close> more bytes.\<close>

fun utf8_from :: "nat \<Rightarrow> string \<Rightarrow> bool" where
  "utf8_from k [] = (k = 0)"
| "utf8_from k (c # r) =
     (if 0x80 \<le> (of_char c :: nat) \<and> (of_char c :: nat) < 0xC0 then 0 < k \<and> utf8_from (k - 1) r
      else k = 0 \<and> utf8_from (utf8_skip c - 1) r)"

abbreviation utf8 :: "string \<Rightarrow> bool" where "utf8 \<equiv> utf8_from 0"

definition ascii :: "char \<Rightarrow> bool" where "ascii c \<longleftrightarrow> (of_char c :: nat) < 0x80"

lemma ascii_skip [simp]: "ascii c \<Longrightarrow> utf8_skip c = 1"
  by (simp add: ascii_def utf8_skip_def)

lemma utf8_ascii: "ascii c \<Longrightarrow> utf8_from k (c # r) \<longleftrightarrow> k = 0 \<and> utf8 r"
  by (simp add: ascii_def utf8_skip_def)

lemma utf8_append: "utf8_from k a \<Longrightarrow> utf8 b \<Longrightarrow> utf8_from k (a @ b)"
  by (induction k a rule: utf8_from.induct) auto

lemma utf8_split:
  assumes "utf8_from k s" and "\<And>c. \<not> P c \<Longrightarrow> ascii c"
  shows "utf8_from k (takeWhile P s) \<and> utf8 (dropWhile P s)"
  using assms(1)
proof (induction k s rule: utf8_from.induct)
  case (2 k c r)
  show ?case
  proof (cases "P c")
    case True
    then show ?thesis using 2 by (auto split: if_splits)
  next
    case False
    then have "k = 0 \<and> utf8 r" using 2(3) assms(2) utf8_ascii by blast
    with False show ?thesis using 2(3) by simp
  qed
qed simp

lemma utf8_drop: "utf8_from k s \<Longrightarrow> k \<le> length s \<and> utf8 (drop k s)"
proof (induction k s rule: utf8_from.induct)
  case (2 k c r)
  then show ?case by (cases k) (auto split: if_splits)
qed simp

section \<open>The loop of \<open>irc2markup\<close>\<close>

lemma codes_ascii: "c \<in> set mirc_codes \<Longrightarrow> ascii c"
  by (auto simp: mirc_codes_def ascii_def)

lemma digit_ascii: "isdigit c \<Longrightarrow> ascii c"
  by (simp add: isdigit_def ascii_def)

lemma loop_text:
  assumes "set t \<inter> set mirc_codes = {}" and "r = [] \<or> hd r \<in> set mirc_codes" and "esc [] = []"
  shows "irc2markup_loop esc f (t @ r) = esc t @ irc2markup_loop esc f r"
proof -
  have "takeWhile (\<lambda>c. c \<notin> set mirc_codes) (t @ r) = t" "dropWhile (\<lambda>c. c \<notin> set mirc_codes) (t @ r) = r"
      "takeWhile (\<lambda>c. c \<notin> set mirc_codes) r = []" "dropWhile (\<lambda>c. c \<notin> set mirc_codes) r = r"
    using assms(1,2) by (auto simp: takeWhile_append dropWhile_append disjoint_iff) (cases r; auto)+
  then show ?thesis using assms(3) by (simp add: irc2markup_loop.simps [of esc f "t @ r"] irc2markup_loop.simps [of esc f r])
qed

lemma loop_code:
  assumes "c \<in> set mirc_codes" and "esc [] = []"
  shows "irc2markup_loop esc f (c # r) =
    (case mirc_control f c r of (t, f1, r1) \<Rightarrow> t @ (if r1 = [] then [] else irc2markup_loop esc f1 r1))"
  using assms by (subst irc2markup_loop.simps) simp

lemma loop_end: "esc [] = [] \<Longrightarrow> irc2markup_loop esc f [] = close_all f"
  by (subst irc2markup_loop.simps) simp

text \<open>Induction over a text: an end, a run of ordinary text before a code, or a code.\<close>

lemma split_run: "\<exists>t r. s = t @ r \<and> set t \<inter> set mirc_codes = {} \<and> (r = [] \<or> hd r \<in> set mirc_codes)"
  by (rule exI [of _ "takeWhile (\<lambda>c. c \<notin> set mirc_codes) s"], rule exI [of _ "dropWhile (\<lambda>c. c \<notin> set mirc_codes) s"])
    (auto simp: disjoint_iff dest: set_takeWhileD intro: hd_dropWhile [of "\<lambda>c. c \<notin> set mirc_codes" s, simplified])

lemma one_digit_split: "\<exists>x. s = x @ snd (one_digit s) \<and> fst (one_digit s) = x \<and> (\<forall>c\<in>set x. isdigit c)"
  by (cases s) (auto simp: one_digit_def)

lemma two_digits_split: "\<exists>x. s = x @ snd (two_digits s) \<and> fst (two_digits s) = x \<and> (\<forall>c\<in>set x. isdigit c)"
proof -
  obtain x where x: "s = x @ snd (one_digit s)" "fst (one_digit s) = x" "\<forall>c\<in>set x. isdigit c"
    using one_digit_split by blast
  obtain y where y: "snd (one_digit s) = y @ snd (one_digit (snd (one_digit s)))" "fst (one_digit (snd (one_digit s))) = y"
      "\<forall>c\<in>set y. isdigit c"
    using one_digit_split by blast
  have "two_digits s = (x @ y, snd (one_digit (snd (one_digit s))))"
    using x(2) y(2) by (auto simp: two_digits_def Let_def split: prod.splits)
  moreover have "s = (x @ y) @ snd (one_digit (snd (one_digit s)))" using x(1) y(1) by simp
  ultimately show ?thesis using x(3) y(3) by auto
qed

lemma colour_digits_split:
  "\<exists>x. s = x @ snd (snd (colour_digits s)) \<and> (\<forall>c\<in>set x. isdigit c \<or> c = CHR '','')"
proof -
  obtain x r where x: "two_digits s = (x, r)" "s = x @ r" "\<forall>c\<in>set x. isdigit c"
    using two_digits_split [of s] by (metis prod.collapse)
  show ?thesis
  proof (cases "r \<noteq> [] \<and> hd r = CHR '',''")
    case True
    obtain y r2 where y: "two_digits (tl r) = (y, r2)" "tl r = y @ r2" "\<forall>c\<in>set y. isdigit c"
      using two_digits_split [of "tl r"] by (metis prod.collapse)
    have "r = CHR '','' # y @ r2" using True y(2) by (cases r) auto
    then show ?thesis using x y True by (intro exI [of _ "x @ CHR '','' # y"]) (auto simp: colour_digits_def)
  next
    case False
    then show ?thesis using x by (auto simp: colour_digits_def)
  qed
qed

lemma control_split:
  assumes "c \<in> set mirc_codes"
  shows "\<exists>x. r = x @ snd (snd (mirc_control f c r)) \<and> (\<forall>d\<in>set x. isdigit d \<or> d = CHR '','')"
  using assms colour_digits_split [of r] by (auto simp: mirc_codes_def mirc_control_def colour_code_def Let_def split: prod.splits)

section \<open>Nothing of the text is lost\<close>

text \<open>The text without its formatting codes, and a text of markup without its tags.\<close>

function strip_codes :: "string \<Rightarrow> string" where
  "strip_codes [] = []"
| "strip_codes (c # r) =
     (if c = CHR 0x03 then strip_codes (snd (snd (colour_digits r)))
      else if c \<in> set mirc_codes then strip_codes r else c # strip_codes r)"
  by pat_completeness auto
termination
proof (relation "measure length", goal_cases)
  case (2 c r)
  then show ?case using colour_digits_length [of r] by simp
qed simp_all

declare strip_codes.simps(2) [simp del]

fun untag :: "bool \<Rightarrow> string \<Rightarrow> string" where
  "untag inside [] = []"
| "untag inside (c # s) =
     (if inside then untag (c \<noteq> CHR ''>'') s else if c = CHR ''<'' then untag True s else c # untag False s)"

lemma untag_text: "CHR ''<'' \<notin> set t \<Longrightarrow> untag False (t @ s) = t @ untag False s"
  by (induction t) auto

lemma untag_inside: "CHR ''>'' \<notin> set t \<Longrightarrow> untag True (t @ CHR ''>'' # s) = untag False s"
  by (induction t) auto

lemma untag_tag: "CHR ''>'' \<notin> set t \<Longrightarrow> untag False (CHR ''<'' # t @ CHR ''>'' # s) = untag False s"
  by (simp add: untag_inside)

lemma colour_names: "i < 16 \<Longrightarrow> CHR ''>'' \<notin> set (snd (irc_colors ! i)) \<and> CHR ''<'' \<notin> set (snd (irc_colors ! i))"
proof -
  have "list_all (\<lambda>e. CHR ''>'' \<notin> set (snd e) \<and> CHR ''<'' \<notin> set (snd e)) irc_colors" by (simp add: irc_colors_def)
  moreover assume "i < 16"
  then have "i < length irc_colors" by (simp add: irc_colors_def)
  ultimately show ?thesis by (simp add: list_all_length)
qed

text \<open>The inside of the tag \<open>font_tag\<close>.\<close>

definition font_body :: "string \<Rightarrow> string \<Rightarrow> string" where
  "font_body fg bg =
     ''FONT COLOR='' @ [CHR 0x22] @ snd (irc_colors ! read_digits fg) @ [CHR 0x22] @
     (if bg \<noteq> [] \<and> read_digits bg < 16 then '' BACK='' @ [CHR 0x22] @ snd (irc_colors ! read_digits bg) @ [CHR 0x22] else [])"

lemma font_tag_body: "font_tag fg bg = CHR ''<'' # font_body fg bg @ [CHR ''>'']"
  by (simp add: font_tag_def font_body_def)

lemma font_body_plain: "read_digits fg \<le> 15 \<Longrightarrow> CHR ''>'' \<notin> set (font_body fg bg)"
  using colour_names [of "read_digits fg"] colour_names [of "read_digits bg"] by (auto simp: font_body_def)

text \<open>
  What a code appends is a sequence of tags: closing tags, and a tag that opens.
\<close>

fun tag_texts :: "string list \<Rightarrow> string" where
  "tag_texts [] = []"
| "tag_texts (t # ts) = CHR ''<'' # t @ CHR ''>'' # tag_texts ts"

lemma tag_texts_append [simp]: "tag_texts (a @ b) = tag_texts a @ tag_texts b"
  by (induction a) auto

definition close_tags :: "fmt \<Rightarrow> string list" where
  "close_tags f =
     (if f_bold f then [''/B''] else []) @ (if f_italic f then [''/I''] else []) @
     (if f_underline f then [''/U''] else []) @ (if f_font f then [''/FONT''] else [])"

definition control_tags :: "fmt \<Rightarrow> char \<Rightarrow> string \<Rightarrow> string list" where
  "control_tags f c r =
     (if c = CHR 0x02 then [if f_bold f then ''/B'' else ''B'']
      else if c = CHR 0x1F then [if f_underline f then ''/U'' else ''U'']
      else if c = CHR 0x0F then close_tags f
      else if c = CHR 0x03 then
        (case colour_digits r of (fg, bg, _) \<Rightarrow>
           (if f_font f then [''/FONT''] else []) @ (if fg \<noteq> [] \<and> read_digits fg \<le> 15 then [font_body fg bg] else []))
      else [])"

lemma close_all_tags: "close_all f = tag_texts (close_tags f)"
  by (simp add: close_all_def close_tags_def)

lemma control_texts: "c \<in> set mirc_codes \<Longrightarrow> fst (mirc_control f c r) = tag_texts (control_tags f c r)"
  by (auto simp: mirc_codes_def mirc_control_def control_tags_def colour_code_def close_all_tags font_tag_body Let_def split: prod.splits)

lemma close_tags_plain: "t \<in> set (close_tags f) \<Longrightarrow> CHR ''>'' \<notin> set t"
  by (auto simp: close_tags_def split: if_splits)

lemma control_tags_plain:
  assumes "t \<in> set (control_tags f c r)"
  shows "CHR ''>'' \<notin> set t"
proof (cases "c = CHR 0x03")
  case True
  obtain fg bg q where "colour_digits r = (fg, bg, q)" by (metis prod.collapse)
  then show ?thesis using assms True font_body_plain [of fg bg] by (auto simp: control_tags_def split: if_splits)
next
  case False
  then show ?thesis using assms close_tags_plain [of t f] by (auto simp: control_tags_def split: if_splits)
qed

lemma untag_texts: "(\<And>t. t \<in> set ts \<Longrightarrow> CHR ''>'' \<notin> set t) \<Longrightarrow> untag False (tag_texts ts @ s) = untag False s"
  by (induction ts) (auto simp: untag_inside)

lemma control_rest:
  "c \<in> set mirc_codes \<Longrightarrow> snd (snd (mirc_control f c r)) = (if c = CHR 0x03 then snd (snd (colour_digits r)) else r)"
  by (auto simp: mirc_codes_def mirc_control_def colour_code_def Let_def split: prod.splits)

lemma strip_run: "set t \<inter> set mirc_codes = {} \<Longrightarrow> strip_codes (t @ r) = t @ strip_codes r"
  by (induction t) (auto simp: strip_codes.simps mirc_codes_def)

lemma strip_code: "c \<in> set mirc_codes \<Longrightarrow> strip_codes (c # r) = strip_codes (snd (snd (mirc_control f c r)))"
  by (simp add: control_rest strip_codes.simps)

text \<open>Dropping ASCII characters from the front keeps UTF-8.\<close>

lemma utf8_ascii_prefix: "utf8 (x @ s) \<Longrightarrow> (\<forall>c\<in>set x. ascii c) \<Longrightarrow> utf8 s"
  by (induction x) (auto simp: utf8_ascii simp del: utf8_from.simps)

lemma utf8_control:
  assumes "c \<in> set mirc_codes" and "utf8 (c # r)"
  shows "utf8 (snd (snd (mirc_control f c r)))"
proof -
  obtain x where x: "r = x @ snd (snd (mirc_control f c r))" "\<forall>d\<in>set x. isdigit d \<or> d = CHR '',''"
    using control_split [OF assms(1)] by blast
  have "utf8 r" using assms codes_ascii utf8_ascii by blast
  with x have "utf8 (x @ snd (snd (mirc_control f c r)))" by simp
  moreover have "\<forall>d\<in>set x. ascii d" using x(2) digit_ascii by (auto simp: ascii_def)
  ultimately show ?thesis by (rule utf8_ascii_prefix)
qed

lemma utf8_run:
  assumes "utf8 (t @ r)" and "set t \<inter> set mirc_codes = {}" and "r = [] \<or> hd r \<in> set mirc_codes"
  shows "utf8 t" and "utf8 r"
proof -
  have "takeWhile (\<lambda>c. c \<notin> set mirc_codes) (t @ r) = t" "dropWhile (\<lambda>c. c \<notin> set mirc_codes) (t @ r) = r"
    using assms(2,3) by (auto simp: takeWhile_append dropWhile_append disjoint_iff) (cases r; auto)+
  then show "utf8 t" "utf8 r"
    using utf8_split [OF assms(1), of "\<lambda>c. c \<notin> set mirc_codes"] codes_ascii by auto
qed

lemma utf8_strip: "utf8 s \<Longrightarrow> utf8 (strip_codes s)"
proof (induction s rule: length_induct)
  case (1 s)
  obtain t r where t: "s = t @ r" "set t \<inter> set mirc_codes = {}" "r = [] \<or> hd r \<in> set mirc_codes"
    using split_run by blast
  note u = utf8_run [OF 1(2) [unfolded t(1)] t(2,3)]
  show ?case
  proof (cases r)
    case Nil
    then show ?thesis using u t(1) strip_run [OF t(2), of "[]"] by simp
  next
    case (Cons c q)
    let ?q = "snd (snd (mirc_control no_fmt c q))"
    have c: "c \<in> set mirc_codes" using Cons t(3) by simp
    have "utf8 ?q" using utf8_control [OF c] u(2) Cons by blast
    moreover have "length ?q < length s" using mirc_control_length [OF c, of no_fmt q] t(1) Cons by simp
    ultimately have "utf8 (strip_codes ?q)" using 1(1) by blast
    then show ?thesis using u(1) t(1) Cons strip_run [OF t(2)] strip_code [OF c, of q no_fmt] utf8_append by auto
  qed
qed

text \<open>
  What GLib promises of \<open>g_markup_escape_text\<close> for UTF-8: the empty text stays empty, the result has
  no \<open><\<close> and is UTF-8, escaping goes character by character, and no line end is made.
\<close>

definition escapes :: "(string \<Rightarrow> string) \<Rightarrow> bool" where
  "escapes esc \<longleftrightarrow>
     esc [] = [] \<and> (\<forall>t. CHR ''<'' \<notin> set (esc t)) \<and> (\<forall>t. utf8 t \<longrightarrow> utf8 (esc t)) \<and>
     (\<forall>a b. utf8 a \<longrightarrow> utf8 b \<longrightarrow> esc (a @ b) = esc a @ esc b) \<and>
     (\<forall>t c. c = CHR 0x0A \<or> c = CHR 0x0D \<longrightarrow> c \<in> set (esc t) \<longrightarrow> c \<in> set t)"

lemma escapesD:
  assumes "escapes esc"
  shows "esc [] = []" and "CHR ''<'' \<notin> set (esc t)" and "utf8 t \<Longrightarrow> utf8 (esc t)"
    and "utf8 a \<Longrightarrow> utf8 b \<Longrightarrow> esc (a @ b) = esc a @ esc b"
    and "c = CHR 0x0A \<or> c = CHR 0x0D \<Longrightarrow> c \<in> set (esc t) \<Longrightarrow> c \<in> set t"
  using assms unfolding escapes_def by blast+

lemma untag_loop:
  assumes esc: "escapes esc"
  shows "utf8 s \<Longrightarrow> untag False (irc2markup_loop esc f s) = esc (strip_codes s)"
proof (induction s arbitrary: f rule: length_induct)
  case (1 s)
  note e = escapesD [OF esc]
  obtain t r where t: "s = t @ r" "set t \<inter> set mirc_codes = {}" "r = [] \<or> hd r \<in> set mirc_codes"
    using split_run by blast
  note u = utf8_run [OF 1(2) [unfolded t(1)] t(2,3)]
  have run: "untag False (irc2markup_loop esc f s) = esc t @ untag False (irc2markup_loop esc f r)"
    using loop_text [of t r esc, OF t(2,3) e(1)] untag_text [OF e(2)] t(1) by simp
  show ?case
  proof (cases r)
    case Nil
    have "untag False (close_all f) = []" using untag_texts [of "close_tags f" "[]"] close_tags_plain by (simp add: close_all_tags)
    then show ?thesis using run Nil t(1) loop_end [of esc, OF e(1)] strip_run [OF t(2), of "[]"] by simp
  next
    case (Cons c q)
    obtain x f1 q1 where m: "mirc_control f c q = (x, f1, q1)" by (metis prod.collapse)
    have c: "c \<in> set mirc_codes" using Cons t(3) by simp
    have q1: "length q1 < length s" "utf8 q1"
      using mirc_control_length [OF c, of f q] utf8_control [OF c, of q f] u(2) m t(1) Cons by simp_all
    have "untag False (irc2markup_loop esc f r) = untag False (if q1 = [] then [] else irc2markup_loop esc f1 q1)"
      using loop_code [of c esc, OF c e(1)] m Cons control_texts [OF c, of f q] untag_texts [OF control_tags_plain] by simp
    also have "\<dots> = esc (strip_codes q1)" using 1(1) q1 e(1) by auto
    finally have rest: "untag False (irc2markup_loop esc f r) = esc (strip_codes q1)" .
    have "strip_codes s = t @ strip_codes q1" using t(1) Cons strip_run [OF t(2)] strip_code [OF c, of q f] m by simp
    then show ?thesis using run rest e(4) [OF u(1) utf8_strip [OF q1(2)]] by simp
  qed
qed

text \<open>
  A message is shown to the network with all its text and nothing else: taking the tags out of the
  markup leaves the escaped text of the message without its formatting codes, whatever codes it has.
\<close>

lemma formatting_keeps_text:
  assumes "escapes esc" and "utf8 s"
  shows "map_option (untag False) (irc2markup esc (Some s)) = Some (esc (strip_codes s))"
  using untag_loop [OF assms] by (simp add: irc2markup_def)

text \<open>An escape function for the examples: \<open><\<close> and \<open>&\<close> become entities.\<close>

definition sample_char :: "char \<Rightarrow> string" where
  "sample_char c = (if c = CHR ''<'' then ''&lt;'' else if c = CHR ''&'' then ''&amp;'' else [c])"

definition sample_esc :: "string \<Rightarrow> string" where
  "sample_esc t = concat (map sample_char t)"

lemma sample_utf8: "utf8_from k t \<Longrightarrow> utf8_from k (sample_esc t)"
proof (induction k t rule: utf8_from.induct)
  case (2 k c r)
  show ?case
  proof (cases "ascii c")
    case True
    then have "k = 0" "utf8 r" using 2(3) utf8_ascii by blast+
    then have "utf8 (sample_esc r)" using 2(2) True by (simp add: ascii_def)
    then show ?thesis using \<open>k = 0\<close> True by (auto simp: sample_esc_def sample_char_def utf8_skip_def ascii_def)
  next
    case False
    then have "sample_char c = [c]" by (auto simp: sample_char_def ascii_def)
    then show ?thesis using 2 by (auto simp: sample_esc_def split: if_splits)
  qed
qed (simp add: sample_esc_def)

lemma sample_escapes: "escapes sample_esc"
  unfolding escapes_def using sample_utf8 by (auto simp: sample_esc_def sample_char_def split: if_splits)

theorem formatting_keeps_text_witness:
  "escapes sample_esc \<and> irc2markup sample_esc (Some ([CHR 0x02] @ ''a<'' @ [CHR 0x03] @ ''04b'')) \<noteq> None \<and>
   map_option (untag False) (irc2markup sample_esc (Some ([CHR 0x02] @ ''a<'' @ [CHR 0x03] @ ''04b''))) = Some ''a&lt;b''"
proof -
  have "sample_esc (strip_codes ([CHR 0x02] @ ''a<'' @ [CHR 0x03] @ ''04b'')) = ''a&lt;b''"
    by (simp add: strip_codes.simps mirc_codes_def colour_digits_def two_digits_def one_digit_def isdigit_def sample_esc_def sample_char_def)
  then show ?thesis
    using sample_escapes formatting_keeps_text [OF sample_escapes, of "[CHR 0x02] @ ''a<'' @ [CHR 0x03] @ ''04b''"]
    by (simp add: utf8_skip_def irc2markup_def)
qed

section \<open>Tags are paired\<close>

text \<open>
  The tags of a markup text, and a reader of them that takes an opening tag only when the tag is not
  open and a closing one only when it is.
\<close>

fun read_tags :: "string option \<Rightarrow> string \<Rightarrow> string list" where
  "read_tags cur [] = []"
| "read_tags None (c # s) = read_tags (if c = CHR ''<'' then Some [] else None) s"
| "read_tags (Some t) (c # s) = (if c = CHR ''>'' then t # read_tags None s else read_tags (Some (t @ [c])) s)"

definition read_tag :: "string \<Rightarrow> fmt \<Rightarrow> fmt option" where
  "read_tag t f =
     (if t = ''B'' then if f_bold f then None else Some (f\<lparr>f_bold := True\<rparr>)
      else if t = ''/B'' then if f_bold f then Some (f\<lparr>f_bold := False\<rparr>) else None
      else if t = ''U'' then if f_underline f then None else Some (f\<lparr>f_underline := True\<rparr>)
      else if t = ''/U'' then if f_underline f then Some (f\<lparr>f_underline := False\<rparr>) else None
      else if take 4 t = ''FONT'' then if f_font f then None else Some (f\<lparr>f_font := True\<rparr>)
      else if t = ''/FONT'' then if f_font f then Some (f\<lparr>f_font := False\<rparr>) else None
      else None)"

fun paired :: "string list \<Rightarrow> fmt \<Rightarrow> fmt option" where
  "paired [] f = Some f"
| "paired (t # ts) f = Option.bind (read_tag t f) (paired ts)"

lemma paired_append: "paired (a @ b) f = Option.bind (paired a f) (paired b)"
  by (induction a arbitrary: f) (auto split: Option.bind_splits)

lemma read_tags_text: "CHR ''<'' \<notin> set t \<Longrightarrow> read_tags None (t @ s) = read_tags None s"
  by (induction t) auto

lemma read_tags_inside: "CHR ''>'' \<notin> set t \<Longrightarrow> read_tags (Some x) (t @ CHR ''>'' # s) = (x @ t) # read_tags None s"
  by (induction t arbitrary: x) auto

lemma read_tags_texts: "(\<And>t. t \<in> set ts \<Longrightarrow> CHR ''>'' \<notin> set t) \<Longrightarrow> read_tags None (tag_texts ts @ s) = ts @ read_tags None s"
  by (induction ts) (auto simp: read_tags_inside)

lemma paired_close: "\<not> f_italic f \<Longrightarrow> paired (close_tags f) f = Some no_fmt"
  by (cases f) (auto simp: close_tags_def read_tag_def no_fmt_def)

lemma paired_control:
  assumes "c \<in> set mirc_codes" and "c \<noteq> CHR 0x0F"
  shows "paired (control_tags f c r) f = Some (fst (snd (mirc_control f c r)))"
proof (cases "c = CHR 0x03")
  case True
  obtain fg bg q where q: "colour_digits r = (fg, bg, q)" by (metis prod.collapse)
  have "take 4 (font_body fg bg) = ''FONT''" "font_body fg bg \<noteq> ''B''" "font_body fg bg \<noteq> ''U''" by (auto simp: font_body_def)
  then have "read_tag (font_body fg bg) g = (if f_font g then None else Some (g\<lparr>f_font := True\<rparr>))" for g
    by (auto simp: read_tag_def)
  then show ?thesis using True q by (cases f) (auto simp: control_tags_def mirc_control_def colour_code_def read_tag_def)
next
  case False
  then show ?thesis using assms by (cases f) (auto simp: mirc_codes_def control_tags_def mirc_control_def read_tag_def)
qed

lemma control_italic: "c \<in> set mirc_codes \<Longrightarrow> f_italic (fst (snd (mirc_control f c r))) = f_italic f"
  by (auto simp: mirc_codes_def mirc_control_def colour_code_def Let_def split: prod.splits)

text \<open>A text that ends in an ordinary character, which is no part of a code.\<close>

definition ends_plain :: "string \<Rightarrow> bool" where
  "ends_plain s \<longleftrightarrow> s \<noteq> [] \<and> last s \<notin> set mirc_codes \<and> \<not> isdigit (last s) \<and> last s \<noteq> CHR '',''"

lemma paired_loop:
  assumes esc: "escapes esc"
  shows "ends_plain s \<Longrightarrow> CHR 0x0F \<notin> set s \<Longrightarrow> \<not> f_italic f \<Longrightarrow> paired (read_tags None (irc2markup_loop esc f s)) f = Some no_fmt"
proof (induction s arbitrary: f rule: length_induct)
  case (1 s)
  note e = escapesD [OF esc]
  obtain t r where t: "s = t @ r" "set t \<inter> set mirc_codes = {}" "r = [] \<or> hd r \<in> set mirc_codes"
    using split_run by blast
  have run: "read_tags None (irc2markup_loop esc f s) = read_tags None (irc2markup_loop esc f r)"
    using loop_text [of t r esc, OF t(2,3) e(1)] read_tags_text [OF e(2)] t(1) by simp
  show ?case
  proof (cases r)
    case Nil
    have "read_tags None (close_all f) = close_tags f"
      using read_tags_texts [of "close_tags f" "[]"] close_tags_plain by (simp add: close_all_tags)
    then show ?thesis using run Nil loop_end [of esc, OF e(1)] paired_close [OF 1(4)] by simp
  next
    case (Cons c q)
    obtain x f1 q1 where m: "mirc_control f c q = (x, f1, q1)" by (metis prod.collapse)
    have c: "c \<in> set mirc_codes" "c \<noteq> CHR 0x0F" using Cons t(1,3) 1(3) by auto
    obtain y where y: "q = y @ q1" "\<forall>d\<in>set y. isdigit d \<or> d = CHR '',''"
      using control_split [OF c(1), of q f] m by auto
    have "q1 \<noteq> []"
    proof
      assume "q1 = []"
      then have "last s \<in> set (c # y)" using t(1) Cons y(1) by simp
      then show False using 1(2) c(1) y(2) unfolding ends_plain_def by auto
    qed
    then have q1: "ends_plain q1" "CHR 0x0F \<notin> set q1" "length q1 < length s"
      using 1(2,3) t(1) Cons y(1) by (auto simp: ends_plain_def)
    have "\<not> f_italic f1" using control_italic [OF c(1), of f q] m 1(4) by simp
    then have "paired (read_tags None (irc2markup_loop esc f1 q1)) f1 = Some no_fmt" using 1(1) q1 by blast
    moreover have "read_tags None (irc2markup_loop esc f r) = control_tags f c q @ read_tags None (irc2markup_loop esc f1 q1)"
      using loop_code [of c esc, OF c(1) e(1)] m Cons control_texts [OF c(1), of f q] read_tags_texts [OF control_tags_plain] \<open>q1 \<noteq> []\<close> by simp
    ultimately show ?thesis using run paired_control [OF c, of f q] m by (simp add: paired_append)
  qed
qed

text \<open>
  C30: a message that ends in ordinary text and has no reset code becomes markup whose tags are paired:
  none is opened twice, none is closed that is not open, and all are closed at the end.
\<close>

theorem formatting_tags_paired:
  assumes "escapes esc" and "ends_plain s" and "CHR 0x0F \<notin> set s"
  shows "Option.bind (irc2markup esc (Some s)) (\<lambda>m. paired (read_tags None m) no_fmt) = Some no_fmt"
  using paired_loop [OF assms, of no_fmt] by (simp add: irc2markup_def no_fmt_def)

theorem formatting_tags_paired_witness:
  "Option.bind (irc2markup sample_esc (Some ([CHR 0x02] @ ''a'' @ [CHR 0x03] @ ''4b''))) (\<lambda>m. paired (read_tags None m) no_fmt) = Some no_fmt"
  by (rule formatting_tags_paired [OF sample_escapes]) (simp_all add: ends_plain_def mirc_codes_def isdigit_def)

text \<open>
  With a reset code they are not: the flags stay set, and the tags that the code closed are closed
  again at the end.
\<close>

lemma reset_closes_twice:
  assumes "escapes esc" and "set a \<inter> set mirc_codes = {}" and "set b \<inter> set mirc_codes = {}" and "b \<noteq> []"
  shows "irc2markup_loop esc no_fmt (CHR 0x02 # a @ CHR 0x0F # b) = ''<B>'' @ esc a @ ''</B>'' @ esc b @ ''</B>''"
proof -
  note e = escapesD(1) [OF assms(1)]
  have codes: "CHR 0x02 \<in> set mirc_codes" "CHR 0x0F \<in> set mirc_codes" by (simp_all add: mirc_codes_def)
  have b: "irc2markup_loop esc f b = esc b @ close_all f" for f
    using loop_text [of b "[]" esc, OF assms(3) _ e] loop_end [of esc, OF e] by simp
  have "irc2markup_loop esc f (a @ CHR 0x0F # b) = esc a @ close_all f @ esc b @ close_all f" for f
    using loop_text [of a "CHR 0x0F # b" esc, OF assms(2) _ e] loop_code [of _ esc, OF codes(2) e] codes(2) b assms(4)
    by (simp add: mirc_control_def)
  then show ?thesis using loop_code [of _ esc, OF codes(1) e] by (simp add: mirc_control_def no_fmt_def close_all_def)
qed

text \<open>A code at the end of the text leaves its tag open.\<close>

lemma code_at_end_stays_open:
  assumes "escapes esc" and "set a \<inter> set mirc_codes = {}"
  shows "irc2markup_loop esc no_fmt (a @ [CHR 0x1F]) = esc a @ ''<U>''"
  using loop_text [of a "[CHR 0x1F]" esc, OF assms(2) _ escapesD(1) [OF assms(1)]]
    loop_code [of "CHR 0x1F" esc, OF _ escapesD(1) [OF assms(1)]]
  by (simp add: mirc_codes_def mirc_control_def no_fmt_def)

section \<open>There and back\<close>

text \<open>
  Formatted text: ordinary runs, toggles, and colours with two digits. It is tidy when bold, underline
  and colour end where they began, two colours do not overlap, and no run continues the one before it
  or the digits of a colour code.
\<close>

datatype piece = Plain string | Bold | Underline | Colour nat "nat option" | EndColour

definition two :: "nat \<Rightarrow> string" where
  "two n = [char_of (48 + n div 10), char_of (48 + n mod 10)]"

fun piece_code :: "piece \<Rightarrow> string" where
  "piece_code (Plain t) = t"
| "piece_code Bold = [CHR 0x02]"
| "piece_code Underline = [CHR 0x1F]"
| "piece_code (Colour n b) = CHR 0x03 # two n @ (case b of None \<Rightarrow> [] | Some m \<Rightarrow> CHR '','' # two m)"
| "piece_code EndColour = [CHR 0x03]"

definition codes :: "piece list \<Rightarrow> string" where
  "codes ps = concat (map piece_code ps)"

definition ordinary :: "string \<Rightarrow> bool" where
  "ordinary t \<longleftrightarrow> t \<noteq> [] \<and> utf8 t \<and> set t \<inter> set (CHR 0x0A # CHR 0x0D # mirc_codes) = {}"

fun continues :: "(char \<Rightarrow> bool) \<Rightarrow> piece list \<Rightarrow> bool" where
  "continues P (Plain t # ps) = (t \<noteq> [] \<and> P (hd t))"
| "continues P ps = False"

fun tidy :: "fmt \<Rightarrow> piece list \<Rightarrow> bool" where
  "tidy f [] = (f = no_fmt)"
| "tidy f (Plain t # ps) = (ordinary t \<and> \<not> continues (\<lambda>_. True) ps \<and> tidy f ps)"
| "tidy f (Bold # ps) = tidy (f\<lparr>f_bold := \<not> f_bold f\<rparr>) ps"
| "tidy f (Underline # ps) = tidy (f\<lparr>f_underline := \<not> f_underline f\<rparr>) ps"
| "tidy f (Colour n b # ps) =
     (\<not> f_font f \<and> n < 16 \<and> (case b of None \<Rightarrow> \<not> continues (\<lambda>c. c = CHR '','') ps | Some m \<Rightarrow> m < 16) \<and> tidy (f\<lparr>f_font := True\<rparr>) ps)"
| "tidy f (EndColour # ps) = (f_font f \<and> \<not> continues (\<lambda>c. isdigit c \<or> c = CHR '','') ps \<and> tidy (f\<lparr>f_font := False\<rparr>) ps)"

fun piece_tags :: "(string \<Rightarrow> string) \<Rightarrow> fmt \<Rightarrow> piece list \<Rightarrow> string" where
  "piece_tags esc f [] = []"
| "piece_tags esc f (Plain t # ps) = esc t @ piece_tags esc f ps"
| "piece_tags esc f (Bold # ps) = (if f_bold f then ''</B>'' else ''<B>'') @ piece_tags esc (f\<lparr>f_bold := \<not> f_bold f\<rparr>) ps"
| "piece_tags esc f (Underline # ps) =
     (if f_underline f then ''</U>'' else ''<U>'') @ piece_tags esc (f\<lparr>f_underline := \<not> f_underline f\<rparr>) ps"
| "piece_tags esc f (Colour n b # ps) =
     font_tag (two n) (case b of None \<Rightarrow> [] | Some m \<Rightarrow> two m) @ piece_tags esc (f\<lparr>f_font := True\<rparr>) ps"
| "piece_tags esc f (EndColour # ps) = ''</FONT>'' @ piece_tags esc (f\<lparr>f_font := False\<rparr>) ps"

lemma two_nonempty [simp]: "two n \<noteq> []"
  by (simp add: two_def)

lemma small_cases: "n < 16 \<Longrightarrow> n \<in> set [0..<16]"
  by simp

lemma two_isdigit:
  assumes "n < 16"
  shows "\<forall>c\<in>set (two n). isdigit c"
proof -
  have "\<forall>k\<in>set [0..<16]. \<forall>c\<in>set (two k). isdigit c" by (simp add: two_def isdigit_def upt_rec)
  then show ?thesis using small_cases [OF assms] by blast
qed

lemma two_digits_two:
  assumes "n < 16"
  shows "two_digits (two n @ r) = (two n, r)" and "read_digits (two n) = n"
proof -
  show "two_digits (two n @ r) = (two n, r)" using two_isdigit [OF assms] by (simp add: two_def two_digits_def one_digit_def)
  have "\<forall>k\<in>set [0..<16]. read_digits (two k) = k" by (simp add: two_def read_digits_def digit_value_def upt_rec)
  then show "read_digits (two n) = n" using assms small_cases by blast
qed

lemma codes_Cons [simp]: "codes [] = []" "codes (p # ps) = piece_code p @ codes ps"
  by (simp_all add: codes_def)

lemma codes_nonempty: "tidy f ps \<Longrightarrow> codes ps = [] \<longleftrightarrow> ps = []"
  by (cases "(f, ps)" rule: tidy.cases) (auto simp: ordinary_def)

lemma codes_hd: "ps \<noteq> [] \<Longrightarrow> \<not> continues (\<lambda>_. True) ps \<Longrightarrow> tidy f ps \<Longrightarrow> codes ps \<noteq> [] \<and> hd (codes ps) \<in> set mirc_codes"
  by (cases "(f, ps)" rule: tidy.cases) (auto simp: mirc_codes_def ordinary_def)

lemma codes_front:
  assumes "tidy f ps" and "\<not> continues P ps" and "\<And>c. c \<in> set mirc_codes \<Longrightarrow> \<not> P c"
  shows "codes ps = [] \<or> \<not> P (hd (codes ps))"
proof (cases "continues (\<lambda>_. True) ps")
  case True
  then obtain t qs where "ps = Plain t # qs" "t \<noteq> []" by (cases "(f, ps)" rule: tidy.cases) auto
  then show ?thesis using assms(2) by simp
next
  case False
  then show ?thesis using codes_hd [OF _ False assms(1)] assms(3) by (cases "ps = []") auto
qed

lemma colour_digits_two:
  assumes "n < 16"
  shows "r = [] \<or> hd r \<noteq> CHR '','' \<Longrightarrow> colour_digits (two n @ r) = (two n, [], r)"
    and "m < 16 \<Longrightarrow> colour_digits (two n @ CHR '','' # two m @ r) = (two n, two m, r)"
  using two_digits_two(1) [OF assms] two_digits_two(1) [of m] by (auto simp: colour_digits_def)

lemma colour_digits_none:
  "r = [] \<or> \<not> isdigit (hd r) \<and> hd r \<noteq> CHR '','' \<Longrightarrow> colour_digits r = ([], [], r)"
  by (auto simp: colour_digits_def two_digits_def one_digit_def)

lemma step_code:
  assumes "c \<in> set mirc_codes" and "esc [] = []" and "mirc_control f c r = (t, f1, codes ps)" and "tidy f1 ps"
    and "irc2markup_loop esc f1 (codes ps) = piece_tags esc f1 ps"
  shows "irc2markup_loop esc f (c # r) = t @ piece_tags esc f1 ps"
  using loop_code [of c esc, OF assms(1,2)] assms(3-5) codes_nonempty [OF assms(4)] by simp

lemma loop_pieces:
  assumes "esc [] = []"
  shows "tidy f ps \<Longrightarrow> irc2markup_loop esc f (codes ps) = piece_tags esc f ps"
proof (induction f ps rule: tidy.induct)
  case (1 f)
  then show ?case using loop_end [of esc] assms by (simp add: no_fmt_def close_all_def)
next
  case (2 f t ps)
  have "codes ps = [] \<or> hd (codes ps) \<in> set mirc_codes" using codes_hd 2(2) by (cases "ps = []") auto
  moreover have "set t \<inter> set mirc_codes = {}" using 2(2) by (auto simp: ordinary_def)
  ultimately show ?case using 2 loop_text [of t "codes ps" esc] assms by simp
next
  case (3 f ps)
  then show ?case using step_code [of "CHR 0x02" esc, OF _ assms] by (simp add: mirc_codes_def mirc_control_def)
next
  case (4 f ps)
  then show ?case using step_code [of "CHR 0x1F" esc, OF _ assms] by (simp add: mirc_codes_def mirc_control_def)
next
  case (5 f n b ps)
  let ?bg = "case b of None \<Rightarrow> [] | Some m \<Rightarrow> two m"
  have "colour_digits (two n @ (case b of None \<Rightarrow> [] | Some m \<Rightarrow> CHR '','' # two m) @ codes ps) = (two n, ?bg, codes ps)"
    using 5(2) colour_digits_two [of n] codes_front [of "f\<lparr>f_font := True\<rparr>" ps "\<lambda>c. c = CHR '',''"]
    by (auto simp: mirc_codes_def split: option.splits)
  then have "mirc_control f (CHR 0x03) (two n @ (case b of None \<Rightarrow> [] | Some m \<Rightarrow> CHR '','' # two m) @ codes ps) =
      (font_tag (two n) ?bg, f\<lparr>f_font := True\<rparr>, codes ps)"
    using 5(2) two_digits_two(2) [of n] by (simp add: mirc_control_def colour_code_def two_def [of n])
  then show ?case using 5 step_code [of "CHR 0x03" esc, OF _ assms] by (simp add: mirc_codes_def)
next
  case (6 f ps)
  have "codes ps = [] \<or> \<not> (isdigit (hd (codes ps)) \<or> hd (codes ps) = CHR '','')"
    using 6(2) by (intro codes_front [of "f\<lparr>f_font := False\<rparr>"]) (auto simp: mirc_codes_def isdigit_def)
  then have "mirc_control f (CHR 0x03) (codes ps) = (''</FONT>'', f\<lparr>f_font := False\<rparr>, codes ps)"
    using 6(2) colour_digits_none [of "codes ps"] by (simp add: mirc_control_def colour_code_def)
  then show ?case using 6 step_code [of "CHR 0x03" esc, OF _ assms] by (simp add: mirc_codes_def)
qed

text \<open>The way back, tag by tag.\<close>

lemma seek_ascii: "\<forall>d\<in>set x. ascii d \<and> d \<noteq> c \<Longrightarrow> seek c (x @ c # y) = c # y"
proof (induction x)
  case Nil
  then show ?case by (simp add: seek.simps [of c "c # y"])
next
  case (Cons d x)
  then show ?case by (simp add: seek.simps [of c "d # x @ c # y"] next_char_def)
qed

lemma next_gt: "next_char (CHR ''>'' # r) = r"
  by (simp add: next_char_def utf8_skip_def)

lemma back_text: "utf8 t \<Longrightarrow> CHR ''<'' \<notin> set t \<Longrightarrow> markup2irc_loop (t @ r) = t @ markup2irc_loop r"
proof (induction t rule: length_induct)
  case (1 t)
  show ?case
  proof (cases t)
    case (Cons c q)
    have k: "utf8_skip c \<le> length t" "utf8 (drop (utf8_skip c) t)"
      using 1(2) utf8_drop [of "utf8_skip c - 1" q] Cons utf8_skip_pos [of c] by (auto split: if_splits simp: drop_Cons')
    have cut: "take (utf8_skip c) (t @ r) = take (utf8_skip c) t" "drop (utf8_skip c) (t @ r) = drop (utf8_skip c) t @ r"
      using k(1) by simp_all
    have "c \<noteq> CHR ''<''" using 1(3) Cons by auto
    have "markup2irc_loop (t @ r) = take (utf8_skip c) (t @ r) @ markup2irc_loop (drop (utf8_skip c) (t @ r))"
      using Cons \<open>c \<noteq> CHR ''<''\<close> by (simp add: markup2irc_loop.simps next_char_def)
    then have "markup2irc_loop (t @ r) = take (utf8_skip c) t @ markup2irc_loop (drop (utf8_skip c) t @ r)" by (simp only: cut(1,2))
    also have "markup2irc_loop (drop (utf8_skip c) t @ r) = drop (utf8_skip c) t @ markup2irc_loop r"
      using 1(1) [rule_format, of "drop (utf8_skip c) t"] k 1(3) utf8_skip_pos [of c] Cons in_set_dropD by fastforce
    finally show ?thesis by (simp flip: append_assoc)
  qed simp
qed

lemma back_tag: "markup2irc_loop (CHR ''<'' # r) = fst (markup_tag r) @ markup2irc_loop (snd (markup_tag r))"
  by (simp add: markup2irc_loop.simps)

lemma lower_tags:
  "tolower CHR ''B'' = CHR ''b''" "tolower CHR ''U'' = CHR ''u''" "tolower CHR ''F'' = CHR ''f''" "tolower CHR ''O'' = CHR ''o''"
  "tolower CHR ''N'' = CHR ''n''" "tolower CHR ''T'' = CHR ''t''" "tolower CHR ''C'' = CHR ''c''" "tolower CHR ''L'' = CHR ''l''"
  "tolower CHR ''R'' = CHR ''r''" "tolower CHR ''A'' = CHR ''a''" "tolower CHR ''K'' = CHR ''k''" "tolower CHR ''='' = CHR ''=''"
  "tolower CHR ''b'' = CHR ''b''" "tolower CHR ''c'' = CHR ''c''" "tolower CHR ''o'' = CHR ''o''" "tolower CHR ''l'' = CHR ''l''"
  "tolower CHR ''r'' = CHR ''r''" "tolower CHR ''a'' = CHR ''a''" "tolower CHR ''k'' = CHR ''k''" "tolower CHR '' '' = CHR '' ''"
  by code_simp+

lemma back_simple:
  "markup2irc_loop (''<B>'' @ r) = CHR 0x02 # markup2irc_loop r" "markup2irc_loop (''</B>'' @ r) = CHR 0x02 # markup2irc_loop r"
  "markup2irc_loop (''<U>'' @ r) = CHR 0x1F # markup2irc_loop r" "markup2irc_loop (''</U>'' @ r) = CHR 0x1F # markup2irc_loop r"
  "markup2irc_loop (''</FONT>'' @ r) = CHR 0x03 # markup2irc_loop r"
  using seek_ascii [of "''B''" "CHR ''>''" r] seek_ascii [of "''/B''" "CHR ''>''" r] seek_ascii [of "''U''" "CHR ''>''" r]
    seek_ascii [of "''/U''" "CHR ''>''" r] seek_ascii [of "''/FONT''" "CHR ''>''" r]
  by (simp_all add: back_tag markup_tag_def next_gt strncaseeq_def strlower_def lower_tags Let_def ascii_def)

text \<open>Every colour is read back from its name.\<close>

lemma colour_table:
  assumes "n < 16"
  shows "\<forall>d\<in>set (snd (irc_colors ! n)). ascii d \<and> d \<noteq> CHR ''>'' \<and> d \<noteq> CHR 0x22"
    and "find (\<lambda>(num, nm). strlower (snd (irc_colors ! n)) = strlower (take (length (snd (irc_colors ! n))) nm)) irc_colors
      = Some (two n, snd (irc_colors ! n))"
proof -
  have "list_all (\<lambda>k. list_all (\<lambda>d. ascii d \<and> d \<noteq> CHR ''>'' \<and> d \<noteq> CHR 0x22) (snd (irc_colors ! k))) [0..<16]" by code_simp
  then show "\<forall>d\<in>set (snd (irc_colors ! n)). ascii d \<and> d \<noteq> CHR ''>'' \<and> d \<noteq> CHR 0x22"
    using small_cases [OF assms] unfolding list_all_iff by blast
  have "list_all (\<lambda>k. find (\<lambda>(num, nm). strlower (snd (irc_colors ! k)) = strlower (take (length (snd (irc_colors ! k))) nm)) irc_colors
      = Some (two k, snd (irc_colors ! k))) [0..<16]" by code_simp
  then show "find (\<lambda>(num, nm). strlower (snd (irc_colors ! n)) = strlower (take (length (snd (irc_colors ! n))) nm)) irc_colors
      = Some (two n, snd (irc_colors ! n))"
    using small_cases [OF assms] unfolding list_all_iff by blast
qed

lemma attr_value:
  assumes "n < 16"
  shows "seek (CHR 0x22) (snd (irc_colors ! n) @ CHR 0x22 # r) = CHR 0x22 # r"
    and "colour_num (snd (irc_colors ! n) @ CHR 0x22 # r) (length (snd (irc_colors ! n))) = Some (two n)"
  using seek_ascii [of "snd (irc_colors ! n)" "CHR 0x22" r] colour_table [OF assms] by (simp_all add: colour_num_def strncaseeq_def)

lemma font_attrs_steps:
  assumes "n < 16"
  shows "font_attrs fg bg (''COLOR='' @ CHR 0x22 # snd (irc_colors ! n) @ CHR 0x22 # r)
      = font_attrs (Some (two n)) bg (dropWhile (\<lambda>c. c = CHR '' '') r)"
    and "font_attrs fg bg (''BACK='' @ CHR 0x22 # snd (irc_colors ! n) @ CHR 0x22 # r)
      = font_attrs fg (Some (two n)) (dropWhile (\<lambda>c. c = CHR '' '') r)"
proof -
  let ?v = "snd (irc_colors ! n) @ CHR 0x22 # r"
  have q: "skip_quote (CHR 0x22 # z) = z" for z by (simp add: skip_quote_def)
  have "strncaseeq (''COLOR='' @ z) ''color='' 6" "\<not> strncaseeq (''BACK='' @ z) ''color='' 6" "strncaseeq (''BACK='' @ z) ''back='' 5" for z
    by (simp_all add: strncaseeq_def strlower_def lower_tags)
  note tests = this [of "CHR 0x22 # ?v"]
  have len: "length ?v - length (CHR 0x22 # r) = length (snd (irc_colors ! n))" by simp
  have drop: "drop 6 (''COLOR='' @ CHR 0x22 # ?v) = CHR 0x22 # ?v" "drop 5 (''BACK='' @ CHR 0x22 # ?v) = CHR 0x22 # ?v" by simp_all
  have hd: "\<not> (''COLOR='' @ CHR 0x22 # ?v = [] \<or> hd (''COLOR='' @ CHR 0x22 # ?v) = CHR ''>'')"
      "\<not> (''BACK='' @ CHR 0x22 # ?v = [] \<or> hd (''BACK='' @ CHR 0x22 # ?v) = CHR ''>'')" by simp_all
  show "font_attrs fg bg (''COLOR='' @ CHR 0x22 # ?v) = font_attrs (Some (two n)) bg (dropWhile (\<lambda>c. c = CHR '' '') r)"
    unfolding font_attrs.simps [of fg bg "''COLOR='' @ CHR 0x22 # ?v"]
    by (simp only: tests hd drop q attr_value [OF assms] len Let_def or_old_def option.case if_True if_False)
  show "font_attrs fg bg (''BACK='' @ CHR 0x22 # ?v) = font_attrs fg (Some (two n)) (dropWhile (\<lambda>c. c = CHR '' '') r)"
    unfolding font_attrs.simps [of fg bg "''BACK='' @ CHR 0x22 # ?v"]
    by (simp only: tests hd drop q attr_value [OF assms] len Let_def or_old_def option.case if_True if_False)
qed

lemma font_attrs_end: "font_attrs fg bg (CHR ''>'' # r) = (fg, bg)"
  by (simp add: font_attrs.simps)

lemma back_font:
  assumes "n < 16" and "case b of None \<Rightarrow> True | Some m \<Rightarrow> m < 16"
  shows "markup2irc_loop (font_tag (two n) (case b of None \<Rightarrow> [] | Some m \<Rightarrow> two m) @ r) = piece_code (Colour n b) @ markup2irc_loop r"
proof -
  let ?bg = "case b of None \<Rightarrow> [] | Some m \<Rightarrow> two m"
  let ?x = "font_body (two n) ?bg"
  define y where "y = (case b of None \<Rightarrow> [] | Some m \<Rightarrow> '' BACK='' @ CHR 0x22 # snd (irc_colors ! m) @ [CHR 0x22])"
  have x: "?x = ''FONT COLOR='' @ CHR 0x22 # snd (irc_colors ! n) @ CHR 0x22 # y"
    using assms two_digits_two(2) by (cases b) (auto simp: font_body_def y_def two_nonempty)
  have names: "\<forall>d\<in>set (snd (irc_colors ! n)). ascii d \<and> d \<noteq> CHR ''>''" using colour_table(1) [OF assms(1)] by blast
  have y: "\<forall>d\<in>set y. ascii d \<and> d \<noteq> CHR ''>''"
  proof (cases b)
    case (Some m)
    then have "\<forall>d\<in>set (snd (irc_colors ! m)). ascii d \<and> d \<noteq> CHR ''>''" using colour_table(1) [of m] assms(2) by simp
    then show ?thesis using Some by (simp add: y_def ascii_def ball_Un)
  qed (simp add: y_def)
  have "\<forall>d\<in>set ?x. ascii d \<and> d \<noteq> CHR ''>''"
    unfolding x using names y by (simp add: ascii_def ball_Un)
  then have "seek (CHR ''>'') (?x @ CHR ''>'' # r) = CHR ''>'' # r" by (rule seek_ascii)
  then have "markup_tag (?x @ CHR ''>'' # r) = (font_code (drop 5 (?x @ CHR ''>'' # r)), r)"
    unfolding x by (simp add: markup_tag_def next_gt strncaseeq_def strlower_def lower_tags Let_def)
  moreover have "font_attrs None None (drop 5 (?x @ CHR ''>'' # r)) = (Some (two n), map_option two b)"
    using font_attrs_steps(1) [OF assms(1), of None None "y @ CHR ''>'' # r"] assms(2) font_attrs_steps(2) [of _ _ None "CHR ''>'' # r"]
    unfolding x by (cases b) (simp_all add: y_def font_attrs_end)
  ultimately show ?thesis
    by (cases b) (simp_all add: font_tag_body back_tag font_code_def)
qed

text \<open>What \<open>markup2irc\<close> has before \<open>purple_markup_strip_html\<close>: the codes, and the text still escaped.\<close>

definition escaped_codes :: "(string \<Rightarrow> string) \<Rightarrow> piece list \<Rightarrow> string" where
  "escaped_codes esc ps = concat (map (\<lambda>p. case p of Plain t \<Rightarrow> esc t | _ \<Rightarrow> piece_code p) ps)"

lemma escaped_Cons [simp]:
  "escaped_codes esc [] = []" "escaped_codes esc (Plain t # ps) = esc t @ escaped_codes esc ps"
  "escaped_codes esc (Bold # ps) = CHR 0x02 # escaped_codes esc ps" "escaped_codes esc (Underline # ps) = CHR 0x1F # escaped_codes esc ps"
  "escaped_codes esc (Colour n b # ps) = piece_code (Colour n b) @ escaped_codes esc ps"
  "escaped_codes esc (EndColour # ps) = CHR 0x03 # escaped_codes esc ps"
  by (simp_all add: escaped_codes_def)

lemma back_pieces:
  assumes "escapes esc"
  shows "tidy f ps \<Longrightarrow> markup2irc_loop (piece_tags esc f ps) = escaped_codes esc ps"
proof (induction f ps rule: tidy.induct)
  case (2 f t ps)
  then have "utf8 (esc t)" "CHR ''<'' \<notin> set (esc t)" using escapesD(2,3) [OF assms] by (auto simp: ordinary_def)
  then show ?case using 2 back_text by simp
next
  case (3 f ps)
  then show ?case using back_simple(1,2) by (cases "f_bold f") simp_all
next
  case (4 f ps)
  then show ?case using back_simple(3,4) by (cases "f_underline f") simp_all
next
  case (5 f n b ps)
  then show ?case using back_font [of n b] by (simp split: option.splits)
next
  case (6 f ps)
  then show ?case using back_simple(5) by simp
qed simp

lemma piece_tags_lines:
  assumes "escapes esc" and "c = CHR 0x0A \<or> c = CHR 0x0D"
  shows "tidy f ps \<Longrightarrow> c \<notin> set (piece_tags esc f ps)"
proof (induction f ps rule: tidy.induct)
  case (2 f t ps)
  then show ?case using escapesD(5) [OF assms(1), of c t] assms(2) by (auto simp: ordinary_def)
next
  case (5 f n b ps)
  have "list_all (\<lambda>e. CHR 0x0A \<notin> set (snd e) \<and> CHR 0x0D \<notin> set (snd e)) irc_colors" by (simp add: irc_colors_def)
  then have names: "i < 16 \<Longrightarrow> c \<notin> set (snd (irc_colors ! i))" for i
    using assms(2) by (auto simp: list_all_length irc_colors_def)
  have "c \<notin> set (font_tag (two n) bg)" for bg
    using names [of n] names [of "read_digits bg"] 5(2) assms(2) two_digits_two(2) [of n] by (auto simp: font_tag_def)
  then show ?case using 5 by simp
qed (use assms(2) in auto)

lemma codes_roundtrip:
  assumes "escapes esc" and "\<And>m. CHR 0x0A \<notin> set m \<Longrightarrow> CHR 0x0D \<notin> set m \<Longrightarrow> withhtml m = m"
    and "\<And>qs. tidy no_fmt qs \<Longrightarrow> strip (escaped_codes esc qs) = codes qs" and "tidy no_fmt ps"
  shows "map_option (markup2irc withhtml strip) (irc2markup esc (Some (codes ps))) = Some (codes ps)"
proof -
  have "withhtml (piece_tags esc no_fmt ps) = piece_tags esc no_fmt ps"
    using piece_tags_lines [OF assms(1) _ assms(4)] assms(2) by blast
  then show ?thesis
    using loop_pieces [of esc, OF escapesD(1) [OF assms(1)] assms(4)] back_pieces [OF assms(1,4)] assms(3,4)
    by (simp add: irc2markup_def markup2irc_def)
qed


text \<open>Undoing \<open>sample_esc\<close>, and line ends as \<open>purple_strdup_withhtml\<close> changes them, for the example.\<close>

function unentity :: "string \<Rightarrow> string" where
  "unentity s =
     (if s = [] then []
      else if take 4 s = ''&lt;'' then CHR ''<'' # unentity (drop 4 s)
      else if take 5 s = ''&amp;'' then CHR ''&'' # unentity (drop 5 s)
      else hd s # unentity (tl s))"
  by pat_completeness auto
termination by (relation "measure length") auto

declare unentity.simps [simp del]

definition sample_lines :: "string \<Rightarrow> string" where
  "sample_lines m = concat (map (\<lambda>c. if c = CHR 0x0A then ''<BR>'' else if c = CHR 0x0D then [] else [c]) m)"

lemma unentity_other: "c \<noteq> CHR ''&'' \<Longrightarrow> unentity (c # r) = c # unentity r"
  by (subst unentity.simps) simp

lemma unentity_esc: "unentity (sample_esc t @ r) = t @ unentity r"
proof (induction t)
  case (Cons c t)
  have "unentity (''&lt;'' @ q) = CHR ''<'' # unentity q" "unentity (''&amp;'' @ q) = CHR ''&'' # unentity q" for q
    by (subst unentity.simps, simp)+
  then show ?case using Cons by (auto simp: sample_esc_def sample_char_def unentity_other)
qed (simp add: sample_esc_def)

lemma unentity_codes: "tidy f qs \<Longrightarrow> unentity (escaped_codes sample_esc qs) = codes qs"
proof (induction f qs rule: tidy.induct)
  case (1 f)
  then show ?case by (simp add: unentity.simps)
next
  case (5 f n b qs)
  have "\<not> isdigit CHR ''&''" by (simp add: isdigit_def)
  then have two: "n < 16 \<Longrightarrow> unentity (two n @ r) = two n @ unentity r" for n r
  proof -
    assume "n < 16"
    then have "char_of (48 + n div 10) \<noteq> CHR ''&''" "char_of (48 + n mod 10) \<noteq> CHR ''&''"
      using two_isdigit [of n] \<open>\<not> isdigit CHR ''&''\<close> unfolding two_def by (metis list.set_intros(1,2))+
    then show ?thesis by (simp only: two_def append.simps unentity_other not_False_eq_True)
  qed
  show ?case using 5 two by (auto simp: unentity_other split: option.splits)
qed (auto simp: unentity_esc unentity_other)


end
