(* ===== verification/Callback_Props.thy ===== *)
theory Callback_Props
  imports Conversations Callbacks Connection_Props Markup_Props
begin

text \<open>
  The callbacks of conversations and file transfers: a chat without channel, formatted messages from
  one user to another, the offer of a file and what becomes of it when the contact goes.
\<close>

section \<open>Chats without a channel\<close>

lemma with_conv_channel_none:
  "host_ok (se_net s) \<Longrightarrow> conv_chan (se_net s) c = None \<Longrightarrow> \<exists>s'. with_conv_channel v level c f s = Inr s' \<and> only_out s s'"
  using b_log_ok by (simp add: with_conv_channel_def)


section \<open>From one user to another\<close>

lemma plain_send:
  assumes "\<not> starts (CHR 0x01 # ''ACTION '') t" and "\<not> starts (CHR 0x01 # ''TYPING '') t"
  shows "Conversation_sendMessage v c t = send_text v c t"
  using assms by (simp add: Conversation_sendMessage_def)

lemma plain_recv:
  assumes "flags AND ve_RECV v \<noteq> 0" and "flags AND ve_SYSTEM v = 0" and "flags AND ve_DELAYED v = 0" and "ve_meify v m = None"
  shows "write_conv v c (Some who) None m flags t s =
    recvMessage v c who (markup2irc (ve_withhtml v) (ve_strip v) m) False s"
  using assms by (cases "who = []") (simp_all add: write_conv_def non_empty_def Let_def)


section \<open>File transfers\<close>

lemma updateDCC_frame [simp]:
  "dccs (updateDCC ft d now f n) = map (\<lambda>x. case x of
                  Server sv \<Rightarrow> if getFileTransfert x = Some ft then Server (Dcc.updated d now f sv) else x
                | Get g \<Rightarrow> x) (filter (\<lambda>x. \<not> isFinished x) (dccs n))"
  "host_ok (updateDCC ft d now f n) = host_ok n"
  by (simp_all add: updateDCC_def host_ok_def)

lemma destroyed_forgets: "getFileTransfert (Server sv) = Some ft \<Longrightarrow> getFileTransfert (Server (Dcc.updated True now f sv)) = None"
  by (cases f) (auto simp: getFileTransfert_def Dcc.updated_def deinit_def server_deinit_def dcc_send_def Let_def split: server_class.splits)

lemma may_log:
  assumes "host_ok (se_net s)"
  shows "\<exists>s'. (if p then Inr s else if q then b_log x f t s else if r then b_log x g u s else Inr s) = Inr s' \<and> only_out s s'"
  using b_log_ok [OF assms] by (cases p; cases q; cases r) simp_all

lemma only_out_dccs: "only_out s s' \<Longrightarrow> dccs (se_net s') = dccs (se_net s)"
  by (auto simp: only_out_def)

text \<open>
  When libpurple destroys a file transfer, no transfer with the client keeps a pointer to it; the
  unfinished transfers of other files are untouched, and the finished ones are deleted.
\<close>

lemma destroyed_transfer_forgotten:
  assumes "host_ok (se_net s)"
  shows "\<exists>s'. ft_destroy e ft s = Inr s' \<and> (\<forall>d\<in>set (dccs (se_net s')). getFileTransfert d \<noteq> Some ft) \<and>
    length (dccs (se_net s')) = length (filter (\<lambda>d. \<not> isFinished d) (dccs (se_net s))) \<and>
    (\<forall>d\<in>set (dccs (se_net s)). \<not> isFinished d \<and> getFileTransfert d \<noteq> Some ft \<longrightarrow> d \<in> set (dccs (se_net s')))"
proof -
  let ?s1 = "s\<lparr>se_net := updateDCC ft True (fe_now e) (fe_content e ft) (se_net s)\<rparr>"
  have ok: "host_ok (se_net ?s1)" using assms by simp
  obtain s' where s': "ft_destroy e ft s = Inr s'" "only_out ?s1 s'"
    using may_log [OF ok] unfolding ft_destroy_def Let_def by blast
  have eq: "dccs (se_net s') = dccs (updateDCC ft True (fe_now e) (fe_content e ft) (se_net s))" using only_out_dccs [OF s'(2)] by simp
  have "getFileTransfert d \<noteq> Some ft" if "d \<in> set (dccs (se_net s'))" for d
    using that unfolding eq by (auto simp: destroyed_forgets split: dcc.splits if_splits) (auto simp: getFileTransfert_def)
  moreover have "d \<in> set (dccs (se_net s'))" if "d \<in> set (dccs (se_net s))" "\<not> isFinished d" "getFileTransfert d \<noteq> Some ft" for d
    using that unfolding eq updateDCC_frame(1) set_map set_filter by (intro image_eqI [of _ _ d]) (auto split: dcc.split)
  ultimately show ?thesis using s'(1) eq by (intro exI [of _ s']) simp
qed

lemma send_user:
  assumes "host_ok n" and "msg_live n m" and "sock_open n"
  shows "send w (user_id n) m n = Inr (n\<lparr>out := out n @ [line_of n m]\<rparr>)"
  using assms by (auto simp: send_def deliver_def host_ok_def User_send_def line_of_def)

text \<open>The offer is one line, in the name of the sender as it is now.\<close>

lemma offer_line:
  assumes "host_ok n" and "sock_open n" and "nicks n (user_id n) = Some u" and "dcc_receiver d = Some (user_id n)"
    and "sender_name n (dcc_sender d) = Inr from" and "from \<noteq> []" and "has_space text"
  shows "offer_file w d text n = Inr (n\<lparr>out := out n @ [CHR '':'' # from @ '' PRIVMSG '' @ nk_name u @ '' :'' @ text @ CRLF]\<rparr>)"
proof -
  let ?m = "setSenderName from \<lparr>msg_cmd = ''PRIVMSG'', msg_sender = setEntity None, msg_receiver = setEntity (Some (ENick (user_id n))), msg_args = [text]\<rparr>"
  have "msg_live n ?m" using assms(3) by (simp add: msg_live_def stored_live_def setSenderName_def setName_def setEntity_def ent_live_def)
  moreover have "line_of n ?m = CHR '':'' # from @ '' PRIVMSG '' @ nk_name u @ '' :'' @ text @ CRLF"
    using assms(3,6,7) by (simp add: line_of_def format_def isSet_def setSenderName_def setName_def setEntity_def stored_name_def format_arg_def ent_name_def)
  ultimately show ?thesis using send_user [OF assms(1) _ assms(2), of ?m w] assms(4,5) by (simp add: offer_file_def mk_msg_eq)
qed

lemma request_spaced: "has_space (dcc_request t f ip port sz)"
  by (simp add: dcc_request_def has_space_def)

lemma longname_given: "nick_longname nk \<noteq> []"
  by (simp add: nick_longname_def)


text \<open>
  C35: a transfer keeps the pointer to the contact that sends the file. When the connection is lost, the
  contacts are deleted without telling the transfers, as \<open>removeNick\<close> does; the transfer whose socket
  is ready then asks a deleted contact for its name.
\<close>

theorem offer_of_lost_contact_dangles:
  assumes "session_ok (se_net s)" and "acct_of a s = Inr ac" and "\<not> x_connected (ae_x ea) a"
    and "map_find (reg_servers (se_net s)) (getServername ac) = Some i" and "i \<noteq> irc_id (se_net s)"
    and "\<And>nk. nicks (se_net s) (user_id (se_net s)) = Some nk \<Longrightarrow> nk_server nk \<noteq> i"
    and "k < length (dccs (se_net s))" and "dccs (se_net s) ! k = Server d" and "dcc_sender d = Some n"
    and "nicks (se_net s) n = Some nk" and "nk_server nk = i"
    and "fe_aton e (if fe_own_ip e = '' '' then fe_my_ip e else fe_own_ip e) = Some addr"
  shows "\<exists>s'. disconnected ea a s = Inr s' \<and> listen_ready e k sock port watch s' = Inl Dangling"
proof -
  obtain s' where s': "disconnected ea a s = Inr s'" "dccs (se_net s') = dccs (se_net s)" "nicks (se_net s') n = None"
    using lost_connection_ok [OF assms(1-6)] assms(10,11) by auto
  then have "listen_ready e k sock port watch s' = Inl Dangling"
    using assms(7-9,12) by (simp add: listen_ready_def listen_cb_def on_net_def offer_file_def sender_name_def nick_of_def)
  with s'(1) show ?thesis by blast
qed

section \<open>Examples\<close>

definition replaced :: "string \<Rightarrow> string \<Rightarrow> string \<Rightarrow> string" where
  "replaced t p q =
     (case find (\<lambda>i. take (length p) (drop i t) = p) [0 ..< Suc (length t)] of
        None \<Rightarrow> t | Some i \<Rightarrow> take i t @ q @ drop (i + length p) t)"

lemma replaced_none: "\<nexists>a b. t = a @ p @ b \<Longrightarrow> replaced t p q = t"
proof -
  assume none: "\<nexists>a b. t = a @ p @ b"
  have "take (length p) (drop i t) \<noteq> p" for i
    using none append_take_drop_id [of i t] append_take_drop_id [of "length p" "drop i t"] by metis
  then have "find (\<lambda>i. take (length p) (drop i t) = p) [0 ..< Suc (length t)] = None" by (simp add: find_None_iff)
  then show ?thesis unfolding replaced_def by (simp only: option.case)
qed

definition sample_talk :: venv where
  "sample_talk = \<lparr>ve_x = sample_env, ve_type = (\<lambda>_. ConvIM), ve_utf8 = Some, ve_esc = sample_esc, ve_withhtml = sample_lines,
     ve_strip = unentity, ve_strreplace = replaced, ve_meify = (\<lambda>_. None), ve_do_command = (\<lambda>_ _ _. False),
     ve_typing_timeout = (\<lambda>_. 0), ve_typing = (\<lambda>_. NotTyping), ve_cb_find = (\<lambda>_ _. Some 5), ve_chat_users = (\<lambda>_. []),
     ve_find_im = (\<lambda>_ _. None), ve_find_buddy = (\<lambda>_ _. None), ve_contact_alias = (\<lambda>_. None), ve_now = 0,
     ve_localtime = (\<lambda>_. \<lparr>tm_year = 70, tm_mon = 0, tm_mday = 1, tm_hour = 0, tm_min = 0, tm_sec = 0\<rparr>),
     ve_SEND = 1, ve_RECV = 2, ve_SYSTEM = 4, ve_NOTIFY = 0x2000, ve_DELAYED = 0x400\<rparr>"


lemma sample_markup:
  "irc2markup sample_esc (Some (codes [Bold, Plain ''a<b'', Bold])) = Some ''<B>a&lt;b</B>''"
  by code_simp


text \<open>A file from the contact of \<open>sample_linked\<close>, whose socket does not listen yet, and one that is being sent.\<close>

definition sample_files :: fenv where
  "sample_files = \<lparr>fe_x = sample_env, fe_dcc = True, fe_own_ip = '' '', fe_my_ip = ''127.0.0.1'', fe_aton = (\<lambda>_. Some 2130706433),
     fe_filename = (\<lambda>_. ''a b.png''), fe_local = (\<lambda>_. ''/tmp/a b.png''), fe_size = (\<lambda>_. 4), fe_remote = (\<lambda>_. ''bob''),
     fe_buddy = (\<lambda>_. Some 9), fe_receiving = (\<lambda>_. True), fe_sending = (\<lambda>_. False), fe_completed = (\<lambda>_. True),
     fe_content = (\<lambda>_. None), fe_listens = True, fe_now = 0\<rparr>"

definition waiting :: dcc_server where
  "waiting = the (DCCSend ''a b.png'' 4 7 (Some 3) (Some 1) 0 True)"

definition sample_sending :: session where
  "sample_sending = sample_linked\<lparr>se_net := (se_net sample_linked)\<lparr>dccs := [Server waiting]\<rparr>\<rparr>"

lemma session_ok_dccs: "session_ok (n\<lparr>dccs := x\<rparr>) = session_ok n"
  by (simp add: session_ok_def all_ok_def net_ok_def cb_ok_def env_ok_def reg_ok_def)

lemma sample_sending_ok: "session_ok (se_net sample_sending)"
  using sample_linked_ok by (simp add: sample_sending_def session_ok_dccs)

lemma waiting_facts: "dcc_sender waiting = Some 3" "getFileTransfert (Server waiting) = Some 7"
  by (simp_all add: waiting_def DCCSend_def DCCServer_def getFileTransfert_def)

theorem destroyed_transfer_forgotten_witness:
  "getFileTransfert (Server waiting) = Some 7 \<and>
    (\<exists>s'. ft_destroy sample_files 7 sample_sending = Inr s' \<and> (\<forall>d\<in>set (dccs (se_net s')). getFileTransfert d \<noteq> Some 7))"
  using waiting_facts(2) destroyed_transfer_forgotten [OF session_host [OF sample_sending_ok], of sample_files 7] by blast

lemma sample_linked_nicks:
  "nicks (se_net sample_linked) (user_id (se_net sample_linked)) = Some sample_user" "sock_open (se_net sample_linked)"
  "getNick_buddy (se_net sample_linked) 9 = Inr (Some 3)" "nicks (se_net sample_linked) 3 = Some (sample_buddy\<lparr>nk_server := 2\<rparr>)"
  by (simp_all add: sample_linked_def sample_net_def IRC_members_def getNick_buddy_def nick_of_def sample_user_def sample_buddy_def)


theorem offer_of_lost_contact_dangles_witness:
  "\<exists>s'. disconnected sample_purple 1 sample_sending = Inr s' \<and> listen_ready sample_files 0 5 4000 1 s' = Inl Dangling"
proof -
  have acct: "acct_of 1 sample_sending = Inr sample_acct" using sample_linked_facts(1) by (simp add: sample_sending_def acct_of_def)
  have net: "reg_servers (se_net sample_sending) = reg_servers (se_net sample_linked)" "irc_id (se_net sample_sending) = irc_id (se_net sample_linked)"
      "user_id (se_net sample_sending) = user_id (se_net sample_linked)" "nicks (se_net sample_sending) = nicks (se_net sample_linked)"
      "0 < length (dccs (se_net sample_sending))" "dccs (se_net sample_sending) ! 0 = Server waiting"
    by (simp_all add: sample_sending_def)
  have addr: "fe_aton sample_files (if fe_own_ip sample_files = '' '' then fe_my_ip sample_files else fe_own_ip sample_files) = Some 2130706433"
    by (simp add: sample_files_def)
  show ?thesis
    by (rule offer_of_lost_contact_dangles [OF sample_sending_ok acct sample_linked_facts(2) _ _ _ net(5,6) waiting_facts(1) _ _ addr])
      (simp_all only: net, use sample_linked_facts(4-6) sample_linked_nicks(4) in simp_all)
qed

end
