(* ===== verification/Sockets.thy ===== *)
theory Sockets
  imports Log_Flags
begin

text \<open>
  The connection to the client: \<open>SockWrapper\<close> with its classes \<open>SockWrapperPlain\<close> and
  \<open>SockWrapperTLS\<close> (\<open>src/src/sockwrap/\<close>). What the system calls and GNUTLS return is an argument:
  a result for a call, a list of results for a loop. A loop that has used up its results waits
  (\<open>None\<close>). Code that throws a \<open>SockError\<close> gives its reason, \<open>Inl\<close>. The lines for the log are
  collected in the object; those written before a constructor throws are lost with it.
\<close>

section \<open>The objects\<close>

text \<open>\<open>sk_tls\<close> are the members of \<open>SockWrapperTLS\<close>, \<open>None\<close> for a plain connection.\<close>

record tls =
  tls_handshake :: bool
  tls_ok :: bool
  trust_check :: bool

record sockw =
  sk_recv :: int
  sk_send :: int
  sk_ok :: bool
  sk_callbacks :: "int list"
  sk_written :: string
  sk_log :: "(32 word \<times> string) list"
  sk_tls :: "tls option"

definition sk_note :: "32 word \<Rightarrow> string \<Rightarrow> sockw \<Rightarrow> sockw" where
  "sk_note flag line k = k\<lparr>sk_log := sk_log k @ [(flag, line)]\<rparr>"

definition SockWrapper :: "int \<Rightarrow> int \<Rightarrow> string + sockw" where
  "SockWrapper recv_fd send_fd =
     (if recv_fd < 0 then Inl ''Wrong input file descriptor''
      else if send_fd < 0 then Inl ''Wrong output file descriptor''
      else Inr \<lparr>sk_recv = recv_fd, sk_send = send_fd, sk_ok = True, sk_callbacks = [], sk_written = [], sk_log = [], sk_tls = None\<rparr>)"

definition AttachCallback :: "int \<Rightarrow> sockw \<Rightarrow> int \<times> sockw" where
  "AttachCallback input_id k = (input_id, if 0 < input_id then k\<lparr>sk_callbacks := sk_callbacks k @ [input_id]\<rparr> else k)"

text \<open>\<open>SockWrapper::EndSessionCleanup\<close> gives the sources it removes.\<close>

definition EndSessionCleanup :: "sockw \<Rightarrow> int list \<times> sockw" where
  "EndSessionCleanup k = (sk_callbacks k, sk_note W_SOCK ''Removing callbacks'' k)"

text \<open>
  The destructor: the call of the virtual \<open>EndSessionCleanup\<close> in it is the one of \<open>SockWrapper\<close> for
  every connection. The results are the sources removed and the descriptors closed.
\<close>

definition close_sock :: "sockw \<Rightarrow> int list \<times> int list \<times> sockw" where
  "close_sock k =
     (let (ids, k1) = EndSessionCleanup k
      in (ids, if sk_send k \<noteq> sk_recv k then [sk_recv k, sk_send k] else [sk_recv k],
          sk_note W_SOCK ''Closing sockets'' (k1\<lparr>sk_ok := False\<rparr>)))"

text \<open>\<open>name\<close> is what \<open>getpeername\<close> or \<open>getsockname\<close> and \<open>getnameinfo\<close> find.\<close>

definition GetClientHostname :: "string option \<Rightarrow> sockw \<Rightarrow> string \<times> sockw" where
  "GetClientHostname name k =
     ((case name of None \<Rightarrow> ''localhost.localdomain'' | Some h \<Rightarrow> h), sk_note W_SOCK ''Fetching client hostname'' k)"

definition GetServerHostname :: "string option \<Rightarrow> sockw \<Rightarrow> string \<times> sockw" where
  "GetServerHostname name k =
     ((case name of None \<Rightarrow> ''localhost.localdomain'' | Some h \<Rightarrow> h), sk_note W_SOCK ''Fetching server hostname'' k)"

section \<open>Plain connections\<close>

text \<open>What \<open>read\<close> and \<open>write\<close> return; an error has the flag of \<open>sockerr_again\<close> and its text.\<close>

datatype io_read = IoData string | IoEnd | IoError bool string

datatype io_write = IoWrote nat | IoWriteError bool string

definition c_text :: "string \<Rightarrow> string" where
  "c_text buf = takeWhile (\<lambda>c. c \<noteq> CHR 0x00) buf"

definition SockWrapperPlain :: "int \<Rightarrow> int \<Rightarrow> string + sockw" where
  "SockWrapperPlain recv_fd send_fd =
     bindE (SockWrapper recv_fd send_fd) (\<lambda>k. Inr (sk_note W_SOCK ''Plain connection initialized'' k))"

definition Plain_Read :: "io_read \<Rightarrow> sockw \<Rightarrow> string + string" where
  "Plain_Read r k =
     (if \<not> sk_ok k then Inr []
      else case r of
             IoEnd \<Rightarrow> Inl ''Connection reset by peer...''
           | IoError again text \<Rightarrow> if \<not> again then Inl (''Read error: '' @ text) else Inr []
           | IoData buf \<Rightarrow> Inr (c_text buf))"

definition Plain_Write :: "io_write \<Rightarrow> string \<Rightarrow> sockw \<Rightarrow> (string + unit) \<times> sockw" where
  "Plain_Write r s k =
     (if \<not> sk_ok k then (Inr (), k)
      else case r of
             IoWrote n \<Rightarrow>
               if n = 0 then (Inl ''Connection reset by peer...'', k\<lparr>sk_ok := False\<rparr>)
               else (Inr (), k\<lparr>sk_written := sk_written k @ take n s\<rparr>)
           | IoWriteError again text \<Rightarrow>
               if \<not> again then (Inl (''Read error: '' @ text), k\<lparr>sk_ok := False\<rparr>) else (Inr (), k))"

section \<open>TLS connections\<close>

text \<open>
  \<open>gnutls\<close> are the constants and functions of GNUTLS and what its calls during the construction
  return, with the items of the section \<open>tls\<close>. \<open>GNUTLS_E_SUCCESS\<close> is 0.
\<close>

record gnutls =
  gn_again :: "int \<Rightarrow> bool"
  gn_fatal :: "int \<Rightarrow> bool"
  gn_strerror :: "int \<Rightarrow> string"
  gn_REHANDSHAKE :: int
  gn_INVALID_REQUEST :: int
  gn_section :: bool
  gn_trust_file :: string
  gn_crl_file :: string
  gn_global_init :: int
  gn_allocate :: int
  gn_set_trust :: int
  gn_set_crl :: int
  gn_set_key :: int
  gn_dh_init :: int
  gn_dh_generate :: int
  gn_init :: int
  gn_priority :: int
  gn_credentials :: int

definition TLSError :: "string \<Rightarrow> string" where
  "TLSError reason = ''[TLS] '' @ reason"

definition CheckTLSError :: "gnutls \<Rightarrow> int \<Rightarrow> string + unit" where
  "CheckTLSError g err = (if err \<noteq> 0 then Inl (TLSError (gn_strerror g err)) else Inr ())"

text \<open>\<open>ProcessTLSHandshake\<close>: the loop ends with success or with a fatal error.\<close>

fun handshake_loop :: "gnutls \<Rightarrow> int list \<Rightarrow> (string + unit) option" where
  "handshake_loop g [] = None"
| "handshake_loop g (r # rs) =
     (if gn_fatal g r then Some (Inl (TLSError ''TLS initialization failed''))
      else if r = 0 then Some (Inr ())
      else handshake_loop g rs)"

definition upd_tls :: "(tls \<Rightarrow> tls) \<Rightarrow> sockw \<Rightarrow> sockw" where
  "upd_tls f k = k\<lparr>sk_tls := map_option f (sk_tls k)\<rparr>"

definition ProcessTLSHandshake :: "gnutls \<Rightarrow> int list \<Rightarrow> sockw \<Rightarrow> ((string + unit) \<times> sockw) option" where
  "ProcessTLSHandshake g rs k =
     (let k1 = upd_tls (\<lambda>t. t\<lparr>tls_handshake := False\<rparr>) (sk_note W_SOCK ''Starting GNUTLS handshake'' k)
      in map_option (\<lambda>r. case r of
             Inl e \<Rightarrow> (Inl e, k1)
           | Inr _ \<Rightarrow> (Inr (), upd_tls (\<lambda>t. t\<lparr>tls_handshake := True\<rparr>) k1)) (handshake_loop g rs))"

text \<open>The certificates: whether clients are checked, and a warning about the revocation list.\<close>

definition trust_setup :: "gnutls \<Rightarrow> sockw \<Rightarrow> string + sockw" where
  "trust_setup g k =
     bindE (if gn_trust_file g = '' '' then Inr False
            else if gn_set_trust g = 0 then Inl (TLSError ''trust file is empty or does not contain any valid CA certificate'')
            else bindE (if gn_set_trust g < 0 then CheckTLSError g (gn_set_trust g) else Inr ()) (\<lambda>_. Inr True)) (\<lambda>trust.
     bindE (if trust \<and> gn_crl_file g \<noteq> '' ''
            then if gn_set_crl g = 0 then Inr (sk_note W_WARNING ''trust file is empty or does not contain any valid CA certificate'' k)
                 else bindE (if gn_set_crl g < 0 then CheckTLSError g (gn_set_crl g) else Inr ()) (\<lambda>_. Inr k)
            else Inr k) (\<lambda>k1.
       Inr (upd_tls (\<lambda>t. t\<lparr>trust_check := trust\<rparr>) k1)))"

definition tls_setup :: "gnutls \<Rightarrow> sockw \<Rightarrow> string + sockw" where
  "tls_setup g k =
     (if \<not> gn_section g then Inl (TLSError ''Missing section <inetd|daemon>/tls'')
      else
        bindE (CheckTLSError g (gn_global_init g)) (\<lambda>_.
        bindE (CheckTLSError g (gn_allocate g)) (\<lambda>_.
        bindE (trust_setup g (sk_note W_SOCK ''Setting up GNUTLS certificates'' (sk_note W_SOCK ''Setting up GNUTLS logging''
                 (sk_note W_SOCK ''Initializing GNUTLS'' k)))) (\<lambda>k1.
        bindE (CheckTLSError g (gn_set_key g)) (\<lambda>_.
        bindE (CheckTLSError g (gn_dh_init g)) (\<lambda>_.
        bindE (CheckTLSError g (gn_dh_generate g)) (\<lambda>_.
        bindE (CheckTLSError g (gn_init g)) (\<lambda>_.
        bindE (if gn_priority g = gn_INVALID_REQUEST g then Inl (TLSError ''syntax error in tls_priority parameter'')
               else CheckTLSError g (gn_priority g)) (\<lambda>_.
        bindE (CheckTLSError g (gn_credentials g)) (\<lambda>_.
          Inr (sk_note W_SOCK ''Setting up GNUTLS session'' (sk_note W_SOCK ''Setting up GNUTLS DH params'' k1))))))))))))"

definition SockWrapperTLS :: "gnutls \<Rightarrow> int list \<Rightarrow> int \<Rightarrow> int \<Rightarrow> (string + sockw) option" where
  "SockWrapperTLS g hs recv_fd send_fd =
     (case bindE (SockWrapper recv_fd send_fd)
             (\<lambda>k. tls_setup g (k\<lparr>sk_tls := Some \<lparr>tls_handshake = False, tls_ok = False, trust_check = False\<rparr>\<rparr>)) of
        Inl e \<Rightarrow> Some (Inl e)
      | Inr k \<Rightarrow> map_option (\<lambda>(r, k1). case r of
            Inl e \<Rightarrow> Inl e
          | Inr _ \<Rightarrow> Inr (upd_tls (\<lambda>t. t\<lparr>tls_ok := True\<rparr>) (sk_note W_SOCK ''SSL connection initialized'' k1)))
          (ProcessTLSHandshake g hs k))"

definition tls_ready :: "sockw \<Rightarrow> bool" where
  "tls_ready k \<longleftrightarrow> sk_ok k \<and> (case sk_tls k of None \<Rightarrow> False | Some t \<Rightarrow> tls_ok t \<and> tls_handshake t)"

text \<open>
  The loops of \<open>Read\<close> and \<open>Write\<close>: \<open>Inr\<close> is received data, a number is what \<open>gnutls_record_recv\<close>
  or \<open>gnutls_record_send\<close> returned. Every result that is not positive clears \<open>sock_ok\<close>.
\<close>

fun recv_loop :: "gnutls \<Rightarrow> int list \<Rightarrow> (int + string) list \<Rightarrow> sockw \<Rightarrow> ((string + string) \<times> sockw) option" where
  "recv_loop g hs [] k = None"
| "recv_loop g hs (Inr buf # rs) k = Some (Inr (c_text buf), k)"
| "recv_loop g hs (Inl r # rs) k =
     (let k1 = k\<lparr>sk_ok := False\<rparr>
      in if r = 0 then Some (Inl ''Connection reset by peer...'', upd_tls (\<lambda>t. t\<lparr>tls_ok := False\<rparr>) k1)
         else if gn_fatal g r then Some (Inl (TLSError (gn_strerror g r)), k1)
         else if r = gn_REHANDSHAKE g
         then map_option (\<lambda>(x, k2). (case x of Inl e \<Rightarrow> Inl e | Inr _ \<Rightarrow> Inr [], k2)) (ProcessTLSHandshake g hs k1)
         else if gn_again g r then recv_loop g hs rs k1
         else Some (Inr [], k1))"

definition TLS_Read :: "gnutls \<Rightarrow> int list \<Rightarrow> (int + string) list \<Rightarrow> sockw \<Rightarrow> ((string + string) \<times> sockw) option" where
  "TLS_Read g hs rs k = (if \<not> tls_ready k then Some (Inr [], k) else recv_loop g hs rs k)"

fun send_loop :: "gnutls \<Rightarrow> int list \<Rightarrow> string \<Rightarrow> sockw \<Rightarrow> ((string + unit) \<times> sockw) option" where
  "send_loop g [] s k = None"
| "send_loop g (r # rs) s k =
     (if 0 < r then Some (Inr (), k\<lparr>sk_written := sk_written k @ take (nat r) s\<rparr>)
      else
        let k1 = k\<lparr>sk_ok := False\<rparr>
        in if r = 0 then Some (Inl ''Connection reset by peer...'', upd_tls (\<lambda>t. t\<lparr>tls_ok := False\<rparr>) k1)
           else if gn_fatal g r then Some (Inl (TLSError (gn_strerror g r)), k1)
           else if gn_again g r then send_loop g rs s k1
           else Some (Inr (), k1))"

definition TLS_Write :: "gnutls \<Rightarrow> int list \<Rightarrow> string \<Rightarrow> sockw \<Rightarrow> ((string + unit) \<times> sockw) option" where
  "TLS_Write g rs s k = (if \<not> tls_ready k then Some (Inr (), k) else send_loop g rs s k)"

section \<open>The name in the certificate\<close>

text \<open>\<open>dn.find(p)\<close>: the first place where \<open>p\<close> starts.\<close>

definition find_text :: "string \<Rightarrow> string \<Rightarrow> nat option" where
  "find_text p s = find (\<lambda>i. take (length p) (drop i s) = p) [0 ..< Suc (length s)]"

definition common_name :: "string \<Rightarrow> string" where
  "common_name dn =
     (case find_text ''CN='' dn of
        None \<Rightarrow> []
      | Some pos1 \<Rightarrow> (case find_first_of dn '','' pos1 of
            None \<Rightarrow> []
          | Some pos2 \<Rightarrow> substr dn (pos1 + 3) (pos2 - pos1 - 3)))"

record peer_cert =
  pc_x509 :: bool
  pc_count :: nat
  pc_verify :: int
  pc_status :: nat
  pc_init :: int
  pc_import :: int
  pc_get_dn :: int
  pc_dn :: string

definition TLS_GetClientUsername :: "gnutls \<Rightarrow> peer_cert \<Rightarrow> sockw \<Rightarrow> (string + string) \<times> sockw" where
  "TLS_GetClientUsername g p k =
     (if \<not> (case sk_tls k of None \<Rightarrow> False | Some t \<Rightarrow> trust_check t \<and> tls_ok t) then (Inr [], k)
      else
        let k1 = sk_note W_INFO ''Looking for Client Username'' k
        in if \<not> pc_x509 p then (Inr [], sk_note W_INFO ''TLS Client Certificate is not of X.509 type'' k1)
           else if pc_count p = 0 then (Inr [], sk_note W_INFO ''No TLS Client Certificate provided'' k1)
           else case CheckTLSError g (pc_verify p) of Inl e \<Rightarrow> (Inl e, k1) | Inr _ \<Rightarrow>
             if pc_status p \<noteq> 0 then (Inr [], sk_note W_INFO ''TLS Client Certificate not valid'' k1)
             else case bindE (CheckTLSError g (pc_init p)) (\<lambda>_. CheckTLSError g (if pc_import p = 0 then pc_get_dn p else pc_import p)) of
                    Inl e \<Rightarrow> (Inl e, k1)
                  | Inr _ \<Rightarrow>
                      let username = common_name (pc_dn p)
                      in (Inr username,
                          sk_note W_INFO (if username = [] then ''Client Username not found'' else ''Client Username: '' @ username) k1))"

definition GetClientUsername :: "gnutls \<Rightarrow> peer_cert \<Rightarrow> sockw \<Rightarrow> (string + string) \<times> sockw" where
  "GetClientUsername g p k =
     (if sk_tls k = None then (Inr [], sk_note W_INFO ''Client Username not found'' k) else TLS_GetClientUsername g p k)"

section \<open>The kind of a connection\<close>

text \<open>\<open>SockWrapper::Builder\<close>; \<open>have_tls\<close> is whether the program was built with GNUTLS.\<close>

definition Builder :: "bool \<Rightarrow> gnutls \<Rightarrow> int list \<Rightarrow> string \<Rightarrow> int \<Rightarrow> int \<Rightarrow> (string + sockw) option" where
  "Builder have_tls g hs sec_mode recv_fd send_fd =
     (if sec_mode = ''none'' then Some (SockWrapperPlain recv_fd send_fd)
      else if have_tls \<and> sec_mode = ''tls'' then SockWrapperTLS g hs recv_fd send_fd
      else if have_tls \<and> (sec_mode = ''starttls'' \<or> sec_mode = ''starttls-mandatory'')
      then Some (Inl ''Security mode not yet implemented'')
      else Some (Inl ''unknown security mode''))"

end
