(* ===== verification/Auth_Pam.thy ===== *)
theory Auth_Pam
  imports Session Sockets
begin

text \<open>
  Authentication with PAM (\<open>src/src/im/auth_pam.cpp\<close>), of a program built with it: the conversation
  function, and the mechanism with the handle it keeps. \<open>pam_env\<close> is what PAM and the system calls
  return; \<open>PAM_SUCCESS\<close> is 0. An \<open>IMError\<close> is the left of the inner result, with the state it leaves.
\<close>

section \<open>The conversation\<close>

datatype pam_style = EchoOff | EchoOn | ErrorMsg | TextInfo | OtherStyle int

text \<open>\<open>pa_open\<close> is whether \<open>pamh\<close> is not \<open>NULL\<close>; the passwords are those of \<open>pam_conv_func_data\<close>.\<close>

record pam =
  pa_username :: string
  pa_open :: bool
  pa_update :: bool
  pa_password :: string
  pa_new_password :: string
  pa_log :: "(32 word \<times> string) list"

definition pam_note :: "32 word \<Rightarrow> string \<Rightarrow> pam \<Rightarrow> pam" where
  "pam_note flag line p = p\<lparr>pa_log := pa_log p @ [(flag, line)]\<rparr>"

definition reply_msg :: "pam \<Rightarrow> string \<Rightarrow> string" where
  "reply_msg p msg = (if pa_update p \<and> find_text '' new '' msg \<noteq> None then pa_new_password p else pa_password p)"

fun pam_conv_loop :: "nat \<Rightarrow> nat \<Rightarrow> (pam_style \<times> string) list \<Rightarrow> string option list \<Rightarrow> pam \<Rightarrow> string option list option \<times> pam" where
  "pam_conv_loop max_size count [] replies p = (Some replies, p)"
| "pam_conv_loop max_size count ((style, msg) # msgs) replies p =
     (let prompt = ''PAM: msg '' @ t2s count @ '': ''
      in case style of
           ErrorMsg \<Rightarrow> pam_conv_loop max_size (count + 1) msgs (replies @ [None]) (pam_note W_ERR (''PAM: '' @ msg) p)
         | TextInfo \<Rightarrow> pam_conv_loop max_size (count + 1) msgs (replies @ [None]) (pam_note W_DEBUG (''PAM: '' @ msg) p)
         | OtherStyle i \<Rightarrow> (None, pam_note W_ERR (''PAM: erroneous conversation ('' @ t2s_int i @ '')'') p)
         | _ \<Rightarrow> pam_conv_loop max_size (count + 1) msgs (replies @ [Some (take max_size (reply_msg p msg))])
                 (pam_note W_DEBUG (prompt @ reply_msg p msg) (pam_note W_DEBUG (prompt @ msg) p)))"

definition pam_conv_func :: "bool \<Rightarrow> nat \<Rightarrow> (pam_style \<times> string) list \<Rightarrow> pam \<Rightarrow> string option list option \<times> pam" where
  "pam_conv_func allocated max_size msgs p =
     (if \<not> allocated then (None, pam_note W_ERR ''PAM: Could not allocate enough memory'' p)
      else pam_conv_loop max_size 0 msgs [] p)"

section \<open>The mechanism\<close>

record pam_env =
  pe_start :: int
  pe_handle :: bool
  pe_use_setuid :: bool
  pe_known_user :: bool
  pe_setuid_ok :: bool
  pe_authenticate :: int
  pe_acct_mgmt :: int
  pe_chauthtok :: int
  pe_end :: "int \<Rightarrow> int"
  pe_strerror :: "int \<Rightarrow> string"
  pe_new_im :: "string + unit"

definition AuthPAM :: "string \<Rightarrow> pam" where
  "AuthPAM username = \<lparr>pa_username = username, pa_open = False, pa_update = False, pa_password = [], pa_new_password = [], pa_log = []\<rparr>"

definition pam_exists :: "pam \<Rightarrow> bool" where
  "pam_exists p = True"

definition pam_close :: "pam_env \<Rightarrow> int \<Rightarrow> pam \<Rightarrow> (string + unit) \<times> pam" where
  "pam_close e retval p =
     (if \<not> pa_open p then (Inr (), p)
      else if pe_end e retval \<noteq> 0
      then (Inl (''PAM: Could not release authenticator: '' @ pe_strerror e (pe_end e retval)), p)
      else (Inr (), p\<lparr>pa_open := False\<rparr>))"

text \<open>\<open>close(retval); return false;\<close>\<close>

definition refuse :: "pam_env \<Rightarrow> int \<Rightarrow> pam \<Rightarrow> (string + bool) \<times> pam" where
  "refuse e retval p = (case pam_close e retval p of (Inl m, p1) \<Rightarrow> (Inl m, p1) | (Inr _, p1) \<Rightarrow> (Inr False, p1))"

definition checkPassword :: "pam_env \<Rightarrow> string \<Rightarrow> pam \<Rightarrow> exn + (string + bool) \<times> pam" where
  "checkPassword e password p =
     (case (if pa_open p then pam_close e 0 p else (Inr (), p)) of
        (Inl m, p1) \<Rightarrow> Inr (Inl m, p1)
      | (Inr _, p1) \<Rightarrow>
          let p2 = p1\<lparr>pa_update := False, pa_password := password, pa_open := pe_handle e\<rparr>
          in if pe_start e = 0 \<and> pe_use_setuid e \<and> \<not> pe_known_user e then Inl NullPointer
             else if pe_start e = 0 \<and> pe_use_setuid e \<and> \<not> pe_setuid_ok e
             then Inr (refuse e 0 (pam_note W_ERR ''Minbif needs to be launched in root for setuid_pam: '' p2))
             else let r1 = (if pe_start e = 0 then pe_authenticate e else pe_start e);
                      r2 = (if r1 = 0 then pe_acct_mgmt e else r1)
                  in if r2 \<noteq> 0 then Inr (refuse e r2 p2) else Inr (Inr True, p2))"

definition pam_authenticate :: "pam_env \<Rightarrow> string \<Rightarrow> pam \<Rightarrow> exn + (string + bool) \<times> pam" where
  "pam_authenticate e password p =
     bindE (checkPassword e password (pam_note W_DEBUG (''Authenticating user '' @ pa_username p @ '' using PAM mechanism'') p)) (\<lambda>(r, p1).
       case r of
         Inr True \<Rightarrow> Inr (case pe_new_im e of Inl m \<Rightarrow> (Inl m, p1) | Inr _ \<Rightarrow> (Inr True, p1))
       | _ \<Rightarrow> Inr (r, p1))"

definition pam_setPassword :: "pam_env \<Rightarrow> string \<Rightarrow> pam \<Rightarrow> (string + bool) \<times> pam" where
  "pam_setPassword e password p =
     (if \<not> pa_open p then (Inl ''Cannot change password if not authenticated'', p)
      else
        let p1 = p\<lparr>pa_update := True, pa_new_password := password\<rparr>
        in (Inr (pe_chauthtok e = 0),
            if pe_chauthtok e \<noteq> 0 then pam_note W_ERR (''PAM: Password change failed: '' @ pe_strerror e (pe_chauthtok e)) p1 else p1))"

definition pam_getPassword :: "pam \<Rightarrow> string \<times> pam" where
  "pam_getPassword p = ([], pam_note W_WARNING ''Cannot fetch current password, it is hidden'' p)"

text \<open>
  \<open>AuthPAM::create\<close>, and \<open>Auth::create\<close> as it runs for this mechanism, with its \<open>exists\<close> and
  \<open>setPassword\<close>.
\<close>

definition pam_Auth_create :: "pam_env \<Rightarrow> string \<Rightarrow> pam \<Rightarrow> (create_error + unit) \<times> pam" where
  "pam_Auth_create e password p =
     (if pam_exists p then (Inl (UnableToCreate ''Already exists.''), p)
      else
        let p1 = pam_note W_DEBUG (''Creating user '' @ pa_username p) p
        in case pe_new_im e of
             Inl m \<Rightarrow> (Inl (IMError m), p1)
           | Inr _ \<Rightarrow> (case pam_setPassword e password p1 of (Inl m, p2) \<Rightarrow> (Inl (IMError m), p2) | (Inr _, p2) \<Rightarrow> (Inr (), p2)))"

definition pam_create :: "pam_env \<Rightarrow> string \<Rightarrow> pam \<Rightarrow> exn + (create_error + unit) \<times> pam" where
  "pam_create e password p =
     bindE (checkPassword e password p) (\<lambda>(r, p1). Inr (case r of
         Inl m \<Rightarrow> (Inl (IMError m), p1)
       | Inr ok \<Rightarrow> if \<not> ok then (Inl (IMError ''PAM: Incorrect login/password''), p1) else pam_Auth_create e password p1))"

end
