(* ===== verification/Socket_Props.thy ===== *)
theory Socket_Props
  imports Auth_Pam Dispatch_Props
begin

text \<open>
  The connection of the client and who is let in through it: what a retried write leaves of a TLS
  connection, which name a certificate gives, whom PAM admits, and where the reads of a stream may be
  cut.
\<close>

section \<open>TLS connections\<close>

lemma not_ready [simp]:
  "\<not> sk_ok k \<Longrightarrow> TLS_Write g rs s k = Some (Inr (), k)" "\<not> sk_ok k \<Longrightarrow> TLS_Read g hs xs k = Some (Inr [], k)"
  by (simp_all add: TLS_Write_def TLS_Read_def tls_ready_def)

text \<open>
  C38: a write that GNUTLS asks to repeat is repeated until the text is written, but the connection is
  mute from then on: every later write does nothing and every read gives nothing, without an error.
\<close>

theorem retried_write_mutes:
  assumes "tls_ready k" and "\<forall>r\<in>set retries. r < 0 \<and> gn_again g r \<and> \<not> gn_fatal g r" and "retries \<noteq> []" and "s \<noteq> []"
  shows "\<exists>k1. TLS_Write g (retries @ [int (length s)]) s k = Some (Inr (), k1) \<and> sk_written k1 = sk_written k @ s \<and>
    (\<forall>g2 rs t. TLS_Write g2 rs t k1 = Some (Inr (), k1)) \<and> (\<forall>g2 hs xs. TLS_Read g2 hs xs k1 = Some (Inr [], k1))"
proof -
  have "send_loop g (rs @ [int (length s)]) s k2 = Some (Inr (), k2\<lparr>sk_ok := sk_ok k2 \<and> rs = [], sk_written := sk_written k2 @ s\<rparr>)"
    if "\<forall>r\<in>set rs. r < 0 \<and> gn_again g r \<and> \<not> gn_fatal g r" for rs k2
    using that
  proof (induction rs arbitrary: k2)
    case Nil
    then show ?case using assms(4) by simp
  next
    case (Cons r rs)
    then show ?case by (simp add: Let_def)
  qed
  from this [OF assms(2), of k] have "TLS_Write g (retries @ [int (length s)]) s k = Some (Inr (), k\<lparr>sk_ok := False, sk_written := sk_written k @ s\<rparr>)"
    using assms(1,3) by (simp add: TLS_Write_def)
  then show ?thesis by (intro exI [of _ "k\<lparr>sk_ok := False, sk_written := sk_written k @ s\<rparr>"]) simp
qed

text \<open>The text before the first \<open>CN=\<close> and the first comma after it decide the name.\<close>

lemma find_text_at:
  assumes "\<And>i. i < length a \<Longrightarrow> take (length p) (drop i (a @ p @ b)) \<noteq> p"
  shows "find_text p (a @ p @ b) = Some (length a)"
proof -
  have "find P [0 ..< n] = Some m" if "m < n" "P m" "\<And>i. i < m \<Longrightarrow> \<not> P i" for P and n m :: nat
    using that by (simp add: find_Some_iff) (metis add_0 less_trans nth_upt minus_nat.diff_0)
  from this [of "length a" "Suc (length (a @ p @ b))" "\<lambda>i. take (length p) (drop i (a @ p @ b)) = p"]
  show ?thesis using assms by (simp add: find_text_def)
qed

lemma common_name_first:
  assumes "\<And>i. i < length a \<Longrightarrow> take 3 (drop i (a @ ''CN='' @ nm @ CHR '','' # rest)) \<noteq> ''CN=''" and "CHR '','' \<notin> set nm"
  shows "common_name (a @ ''CN='' @ nm @ CHR '','' # rest) = nm"
proof -
  let ?dn = "a @ ''CN='' @ nm @ CHR '','' # rest"
  have three: "length ''CN='' = 3" by simp
  have "find_text ''CN='' ?dn = Some (length a)"
  proof (rule find_text_at)
    fix i
    assume "i < length a"
    then show "take (length ''CN='') (drop i ?dn) \<noteq> ''CN=''" unfolding three by (rule assms(1))
  qed
  moreover have "find_first_of ?dn '','' (length a) = Some (length a + 3 + length nm)"
    using assms(2) by (simp add: find_first_of_takeWhile takeWhile_append)
  ultimately show ?thesis by (simp add: common_name_def substr_def)
qed

lemma subject_examples:
  "common_name ''CN=alice,O=x'' = ''alice''" "common_name ''O=x,CN=alice'' = []" "common_name ''O=CN=root,CN=bob,C=fr'' = ''root''"
  by code_simp+

section \<open>PAM\<close>

lemma refused: "refuse e r q = (Inr b, p1) \<Longrightarrow> \<not> b \<and> \<not> pa_open p1 \<and> pa_password p1 = pa_password q"
  by (auto simp: refuse_def pam_close_def split: if_splits)

text \<open>
  C39: with PAM a password is accepted exactly if PAM could be started, the user could be become where
  that is configured, the password is authenticated and the account is permitted; the handle stays
  open exactly then, so that nothing is left to release of a refused login.
\<close>

theorem pam_admits_only_checked:
  assumes "checkPassword e password p = Inr (Inr b, p1)" and "pe_handle e = (pe_start e = 0)"
  shows "(b \<longleftrightarrow> pe_start e = 0 \<and> (pe_use_setuid e \<longrightarrow> pe_known_user e \<and> pe_setuid_ok e) \<and> pe_authenticate e = 0 \<and> pe_acct_mgmt e = 0) \<and> pa_open p1 = b \<and> pa_password p1 = password"
proof -
  obtain c p0 where c: "(if pa_open p then pam_close e 0 p else (Inr (), p)) = (c, p0)" by fastforce
  define q where "q = p0\<lparr>pa_update := False, pa_password := password, pa_open := pe_handle e\<rparr>"
  have q: "pa_open q = pe_handle e" "pa_password q = password" by (simp_all add: q_def)
  have note_pw: "pa_password (pam_note f t q) = password" for f t by (simp add: pam_note_def q_def)
  have "c = Inr ()" using assms(1) c by (cases c) (simp_all add: checkPassword_def)
  with assms(1) c have "(if pe_start e = 0 \<and> pe_use_setuid e \<and> \<not> pe_known_user e then Inl NullPointer
      else if pe_start e = 0 \<and> pe_use_setuid e \<and> \<not> pe_setuid_ok e
      then Inr (refuse e 0 (pam_note W_ERR ''Minbif needs to be launched in root for setuid_pam: '' q))
      else let r1 = (if pe_start e = 0 then pe_authenticate e else pe_start e); r2 = (if r1 = 0 then pe_acct_mgmt e else r1)
           in if r2 \<noteq> 0 then Inr (refuse e r2 q) else Inr (Inr True, q)) = Inr (Inr b, p1)"
    by (simp only: checkPassword_def Let_def q_def prod.case sum.case)
  then show ?thesis using assms(2) q note_pw refused [of e _ _ b p1]
    by (auto simp: Let_def split: if_splits)
qed

text \<open>\<open>create\<close> never makes an account: a right password ends in \<open>Already exists.\<close>, any other in an \<open>IMError\<close>.\<close>

lemma pam_create_fails: "pam_create e password p = Inr (r, p1) \<Longrightarrow> \<exists>c. r = Inl c"
  unfolding pam_create_def pam_Auth_create_def pam_exists_def bindE_Inr_iff
  by (elim exE conjE) (case_tac x; case_tac a; auto split: if_splits)

text \<open>The conversation writes the password it replies with to the log.\<close>

lemma password_logged:
  "pam_conv_func True m [(EchoOff, ''Password: '')] p =
     (Some [Some (take m (reply_msg p ''Password: ''))],
      p\<lparr>pa_log := pa_log p @ [(W_DEBUG, ''PAM: msg 0: Password: ''), (W_DEBUG, ''PAM: msg 0: '' @ reply_msg p ''Password: '')]\<rparr>)"
proof -
  have "t2s 0 = ''0''" by code_simp
  then show ?thesis by (simp add: pam_conv_func_def pam_note_def reply_msg_def)
qed

section \<open>Cutting the stream\<close>

text \<open>
  C37: two reads run the lines of the first piece and then those of the second. Where the stream is cut
  at the end of a line this is the same as reading it at once.
\<close>

theorem reads_cut_at_lines:
  assumes "readIO x (Inr p) s = Inr (b, s1)" and "sock_open (se_net s1)"
  shows "readIO x (Inr q) s1 = bindE (foldE (read_line x) (tokens p [CHR 0x0D, CHR 0x0A] @ tokens q [CHR 0x0D, CHR 0x0A]) s) (\<lambda>s2. Inr (True, s2)) \<and>
    (p \<noteq> [] \<and> last p \<in> {CHR 0x0D, CHR 0x0A} \<longrightarrow> readIO x (Inr (p @ q)) s = readIO x (Inr q) s1)"
proof -
  have run: "sock_open (se_net s)" "foldE (read_line x) (tokens p [CHR 0x0D, CHR 0x0A]) s = Inr s1"
    using assms(1) by (auto simp: readIO_def bindE_Inr_iff split: if_splits)
  then have two: "readIO x (Inr q) s1 = bindE (foldE (read_line x) (tokens p [CHR 0x0D, CHR 0x0A] @ tokens q [CHR 0x0D, CHR 0x0A]) s) (\<lambda>s2. Inr (True, s2))"
    using assms(2) by (simp add: readIO_def foldE_append)
  have "readIO x (Inr (p @ q)) s = readIO x (Inr q) s1" if cut: "p \<noteq> []" "last p \<in> {CHR 0x0D, CHR 0x0A}"
  proof -
    obtain p0 c where p: "p = p0 @ [c]" "c \<in> set [CHR 0x0D, CHR 0x0A]"
      using cut by (cases p rule: rev_cases) auto
    have "tokens (p @ q) [CHR 0x0D, CHR 0x0A] = tokens p [CHR 0x0D, CHR 0x0A] @ tokens q [CHR 0x0D, CHR 0x0A]"
      using tokens_append_delim [OF p(2), of p0 q] tokens_append_delim [OF p(2), of p0 "[]"] p(1) by simp
    then show ?thesis unfolding two using run(1) by (simp add: readIO_def)
  qed
  with two show ?thesis by blast
qed

section \<open>Examples\<close>

definition sample_gnutls :: gnutls where
  "sample_gnutls = \<lparr>gn_again = (\<lambda>r. r = -28 \<or> r = -52), gn_fatal = (\<lambda>r. r < -60), gn_strerror = (\<lambda>_. ''error''),
     gn_REHANDSHAKE = -37, gn_INVALID_REQUEST = -50, gn_section = True, gn_trust_file = '' '', gn_crl_file = '' '',
     gn_global_init = 0, gn_allocate = 0, gn_set_trust = 0, gn_set_crl = 0, gn_set_key = 0, gn_dh_init = 0, gn_dh_generate = 0,
     gn_init = 0, gn_priority = 0, gn_credentials = 0\<rparr>"

definition sample_sock :: sockw where
  "sample_sock = \<lparr>sk_recv = 4, sk_send = 4, sk_ok = True, sk_callbacks = [], sk_written = [], sk_log = [],
     sk_tls = Some \<lparr>tls_handshake = True, tls_ok = True, trust_check = False\<rparr>\<rparr>"

theorem retried_write_mutes_witness:
  "\<exists>k1. TLS_Write sample_gnutls [-28, 4] ''PING'' sample_sock = Some (Inr (), k1) \<and> sk_written k1 = ''PING'' \<and>
    TLS_Write sample_gnutls [4] ''PONG'' k1 = Some (Inr (), k1)"
proof -
  have "tls_ready sample_sock" "sk_written sample_sock = []" by (simp_all add: sample_sock_def tls_ready_def)
  moreover have "\<forall>r\<in>set [-28]. r < 0 \<and> gn_again sample_gnutls r \<and> \<not> gn_fatal sample_gnutls r" by (simp add: sample_gnutls_def)
  ultimately show ?thesis
    using retried_write_mutes [of sample_sock "[-28]" sample_gnutls "''PING''"] by auto
qed

text \<open>The connection of a client that was set up with these results.\<close>

lemma sample_sock_made:
  "map_option (map_sum id sk_tls) (SockWrapperTLS sample_gnutls [-28, 0] 4 4) = Some (Inr (sk_tls sample_sock))"
  by (simp add: SockWrapperTLS_def SockWrapper_def tls_setup_def CheckTLSError_def trust_setup_def sample_gnutls_def ProcessTLSHandshake_def
      upd_tls_def sk_note_def sample_sock_def Let_def)

definition sample_pam :: pam_env where
  "sample_pam = \<lparr>pe_start = 0, pe_handle = True, pe_use_setuid = False, pe_known_user = False, pe_setuid_ok = False, pe_authenticate = 7,
     pe_acct_mgmt = 0, pe_chauthtok = 0, pe_end = (\<lambda>_. 0), pe_strerror = (\<lambda>_. []), pe_new_im = Inr ()\<rparr>"

theorem pam_admits_only_checked_witness:
  "\<exists>p1. checkPassword sample_pam ''guess'' (AuthPAM ''alice'') = Inr (Inr False, p1) \<and> \<not> pa_open p1"
proof -
  obtain p1 where p1: "checkPassword sample_pam ''guess'' (AuthPAM ''alice'') = Inr (Inr False, p1)"
    by (simp add: checkPassword_def AuthPAM_def sample_pam_def refuse_def pam_close_def)
  moreover have "pe_handle sample_pam = (pe_start sample_pam = 0)" by (simp add: sample_pam_def)
  ultimately show ?thesis using pam_admits_only_checked [of sample_pam "''guess''" "AuthPAM ''alice''" False p1] by simp
qed

text \<open>A line with an unknown command, and the next line in a read of its own.\<close>

lemma unknown_line:
  "\<exists>s1. readIO sample_env (Inr (''FOO'' @ [CHR 0x0D, CHR 0x0A])) sample_state = Inr (True, s1) \<and> sock_open (se_net s1)"
proof -
  have lines: "tokens (''FOO'' @ [CHR 0x0D, CHR 0x0A]) [CHR 0x0D, CHR 0x0A] = [''FOO'']" by code_simp
  have parsed: "(parse ''FOO'' :: exn + irc_msg) = Inr \<lparr>msg_cmd = ''FOO'', msg_sender = no_entity, msg_receiver = no_entity, msg_args = []\<rparr>"
    by code_simp
  have unknown: "command_index ''FOO'' command_table = None" by code_simp
  have opened: "sock_open (se_net sample_state)" by (simp add: sample_state_def sample_net_def IRC_members_def)
  obtain s0 where s0: "b_log sample_env W_PARSE (''<< '' @ ''FOO'') sample_state = Inr s0" "only_out sample_state s0"
    using b_log_ok [OF sample_facts(1)] by blast
  let ?s = "setLastReadNow (w_now (x_world sample_env)) s0"
  have "host_ok (se_net ?s)" "sock_open (se_net ?s)" using only_outD(3,4) [OF s0(2)] sample_facts(1) opened by (simp_all add: setLastReadNow_def)
  then obtain s1 where "answer ''421'' [''FOO'', ''Unknown command''] ?s = Inr s1" "sock_open (se_net s1)"
    by (simp add: answer_eq has_space_def)
  then show ?thesis using opened lines parsed unknown s0(1)
    by (intro exI [of _ s1]) (simp add: readIO_def read_line_def run_command_def)
qed

theorem reads_cut_at_lines_witness:
  "\<exists>s1. readIO sample_env (Inr (''FOO'' @ [CHR 0x0D, CHR 0x0A])) sample_state = Inr (True, s1) \<and>
    readIO sample_env (Inr ((''FOO'' @ [CHR 0x0D, CHR 0x0A]) @ ''PING x'')) sample_state = readIO sample_env (Inr ''PING x'') s1"
proof -
  obtain s1 where "readIO sample_env (Inr (''FOO'' @ [CHR 0x0D, CHR 0x0A])) sample_state = Inr (True, s1)" "sock_open (se_net s1)"
    using unknown_line by blast
  then show ?thesis using reads_cut_at_lines [of sample_env "''FOO'' @ [CHR 0x0D, CHR 0x0A]" sample_state True s1 "''PING x''"]
    by (intro exI [of _ s1]) (simp del: append.simps)
qed

text \<open>A line cut in the middle is run as two lines.\<close>

lemma half_lines:
  "tokens ''NICK al'' [CHR 0x0D, CHR 0x0A] @ tokens (''ice'' @ [CHR 0x0D, CHR 0x0A]) [CHR 0x0D, CHR 0x0A] = [''NICK al'', ''ice'']"
  by code_simp

end
