(* ===== verification/Teardown.thy ===== *)
theory Teardown
  imports Connection_Props
begin

text \<open>
  The end of a session: the \<open>cleanUp\<close> methods of \<open>src/src/irc/irc.cpp\<close>, which the destructor of \<open>IRC\<close>
  runs in this order after it has deleted the instant-messaging side and the socket.
\<close>

section \<open>The methods\<close>

definition cleanUp_nick :: "string \<times> nid \<Rightarrow> net \<Rightarrow> exn + net" where
  "cleanUp_nick e s =
     bindE (nick_of s (snd e)) (\<lambda>nk.
     bindE (serv_of s (nk_server nk)) (\<lambda>_.
       delete_nick (snd e) (upd_serv (nk_server nk) (Server_removeNick (snd e)) s)))"

definition cleanUpNicks :: "net \<Rightarrow> exn + net" where
  "cleanUpNicks s = bindE (foldE cleanUp_nick (reg_users s) s) (\<lambda>s1. Inr (s1\<lparr>reg_users := []\<rparr>))"

definition cleanUp_server :: "string \<times> sid \<Rightarrow> net \<Rightarrow> exn + net" where
  "cleanUp_server e s = bindE (serv_of s (snd e)) (\<lambda>_. Inr (s\<lparr>servs := (servs s)(snd e := None)\<rparr>))"

definition cleanUpServers :: "net \<Rightarrow> exn + net" where
  "cleanUpServers s = bindE (foldE cleanUp_server (reg_servers s) s) (\<lambda>s1. Inr (s1\<lparr>reg_servers := []\<rparr>))"

definition cleanUpChannels :: "net \<Rightarrow> exn + net" where
  "cleanUpChannels s = bindE (foldE (\<lambda>e. delete_channel (snd e)) (reg_chans s) s) (\<lambda>s1. Inr (s1\<lparr>reg_chans := []\<rparr>))"

definition cleanUpDCC :: "net \<Rightarrow> net" where
  "cleanUpDCC s = s\<lparr>dccs := []\<rparr>"

definition IRC_cleanUp :: "net \<Rightarrow> exn + net" where
  "IRC_cleanUp s = seqE [cleanUpNicks, cleanUpServers, cleanUpChannels, \<lambda>s. Inr (cleanUpDCC s)] s"

section \<open>Nothing dangles\<close>

text \<open>One nick after the other: what is left stays consistent, though its names still are registered.\<close>

lemma cleanUp_nicks_ok:
  assumes "net_ok s" and "cb_ok s" and "distinct (map snd es)"
    and "\<forall>e\<in>set es. \<exists>nk. nicks s (snd e) = Some nk \<and> servs s (nk_server nk) \<noteq> None"
  shows "\<exists>s'. foldE cleanUp_nick es s = Inr s' \<and> net_ok s' \<and> cb_ok s' \<and> nicks s' = (\<lambda>n. if n \<in> snd ` set es then None else nicks s n) \<and>
    (\<forall>i. servs s' i = None \<longleftrightarrow> servs s i = None) \<and> reg_servers s' = reg_servers s \<and> reg_chans s' = reg_chans s \<and>
    (\<forall>c. chans s' c = None \<longleftrightarrow> chans s c = None)"
  using assms
proof (induction es arbitrary: s)
  case (Cons e es)
  obtain nk where nk: "nicks s (snd e) = Some nk" "servs s (nk_server nk) \<noteq> None" using Cons.prems(4) by auto
  let ?s1 = "upd_serv (nk_server nk) (Server_removeNick (snd e)) s"
  have same: "skel ?s1 = skel s" "nicks ?s1 = nicks s" by (simp_all add: skel_def upd_serv_def)
  have "net_ok ?s1" "cb_ok ?s1" using net_ok_skel [OF same(1) Cons.prems(1)] Cons.prems(2) by (simp_all add: upd_serv_def cb_ok_def)
  then obtain s2 where s2: "delete_nick (snd e) ?s1 = Inr s2" "net_ok s2" "cb_ok s2" "nicks s2 = (nicks s)(snd e := None)" "core s2 = core ?s1"
    using delete_nick_spec [of ?s1 "snd e" nk] nk(1) same(2) by auto
  have step: "cleanUp_nick e s = Inr s2" using nk s2(1) by (auto simp: cleanUp_nick_def nick_of_def serv_of_def split: option.split)
  have core: "servs s2 = servs ?s1" "reg_servers s2 = reg_servers s" "reg_chans s2 = reg_chans s"
    using s2(5) by (simp_all add: core_def upd_serv_def)
  have "(\<lambda>c. map_option (\<lambda>ch. (ch_name ch, ch_topic ch, ch_class ch, ch_accounts ch, ch_conv ch, ch_queue ch)) (chans s2 c)) =
      (\<lambda>c. map_option (\<lambda>ch. (ch_name ch, ch_topic ch, ch_class ch, ch_accounts ch, ch_conv ch, ch_queue ch)) (chans s c))"
    using s2(5) by (simp add: core_def upd_serv_def)
  then have chans: "chans s2 c = None \<longleftrightarrow> chans s c = None" for c by (metis (no_types, lifting) option.map_disc_iff)
  have servs: "servs s2 i = None \<longleftrightarrow> servs s i = None" for i using core(1) by (simp add: upd_serv_def)
  have "\<exists>nk. nicks s2 (snd f) = Some nk \<and> servs s2 (nk_server nk) \<noteq> None" if "f \<in> set es" for f
    using Cons.prems(3,4) that s2(4) servs by (auto simp: image_iff)
  then obtain s3 where "foldE cleanUp_nick es s2 = Inr s3 \<and> net_ok s3 \<and> cb_ok s3 \<and> nicks s3 = (\<lambda>n. if n \<in> snd ` set es then None else nicks s2 n) \<and>
    (\<forall>i. servs s3 i = None \<longleftrightarrow> servs s2 i = None) \<and> reg_servers s3 = reg_servers s2 \<and> reg_chans s3 = reg_chans s2 \<and>
    (\<forall>c. chans s3 c = None \<longleftrightarrow> chans s2 c = None)"
    using Cons.IH [OF s2(2,3)] Cons.prems(3) by auto
  then show ?case using step s2(4) core(2,3) servs chans by (intro exI [of _ s3]) (auto simp: fun_eq_iff)
qed simp

lemma cleanUp_servers_ok:
  assumes "distinct (map snd es)" and "\<forall>e\<in>set es. servs s (snd e) \<noteq> None"
  shows "\<exists>f. foldE cleanUp_server es s = Inr (s\<lparr>servs := f\<rparr>) \<and> (\<forall>e\<in>set es. f (snd e) = None)"
proof -
  have "foldE cleanUp_server es s = Inr (s\<lparr>servs := (\<lambda>i. if i \<in> snd ` set es then None else servs s i)\<rparr>)"
    using assms
  proof (induction es arbitrary: s)
    case (Cons e es)
    have "cleanUp_server e s = Inr (s\<lparr>servs := (servs s)(snd e := None)\<rparr>)"
      using Cons.prems(2) by (auto simp: cleanUp_server_def serv_of_def)
    moreover have "\<forall>f\<in>set es. servs (s\<lparr>servs := (servs s)(snd e := None)\<rparr>) (snd f) \<noteq> None"
      using Cons.prems by (auto simp: image_iff)
    moreover have "(\<lambda>i. if i \<in> snd ` set es then None else ((servs s)(snd e := None)) i) = (\<lambda>i. if i \<in> snd ` set (e # es) then None else servs s i)"
      by (auto simp: fun_eq_iff)
    ultimately show ?case using Cons.IH [of "s\<lparr>servs := (servs s)(snd e := None)\<rparr>"] Cons.prems(1) by (simp cong: if_cong)
  qed simp
  then show ?thesis by (intro exI [of _ "\<lambda>i. if i \<in> snd ` set es then None else servs s i"]) simp
qed

text \<open>A channel without users is deleted alone.\<close>

lemma cleanUp_channels_ok:
  assumes "distinct (map snd es)" and "\<forall>e\<in>set es. \<exists>ch. chans s (snd e) = Some ch \<and> ch_users ch = [] \<and> ch_cbuddies ch = []"
  shows "\<exists>f. foldE (\<lambda>e. delete_channel (snd e)) es s = Inr (s\<lparr>chans := f\<rparr>) \<and> (\<forall>e\<in>set es. f (snd e) = None)"
proof -
  have "foldE (\<lambda>e. delete_channel (snd e)) es s = Inr (s\<lparr>chans := (\<lambda>c. if c \<in> snd ` set es then None else chans s c)\<rparr>)"
    using assms
  proof (induction es arbitrary: s)
    case (Cons e es)
    have "delete_channel (snd e) s = Inr (s\<lparr>chans := (chans s)(snd e := None)\<rparr>)"
      using Cons.prems(2) by (auto simp: delete_channel_def chan_of_def)
    moreover have "\<forall>f\<in>set es. \<exists>ch. chans (s\<lparr>chans := (chans s)(snd e := None)\<rparr>) (snd f) = Some ch \<and> ch_users ch = [] \<and> ch_cbuddies ch = []"
      using Cons.prems by (auto simp: image_iff)
    moreover have "(\<lambda>c. if c \<in> snd ` set es then None else ((chans s)(snd e := None)) c) = (\<lambda>c. if c \<in> snd ` set (e # es) then None else chans s c)"
      by (auto simp: fun_eq_iff)
    ultimately show ?case using Cons.IH [of "s\<lparr>chans := (chans s)(snd e := None)\<rparr>"] Cons.prems(1) by (simp cong: if_cong)
  qed simp
  then show ?thesis by (intro exI [of _ "\<lambda>c. if c \<in> snd ` set es then None else chans s c"]) simp
qed

lemma registered_nicks:
  assumes "reg_ok s"
  shows "distinct (map snd (reg_users s))" and "n \<in> snd ` set (reg_users s) \<longleftrightarrow> nicks s n \<noteq> None"
proof -
  note r = reg_okD [OF assms]
  have iff: "(nm, n) \<in> set (reg_users s) \<longleftrightarrow> (\<exists>nk. nicks s n = Some nk \<and> nk_name nk = nm)" for nm n
    using map_find_iff_mem [OF r(1), of nm n] assms unfolding reg_ok_def by blast
  show "n \<in> snd ` set (reg_users s) \<longleftrightarrow> nicks s n \<noteq> None"
  proof
    assume "n \<in> snd ` set (reg_users s)"
    then show "nicks s n \<noteq> None" using iff by auto
  next
    assume "nicks s n \<noteq> None"
    then obtain nk where "nicks s n = Some nk" by blast
    then have "(nk_name nk, n) \<in> set (reg_users s)" using iff by blast
    then show "n \<in> snd ` set (reg_users s)" by force
  qed
  show "distinct (map snd (reg_users s))"
    using map_wf_distinct [OF r(1)] iff by (auto simp: distinct_map inj_on_def)
qed



end
