(* ===== verification/Spec2Isabelle.thy ===== *)
theory Spec2Isabelle
  imports Lifecycle Command_Safety Daemon_Props Settings_Props Config_Props Request_Props Callback_Props Socket_Props Teardown
begin

text \<open>
  minbif is an IRC server for one person: an IRC client connects to it, and the contacts and chats of
  the person's accounts on the instant-messaging networks of libpurple appear as nicks and channels.

  \<^bold>\<open>Parts of the program and their theories.\<close>

  \<^item> \<open>Prelude\<close>: results of code that can throw (\<open>exn + 'a\<close>, \<open>bindE\<close>, \<open>foldE\<close>, \<open>seqE\<close>), \<open>std::map\<close> as
    a sorted association list with the locale \<open>dictionary\<close> and its interpretation, searching in strings.
  \<^item> \<open>Util\<close> and \<open>Markup\<close> (\<open>src/src/core/util.cpp\<close>): \<open>stringtok\<close> with the positions of the C++ code
    and as a scan, case, numbers; the conversion between IRC formatting and HTML markup.
  \<^item> \<open>Message\<close> (\<open>src/src/irc/message.cpp\<close>): the message class, its printer and its parser.
  \<^item> \<open>Nickname\<close> and \<open>Dcc\<close> (\<open>nick.cpp\<close>, \<open>dcc.cpp\<close>): valid nicknames; file transfers.
  \<^item> \<open>Net_State\<close>: the objects of a session and the pointers between them. A pointer is a number into
    one of the heaps \<open>nicks\<close>, \<open>chans\<close>, \<open>cusers\<close>, \<open>servs\<close> of the record \<open>net\<close>; deleting an object takes
    it out of its heap and following a pointer to it afterwards is the result \<open>Inl Dangling\<close>.
  \<^item> \<open>Membership\<close>, \<open>Delivery\<close>, \<open>Registry\<close>, \<open>Channels\<close>, \<open>Lifecycle\<close> (\<open>channel.cpp\<close>, \<open>nick.cpp\<close>,
    \<open>conv_entity.cpp\<close>, \<open>buddy.cpp\<close>, \<open>irc.cpp\<close>, \<open>status_channel.cpp\<close>, \<open>conversation_channel.cpp\<close>,
    \<open>src/src/im/conversation.cpp\<close>): joining, leaving, modes, topics, sending and queueing of messages,
    the registries of the \<open>IRC\<close> object, the two kinds of channels, and the step relation \<open>net_step\<close> of
    the events that change the network state.
  \<^item> \<open>Log_Flags\<close>, \<open>Accounts\<close>, \<open>Session\<close> (\<open>log.cpp\<close>, \<open>account.cpp\<close>, \<open>protocol.cpp\<close>, \<open>auth*.cpp\<close>,
    \<open>im.cpp\<close>, \<open>irc.cpp\<close>): the record \<open>session\<close> around \<open>net\<close>, with registration, keep-alive, logging,
    authentication, and the accounts with their options, queue of channels and reconnection.
  \<^item> \<open>Settings\<close>, \<open>Commands_User\<close>, \<open>Commands_Channels\<close>, \<open>Commands_Accounts\<close>, \<open>Dispatch\<close>
    (\<open>settings.cpp\<close>, \<open>cmds*.cpp\<close>, \<open>irc.cpp\<close>): one definition per handler, the table of commands, and
    the loop that cuts the bytes of the client into lines and runs them.
  \<^item> \<open>Requests\<close> (\<open>request.cpp\<close>): the queue of questions of libpurple and the nick that asks them.
  \<^item> \<open>Conversations\<close>, \<open>Connections\<close>, \<open>Callbacks\<close> (\<open>conversation.cpp\<close>, \<open>account.cpp\<close>, \<open>ft.cpp\<close>,
    \<open>roomlist.cpp\<close>, \<open>purple.cpp\<close>, \<open>dcc.cpp\<close>): what libpurple calls. Messages in both directions and
    the events of chats; connections that come and go, and contacts that add the user; file transfers,
    lists of rooms, status and icon.
  \<^item> \<open>Sockets\<close> and \<open>Auth_Pam\<close> (\<open>src/src/sockwrap/\<close>, \<open>auth_pam.cpp\<close>): the connection to the client, plain
    or with TLS, and the mechanism that asks PAM. The sessions of \<open>Session\<close> take what a read gave as an
    argument, and are those of a program built without PAM.
  \<^item> \<open>Daemon_Fork\<close> (\<open>src/src/server_poll/\<close>): the master and the children of the daemon and the bytes
    between them.
  \<^item> \<open>Config\<close> and \<open>Minbif_Conf\<close> (\<open>config.cpp\<close>, \<open>config.h\<close>, \<open>minbif.cpp\<close>): the configuration file, its
    tree of sections as objects with pointers, and what the program declares and reads.
  \<^item> The theories named \<open>*_Props\<close>, \<open>Lifecycle\<close> and \<open>Command_Safety\<close> hold the properties of the parts.

  The parts interact through the state: a handler of \<open>Dispatch\<close> changes the \<open>session\<close>, in which
  \<open>on_net\<close> runs the operations of the network theories; the preferences and accounts of the session are
  what these operations read (\<open>sworld\<close>); what a handler hands to the server poll (\<open>se_ipc\<close>,
  \<open>se_kills\<close>) is what \<open>Daemon_Fork\<close> sends between the processes, and \<open>Minbif_Conf\<close> gives the blocks
  \<open>OPER\<close> looks its credentials up in.

  \<^bold>\<open>The world outside.\<close> libpurple, GLib, the file system, sockets and the clock are arguments: the
  records \<open>world\<close>, \<open>senv\<close>, \<open>renv\<close>, \<open>venv\<close>, \<open>aenv\<close>, \<open>fenv\<close>, \<open>tenv\<close> and the parameters of \<open>Config\<close>, \<open>Dcc\<close> and \<open>Markup\<close>. Calls into
  libpurple are recorded in \<open>im_calls\<close> and \<open>rq_calls\<close>; what libpurple calls is an operation of its own,
  also where it does so before the recorded call returns, as when \<open>leave\<close> destroys a conversation.
  What is written to the client is \<open>out\<close>.

  \<^bold>\<open>What the lemmas show.\<close> \<open>net_ok\<close>, \<open>cb_ok\<close>, \<open>env_ok\<close> and \<open>reg_ok\<close>, together \<open>session_ok\<close>, say that
  the pointers of a session agree with each other; the lemmas \<open>inv_*\<close> and \<open>*_ok\<close> of \<open>Membership\<close>,
  \<open>Channels\<close> and \<open>Lifecycle\<close> show that the operations keep them and return, so that no dangling pointer
  is followed in a reachable state. The locales \<open>departure\<close> and \<open>query\<close> hold the proofs that are the
  same for several operations: of \<open>quit\<close> in its two uses, and of the commands that only answer.
  \<open>Message\<close>, \<open>Dcc\<close>, \<open>Log_Flags\<close>, \<open>Settings_Props\<close> and \<open>Account_Props\<close> show round trips,
  \<open>Daemon_Props\<close> and \<open>Request_Props\<close> that byte streams and questions refine queues, \<open>Session_Props\<close>
  and \<open>Dispatch_Props\<close> who is registered, kept, and allowed to do what, \<open>Config_Props\<close> what a loaded
  configuration has, \<open>Markup_Props\<close> that formatting survives the way to the network and back,
  \<open>Connection_Props\<close> what a lost connection takes away and a new one brings back, and
  \<open>Callback_Props\<close> that a text and a file arrive as they were sent; the last two also show the two
  pointers that dangle after a connection is lost. \<open>Socket_Props\<close> shows where the stream of the client
  may be cut, what a repeated write leaves of a TLS connection, and whom PAM admits; \<open>Teardown\<close> has
  the \<open>cleanUp\<close> methods of \<open>IRC\<close> and shows that the end of a session follows no dangling pointer.

  \<^bold>\<open>Bounds.\<close> Loops that are not structural have a measure, or fuel that is enough: \<open>fresh_name\<close> and
  \<open>purge_server\<close> have as many rounds as there are users, as each round tries a name that differs in
  length or removes a user; \<open>new_name_loop\<close> has one more than there are accounts. \<open>int\<close> and flags are
  32-bit words where they wrap or are used bitwise; a line of the client has at most 1023 bytes, a peek
  at an IPC socket 511.

  \<^bold>\<open>Not modelled.\<close> libpurple, system calls, GNUTLS, PAM, Imlib and libcaca, whose results are arguments;
  the start of the process, its signals and pid file; the tables of function pointers handed to
  libpurple and the accessors that only ask it; the log line of \<open>getStatusChannel\<close> for a channel that
  does not exist, as the network theories do not log; what libpurple calls while the destructor of
  \<open>IRC\<close> deletes the \<open>IM\<close>; media streams, which need a build with video; and the plugins for libpurple
  under \<open>src/plugins/\<close>, which are loaded by it and not by this program.
\<close>

end
